theory Spec2Isabelle
  imports Main "HOL-Library.Word" "HOL-Library.Monad_Syntax"
begin

unbundle bit_operations_syntax

section \<open>The CAN gateway of net/can/gw.c\<close>

text \<open>
  A shallow embedding of \<^verbatim>\<open>src/net/can/gw.c\<close>: the frame modification
  functions, the receive callback \<^verbatim>\<open>can_can_gw_rcv\<close> (the hot path), the netlink
  attribute parser \<^verbatim>\<open>cgw_parse_attr\<close>, and the job list operations
  \<^verbatim>\<open>cgw_create_job\<close>, \<^verbatim>\<open>cgw_remove_all_jobs\<close> and \<^verbatim>\<open>cgw_remove_job\<close>.
  Every definition keeps the name, the order of the tests and the early returns of the
  C function it stands for.
\<close>

subsection \<open>Data\<close>

type_synonym u8 = "8 word"
type_synonym s8 = "8 word"
type_synonym u16 = "16 word"
type_synonym u32 = "32 word"
type_synonym s64 = "64 word"

text \<open>
  \<^verbatim>\<open>struct can_frame\<close>: the identifier, the length code and eight payload bytes.
  A signed byte (\<^verbatim>\<open>s8\<close>) is an \<open>8 word\<close> read with \<open>sint\<close>.
\<close>

record can_frame =
  can_id :: u32
  can_dlc :: u8
  data :: "u8 list"

record can_filter =
  filter_can_id :: u32
  filter_can_mask :: u32

text \<open>
  The header \<^verbatim>\<open>socketcan/can/gw.h\<close> and the kernel headers are not part of the
  sources at hand. The constants that gw.c takes from them are the fields of one record
  that every function below receives as its first argument, so each theorem holds
  for whatever values the headers give them.
\<close>

record gw_h =
  CGW_MOD_ID :: u8
  CGW_MOD_DLC :: u8
  CGW_MOD_DATA :: u8
  CGW_MODATTR_LEN :: nat
  CGW_CS_XOR_LEN :: nat
  CGW_CS_CRC8_LEN :: nat
  CGW_FLAGS_CAN_ECHO :: u16
  CGW_FLAGS_CAN_SRC_TSTAMP :: u16
  CGW_TYPE_CAN_CAN :: u8
  AF_CAN :: u8
  ARPHRD_CAN :: u16
  IFF_UP :: u32
  sizeof_rtcanmsg :: nat

text \<open>
  Modelled from the spec: \<^verbatim>\<open>MAX_MODFUNCTIONS\<close> is defined in the absent gw.h; the
  specification gives the bound on the number of operators as
  \<^verbatim>\<open>MAX_OPERATORS = 17\<close>.
\<close>

definition MAX_MODFUNCTIONS :: nat where
  "MAX_MODFUNCTIONS = 17"

definition CGW_CS_DISABLED :: s8 where
  "CGW_CS_DISABLED = 42"

text \<open>
  Modelled from the spec: the two checksum configurations are declared in the absent
  gw.h. gw.c reads \<^verbatim>\<open>from_idx\<close>, \<^verbatim>\<open>to_idx\<close> and \<^verbatim>\<open>result_idx\<close> of both; the
  other fields are the ones the specification lists.
\<close>

record cgw_csum_xor =
  from_idx :: s8
  to_idx :: s8
  result_idx :: s8
  init_xor_val :: u8

record cgw_csum_crc8 =
  crc8_from_idx :: s8
  crc8_to_idx :: s8
  crc8_result_idx :: s8
  init_crc_val :: u8
  final_xor_val :: u8
  profile :: u8
  crctab :: "u8 list"

text \<open>The twelve modification functions, as the values of a function pointer.\<close>

datatype modfunc_ptr =
    P_mod_and_id | P_mod_and_dlc | P_mod_and_data
  | P_mod_or_id | P_mod_or_dlc | P_mod_or_data
  | P_mod_xor_id | P_mod_xor_dlc | P_mod_xor_data
  | P_mod_set_id | P_mod_set_dlc | P_mod_set_data

text \<open>
  \<^verbatim>\<open>struct cf_mod\<close>. The nested anonymous structs are flattened:
  \<^verbatim>\<open>modframe.and\<close> is \<open>modframe_and\<close>, \<^verbatim>\<open>modtype.and\<close> is \<open>modtype_and\<close>,
  \<^verbatim>\<open>csum.xor\<close> is \<open>csum_xor\<close>. A null function pointer is \<open>None\<close>.
\<close>

record cf_mod =
  modframe_and :: can_frame
  modframe_or :: can_frame
  modframe_xor :: can_frame
  modframe_set :: can_frame
  modtype_and :: u8
  modtype_or :: u8
  modtype_xor :: u8
  modtype_set :: u8
  modfunc :: "modfunc_ptr option list"
  csum_xor :: cgw_csum_xor
  csum_crc8 :: cgw_csum_crc8

record can_can_gw =
  ccgw_filter :: can_filter
  src_idx :: u32
  dst_idx :: u32

text \<open>
  \<^verbatim>\<open>struct cgw_job\<close> without its list linkage: the position of a job in
  \<^verbatim>\<open>cgw_list\<close> is its position in the list of the state below. A device pointer
  is the address of the device.
\<close>

record cgw_job =
  handled_frames :: u32
  dropped_frames :: u32
  gwj_mod :: cf_mod
  src_dev :: nat
  dst_dev :: nat
  ccgw :: can_can_gw
  gwtype :: u8
  flags :: u16

text \<open>
  The owner pointer \<^verbatim>\<open>skb->sk\<close> is null, a socket, or the address of the
  module's \<^verbatim>\<open>notifier\<close>, which is what \<^verbatim>\<open>CGW_SK_MAGIC\<close> is.
\<close>

datatype sock_ptr = Null_sock | Sock nat | Addr_of_notifier

definition CGW_SK_MAGIC :: sock_ptr where
  "CGW_SK_MAGIC = Addr_of_notifier"

text \<open>
  A socket buffer: the fields gw.c touches. \<open>skb_data\<close> is the pointer
  \<^verbatim>\<open>skb->data\<close>, an index into the memory of CAN frames (a list of frames), so that
  two buffers that share their data are two headers with the same \<open>skb_data\<close>.
\<close>

record sk_buff =
  sk :: sock_ptr
  dev :: nat
  tstamp :: s64
  skb_data :: nat

subsection \<open>Modification functions (the MODFUNC macro)\<close>

text \<open>
  The data functions act on the eight payload bytes through a \<^verbatim>\<open>u64\<close> access; a
  bitwise operation on the 64-bit value is the operation on each of its bytes, in
  whatever order the machine stores them.
\<close>

definition mod_and_id :: "can_frame \<Rightarrow> cf_mod \<Rightarrow> can_frame" where
  "mod_and_id cf md = cf\<lparr>can_id := can_id cf AND can_id (modframe_and md)\<rparr>"

definition mod_and_dlc :: "can_frame \<Rightarrow> cf_mod \<Rightarrow> can_frame" where
  "mod_and_dlc cf md = cf\<lparr>can_dlc := can_dlc cf AND can_dlc (modframe_and md)\<rparr>"

definition mod_and_data :: "can_frame \<Rightarrow> cf_mod \<Rightarrow> can_frame" where
  "mod_and_data cf md = cf\<lparr>data := map2 (AND) (data cf) (data (modframe_and md))\<rparr>"

definition mod_or_id :: "can_frame \<Rightarrow> cf_mod \<Rightarrow> can_frame" where
  "mod_or_id cf md = cf\<lparr>can_id := can_id cf OR can_id (modframe_or md)\<rparr>"

definition mod_or_dlc :: "can_frame \<Rightarrow> cf_mod \<Rightarrow> can_frame" where
  "mod_or_dlc cf md = cf\<lparr>can_dlc := can_dlc cf OR can_dlc (modframe_or md)\<rparr>"

definition mod_or_data :: "can_frame \<Rightarrow> cf_mod \<Rightarrow> can_frame" where
  "mod_or_data cf md = cf\<lparr>data := map2 (OR) (data cf) (data (modframe_or md))\<rparr>"

definition mod_xor_id :: "can_frame \<Rightarrow> cf_mod \<Rightarrow> can_frame" where
  "mod_xor_id cf md = cf\<lparr>can_id := can_id cf XOR can_id (modframe_xor md)\<rparr>"

definition mod_xor_dlc :: "can_frame \<Rightarrow> cf_mod \<Rightarrow> can_frame" where
  "mod_xor_dlc cf md = cf\<lparr>can_dlc := can_dlc cf XOR can_dlc (modframe_xor md)\<rparr>"

definition mod_xor_data :: "can_frame \<Rightarrow> cf_mod \<Rightarrow> can_frame" where
  "mod_xor_data cf md = cf\<lparr>data := map2 (XOR) (data cf) (data (modframe_xor md))\<rparr>"

definition mod_set_id :: "can_frame \<Rightarrow> cf_mod \<Rightarrow> can_frame" where
  "mod_set_id cf md = cf\<lparr>can_id := can_id (modframe_set md)\<rparr>"

definition mod_set_dlc :: "can_frame \<Rightarrow> cf_mod \<Rightarrow> can_frame" where
  "mod_set_dlc cf md = cf\<lparr>can_dlc := can_dlc (modframe_set md)\<rparr>"

definition mod_set_data :: "can_frame \<Rightarrow> cf_mod \<Rightarrow> can_frame" where
  "mod_set_data cf md = cf\<lparr>data := data (modframe_set md)\<rparr>"

text \<open>Calling through a function pointer.\<close>

fun call_modfunc :: "modfunc_ptr \<Rightarrow> can_frame \<Rightarrow> cf_mod \<Rightarrow> can_frame" where
  "call_modfunc P_mod_and_id = mod_and_id"
| "call_modfunc P_mod_and_dlc = mod_and_dlc"
| "call_modfunc P_mod_and_data = mod_and_data"
| "call_modfunc P_mod_or_id = mod_or_id"
| "call_modfunc P_mod_or_dlc = mod_or_dlc"
| "call_modfunc P_mod_or_data = mod_or_data"
| "call_modfunc P_mod_xor_id = mod_xor_id"
| "call_modfunc P_mod_xor_dlc = mod_xor_dlc"
| "call_modfunc P_mod_xor_data = mod_xor_data"
| "call_modfunc P_mod_set_id = mod_set_id"
| "call_modfunc P_mod_set_dlc = mod_set_dlc"
| "call_modfunc P_mod_set_data = mod_set_data"

definition canframecpy :: "can_frame \<Rightarrow> can_frame \<Rightarrow> can_frame" where
  "canframecpy dst src =
     dst\<lparr>can_id := can_id src, can_dlc := can_dlc src, data := data src\<rparr>"

subsection \<open>Checksum parameters and the checksum functions\<close>

datatype errno = EINVAL | ENODEV | ENOMEM | EPFNOSUPPORT | Errno nat

text \<open>
  A C return value: \<open>Inr ()\<close> is \<^verbatim>\<open>return 0\<close>, \<open>Inl e\<close> is \<^verbatim>\<open>return -e\<close>.
\<close>

definition cgw_chk_csum_parms :: "s8 \<Rightarrow> s8 \<Rightarrow> s8 \<Rightarrow> errno + unit" where
  "cgw_chk_csum_parms fr to re =
     (if sint fr > -9 \<and> sint fr < 8 \<and>
         sint to > -9 \<and> sint to < 8 \<and>
         sint re > -9 \<and> sint re < 8
      then Inr ()
      else Inl EINVAL)"

text \<open>
  Both checksum functions have an empty body in gw.c (a comment marks the update as
  still to be done): the frame memory is returned as it was handed in.
\<close>

definition cgw_csum_do_xor :: "can_frame list \<Rightarrow> nat \<Rightarrow> cgw_csum_xor \<Rightarrow> can_frame list" where
  "cgw_csum_do_xor m cf x = m"

definition cgw_csum_do_crc8 :: "can_frame list \<Rightarrow> nat \<Rightarrow> cgw_csum_crc8 \<Rightarrow> can_frame list" where
  "cgw_csum_do_crc8 m cf c = m"

subsection \<open>The receive callback\<close>

text \<open>
  What one call of \<^verbatim>\<open>can_can_gw_rcv\<close> finds around it: the flags of the network
  devices (by address), whether the atomic allocation of the new buffer succeeds, and
  the value \<^verbatim>\<open>can_send\<close> returns.
\<close>

record rcv_env =
  netdev_flags :: "nat \<Rightarrow> u32"
  gfp_atomic_ok :: bool
  can_send_ret :: int

text \<open>
  The calls the callback makes, in the order it makes them: the observable trace of
  one invocation. \<open>Can_send nskb loop\<close> is the call \<^verbatim>\<open>can_send(nskb, loop)\<close>.
\<close>

datatype event =
    Modfunc_called modfunc_ptr
  | Csum_xor_called
  | Csum_crc8_called
  | Can_send sk_buff u16

text \<open>
  The kernel's \<^verbatim>\<open>skb_clone\<close> makes a new header on the same data;
  \<^verbatim>\<open>skb_copy\<close> makes a new header and a private copy of the data, at a new address
  (the next free one of the frame memory). Both return null when the allocation fails.
\<close>

definition skb_clone :: "rcv_env \<Rightarrow> can_frame list \<Rightarrow> sk_buff \<Rightarrow> (sk_buff \<times> can_frame list) option" where
  "skb_clone e m skb = (if gfp_atomic_ok e then Some (skb, m) else None)"

definition skb_copy :: "rcv_env \<Rightarrow> can_frame list \<Rightarrow> sk_buff \<Rightarrow> (sk_buff \<times> can_frame list) option" where
  "skb_copy e m skb =
     (if gfp_atomic_ok e
      then Some (skb\<lparr>skb_data := length m\<rparr>, m @ [m ! skb_data skb])
      else None)"

text \<open>
  The loop \<^verbatim>\<open>while (modidx < MAX_MODFUNCTIONS && gwj->mod.modfunc[modidx])\<close>: each
  round calls the function at \<open>modidx\<close> on the frame at address \<open>cf\<close> and moves on.
  It returns the memory, the final \<open>modidx\<close> and the trace.
\<close>

function modfunc_loop ::
  "cf_mod \<Rightarrow> nat \<Rightarrow> can_frame list \<Rightarrow> nat \<Rightarrow> event list \<Rightarrow> can_frame list \<times> nat \<times> event list" where
  "modfunc_loop md cf m modidx tr =
     (if modidx < MAX_MODFUNCTIONS then
        (case modfunc md ! modidx of
           None \<Rightarrow> (m, modidx, tr)
         | Some f \<Rightarrow>
             modfunc_loop md cf (m[cf := call_modfunc f (m ! cf) md]) (Suc modidx)
               (tr @ [Modfunc_called f]))
      else (m, modidx, tr))"
  by pat_completeness auto
termination
  by (relation "measure (\<lambda>(md, cf, m, modidx, tr). MAX_MODFUNCTIONS - modidx)") auto

declare modfunc_loop.simps [simp del]

text \<open>
  The block \<^verbatim>\<open>if (modidx) { ... }\<close>: the XOR checksum, then the CRC8 checksum, each
  when its \<^verbatim>\<open>from_idx\<close> is not \<^verbatim>\<open>CGW_CS_DISABLED\<close>.
\<close>

definition csum_updates ::
  "cf_mod \<Rightarrow> nat \<Rightarrow> can_frame list \<times> nat \<times> event list \<Rightarrow> can_frame list \<times> event list" where
  "csum_updates md cf st =
     (case st of (m, modidx, tr) \<Rightarrow>
        if modidx \<noteq> 0 then
          (case (if from_idx (csum_xor md) \<noteq> CGW_CS_DISABLED
                 then (cgw_csum_do_xor m cf (csum_xor md), tr @ [Csum_xor_called])
                 else (m, tr)) of
             (m1, tr1) \<Rightarrow>
               if crc8_from_idx (csum_crc8 md) \<noteq> CGW_CS_DISABLED
               then (cgw_csum_do_crc8 m1 cf (csum_crc8 md), tr1 @ [Csum_crc8_called])
               else (m1, tr1))
        else (m, tr))"

text \<open>
  \<^verbatim>\<open>can_can_gw_rcv(skb, data)\<close> with \<open>gwj\<close> the job \<^verbatim>\<open>data\<close> points to. The
  function returns nothing in C; here it returns what it changed: the job (its two
  counters), the frame memory, and the trace of its calls.
\<close>

definition can_can_gw_rcv ::
  "gw_h \<Rightarrow> rcv_env \<Rightarrow> can_frame list \<Rightarrow> sk_buff \<Rightarrow> cgw_job \<Rightarrow> cgw_job \<times> can_frame list \<times> event list" where
  "can_can_gw_rcv h e m skb gwj =
     (if sk skb = CGW_SK_MAGIC then (gwj, m, [])
      else if netdev_flags e (dst_dev gwj) AND IFF_UP h = 0 then
        (gwj\<lparr>dropped_frames := dropped_frames gwj + 1\<rparr>, m, [])
      else
        (case (if modfunc (gwj_mod gwj) ! 0 \<noteq> None
               then skb_copy e m skb
               else skb_clone e m skb) of
           None \<Rightarrow> (gwj\<lparr>dropped_frames := dropped_frames gwj + 1\<rparr>, m, [])
         | Some (nskb0, m0) \<Rightarrow>
             (let nskb = nskb0\<lparr>sk := CGW_SK_MAGIC, dev := dst_dev gwj\<rparr>;
                  cf = skb_data nskb
              in (case csum_updates (gwj_mod gwj) cf (modfunc_loop (gwj_mod gwj) cf m0 0 []) of
                    (m1, tr) \<Rightarrow>
                      (let nskb1 = (if flags gwj AND CGW_FLAGS_CAN_SRC_TSTAMP h = 0
                                    then nskb\<lparr>tstamp := 0\<rparr> else nskb);
                           tr1 = tr @ [Can_send nskb1 (flags gwj AND CGW_FLAGS_CAN_ECHO h)]
                       in if can_send_ret e \<noteq> 0
                          then (gwj\<lparr>dropped_frames := dropped_frames gwj + 1\<rparr>, m1, tr1)
                          else (gwj\<lparr>handled_frames := handled_frames gwj + 1\<rparr>, m1, tr1))))))"

subsection \<open>The netlink request\<close>

text \<open>
  \<^verbatim>\<open>struct cgw_frame_mod\<close>, the payload of a \<^verbatim>\<open>CGW_MOD_*\<close> attribute, and
  \<^verbatim>\<open>struct rtcanmsg\<close>, the fixed head of a request.
\<close>

record cgw_frame_mod =
  mb_cf :: can_frame
  mb_modtype :: u8

record rtcanmsg =
  can_family :: u8
  rt_gwtype :: u8
  rt_flags :: u16

text \<open>
  A netlink attribute is its payload length (\<^verbatim>\<open>nla_len\<close>) and its payload. gw.c
  reads a payload (with \<^verbatim>\<open>nla_memcpy\<close>) only after it has found the length equal
  to the size of the struct it reads, so the payload is kept as a value of that
  struct. The table \<^verbatim>\<open>tb\<close> that \<^verbatim>\<open>nlmsg_parse\<close> fills has one entry per attribute
  type; an absent attribute is \<open>None\<close>.
\<close>

record 'a nlattr =
  nla_len :: nat
  nla_data :: 'a

record nlattr_tb =
  tb_CGW_MOD_AND :: "cgw_frame_mod nlattr option"
  tb_CGW_MOD_OR :: "cgw_frame_mod nlattr option"
  tb_CGW_MOD_XOR :: "cgw_frame_mod nlattr option"
  tb_CGW_MOD_SET :: "cgw_frame_mod nlattr option"
  tb_CGW_CS_XOR :: "cgw_csum_xor nlattr option"
  tb_CGW_CS_CRC8 :: "cgw_csum_crc8 nlattr option"
  tb_CGW_FILTER :: "can_filter nlattr option"
  tb_CGW_SRC_IF :: "u32 nlattr option"
  tb_CGW_DST_IF :: "u32 nlattr option"

text \<open>
  A request: the length of its payload, its head, and what the kernel's
  \<^verbatim>\<open>nlmsg_parse\<close> makes of its attributes (an error, or the table).
\<close>

record nlmsghdr =
  nlmsg_len :: nat
  nlmsg_data :: rtcanmsg
  nlmsg_parse :: "errno + nlattr_tb"

subsection \<open>cgw\_parse\_attr\<close>

definition zero_frame :: can_frame where
  "zero_frame = \<lparr>can_id = 0, can_dlc = 0, data = replicate 8 0\<rparr>"

text \<open>
  The start of the parser: \<^verbatim>\<open>memset(mod, 0, sizeof(*mod))\<close>, then both
  \<^verbatim>\<open>from_idx\<close> set to \<^verbatim>\<open>CGW_CS_DISABLED\<close>.
\<close>

definition cf_mod_init :: cf_mod where
  "cf_mod_init =
     \<lparr>modframe_and = zero_frame, modframe_or = zero_frame,
      modframe_xor = zero_frame, modframe_set = zero_frame,
      modtype_and = 0, modtype_or = 0, modtype_xor = 0, modtype_set = 0,
      modfunc = replicate MAX_MODFUNCTIONS None,
      csum_xor = \<lparr>from_idx = CGW_CS_DISABLED, to_idx = 0, result_idx = 0, init_xor_val = 0\<rparr>,
      csum_crc8 = \<lparr>crc8_from_idx = CGW_CS_DISABLED, crc8_to_idx = 0, crc8_result_idx = 0,
                   init_crc_val = 0, final_xor_val = 0, profile = 0,
                   crctab = replicate 256 0\<rparr>\<rparr>"

text \<open>
  The statement \<^verbatim>\<open>mod->modfunc[modidx++] = f\<close> on the pair of \<^verbatim>\<open>mod\<close> and
  \<^verbatim>\<open>modidx\<close>. The array has \<^verbatim>\<open>MAX_MODFUNCTIONS\<close> elements and C does not check
  the index: a store beyond the array is the result \<open>None\<close>.
\<close>

definition set_modfunc :: "modfunc_ptr \<Rightarrow> cf_mod \<times> nat \<Rightarrow> (cf_mod \<times> nat) option" where
  "set_modfunc f st =
     (case st of (md, modidx) \<Rightarrow>
        if modidx < MAX_MODFUNCTIONS
        then Some (md\<lparr>modfunc := (modfunc md)[modidx := Some f]\<rparr>, Suc modidx)
        else None)"

text \<open>\<^verbatim>\<open>if (mb.modtype & msk) mod->modfunc[modidx++] = f;\<close>\<close>

definition modtype_bit :: "u8 \<Rightarrow> u8 \<Rightarrow> modfunc_ptr \<Rightarrow> cf_mod \<times> nat \<Rightarrow> (cf_mod \<times> nat) option" where
  "modtype_bit mt msk f st = (if mt AND msk \<noteq> 0 then set_modfunc f st else Some st)"

text \<open>The four blocks for \<^verbatim>\<open>CGW_MOD_AND\<close>, \<^verbatim>\<open>_OR\<close>, \<^verbatim>\<open>_XOR\<close> and \<^verbatim>\<open>_SET\<close>.\<close>

definition parse_mod_and :: "gw_h \<Rightarrow> nlattr_tb \<Rightarrow> cf_mod \<times> nat \<Rightarrow> (cf_mod \<times> nat) option" where
  "parse_mod_and h tb st =
     (case tb_CGW_MOD_AND tb of
        None \<Rightarrow> Some st
      | Some a \<Rightarrow>
          if nla_len a = CGW_MODATTR_LEN h then
            (case st of (md, modidx) \<Rightarrow>
               (let mb = nla_data a;
                    md1 = md\<lparr>modframe_and := canframecpy (modframe_and md) (mb_cf mb),
                             modtype_and := mb_modtype mb\<rparr>
                in Some (md1, modidx)
                   \<bind> modtype_bit (mb_modtype mb) (CGW_MOD_ID h) P_mod_and_id
                   \<bind> modtype_bit (mb_modtype mb) (CGW_MOD_DLC h) P_mod_and_dlc
                   \<bind> modtype_bit (mb_modtype mb) (CGW_MOD_DATA h) P_mod_and_data))
          else Some st)"

definition parse_mod_or :: "gw_h \<Rightarrow> nlattr_tb \<Rightarrow> cf_mod \<times> nat \<Rightarrow> (cf_mod \<times> nat) option" where
  "parse_mod_or h tb st =
     (case tb_CGW_MOD_OR tb of
        None \<Rightarrow> Some st
      | Some a \<Rightarrow>
          if nla_len a = CGW_MODATTR_LEN h then
            (case st of (md, modidx) \<Rightarrow>
               (let mb = nla_data a;
                    md1 = md\<lparr>modframe_or := canframecpy (modframe_or md) (mb_cf mb),
                             modtype_or := mb_modtype mb\<rparr>
                in Some (md1, modidx)
                   \<bind> modtype_bit (mb_modtype mb) (CGW_MOD_ID h) P_mod_or_id
                   \<bind> modtype_bit (mb_modtype mb) (CGW_MOD_DLC h) P_mod_or_dlc
                   \<bind> modtype_bit (mb_modtype mb) (CGW_MOD_DATA h) P_mod_or_data))
          else Some st)"

definition parse_mod_xor :: "gw_h \<Rightarrow> nlattr_tb \<Rightarrow> cf_mod \<times> nat \<Rightarrow> (cf_mod \<times> nat) option" where
  "parse_mod_xor h tb st =
     (case tb_CGW_MOD_XOR tb of
        None \<Rightarrow> Some st
      | Some a \<Rightarrow>
          if nla_len a = CGW_MODATTR_LEN h then
            (case st of (md, modidx) \<Rightarrow>
               (let mb = nla_data a;
                    md1 = md\<lparr>modframe_xor := canframecpy (modframe_xor md) (mb_cf mb),
                             modtype_xor := mb_modtype mb\<rparr>
                in Some (md1, modidx)
                   \<bind> modtype_bit (mb_modtype mb) (CGW_MOD_ID h) P_mod_xor_id
                   \<bind> modtype_bit (mb_modtype mb) (CGW_MOD_DLC h) P_mod_xor_dlc
                   \<bind> modtype_bit (mb_modtype mb) (CGW_MOD_DATA h) P_mod_xor_data))
          else Some st)"

definition parse_mod_set :: "gw_h \<Rightarrow> nlattr_tb \<Rightarrow> cf_mod \<times> nat \<Rightarrow> (cf_mod \<times> nat) option" where
  "parse_mod_set h tb st =
     (case tb_CGW_MOD_SET tb of
        None \<Rightarrow> Some st
      | Some a \<Rightarrow>
          if nla_len a = CGW_MODATTR_LEN h then
            (case st of (md, modidx) \<Rightarrow>
               (let mb = nla_data a;
                    md1 = md\<lparr>modframe_set := canframecpy (modframe_set md) (mb_cf mb),
                             modtype_set := mb_modtype mb\<rparr>
                in Some (md1, modidx)
                   \<bind> modtype_bit (mb_modtype mb) (CGW_MOD_ID h) P_mod_set_id
                   \<bind> modtype_bit (mb_modtype mb) (CGW_MOD_DLC h) P_mod_set_dlc
                   \<bind> modtype_bit (mb_modtype mb) (CGW_MOD_DATA h) P_mod_set_data))
          else Some st)"

text \<open>
  The first part of the parser, up to the end of the four blocks: from the initial
  \<^verbatim>\<open>mod\<close> and \<^verbatim>\<open>modidx = 0\<close> to the filled \<^verbatim>\<open>mod\<close> and the final \<^verbatim>\<open>modidx\<close>.
\<close>

definition parse_mods :: "gw_h \<Rightarrow> nlattr_tb \<Rightarrow> (cf_mod \<times> nat) option" where
  "parse_mods h tb =
     Some (cf_mod_init, 0)
     \<bind> parse_mod_and h tb
     \<bind> parse_mod_or h tb
     \<bind> parse_mod_xor h tb
     \<bind> parse_mod_set h tb"

text \<open>
  The block \<^verbatim>\<open>if (modidx) { ... }\<close> of the parser: each checksum attribute of the
  right length is copied into \<^verbatim>\<open>mod\<close> and its three indices are checked; a failed
  check returns at once.
\<close>

definition parse_cs_xor :: "gw_h \<Rightarrow> nlattr_tb \<Rightarrow> cf_mod \<Rightarrow> (errno + unit) \<times> cf_mod" where
  "parse_cs_xor h tb md =
     (case tb_CGW_CS_XOR tb of
        None \<Rightarrow> (Inr (), md)
      | Some a \<Rightarrow>
          if nla_len a = CGW_CS_XOR_LEN h then
            (let md1 = md\<lparr>csum_xor := nla_data a\<rparr>
             in (cgw_chk_csum_parms (from_idx (csum_xor md1)) (to_idx (csum_xor md1))
                   (result_idx (csum_xor md1)), md1))
          else (Inr (), md))"

definition parse_cs_crc8 :: "gw_h \<Rightarrow> nlattr_tb \<Rightarrow> cf_mod \<Rightarrow> (errno + unit) \<times> cf_mod" where
  "parse_cs_crc8 h tb md =
     (case tb_CGW_CS_CRC8 tb of
        None \<Rightarrow> (Inr (), md)
      | Some a \<Rightarrow>
          if nla_len a = CGW_CS_CRC8_LEN h then
            (let md1 = md\<lparr>csum_crc8 := nla_data a\<rparr>
             in (cgw_chk_csum_parms (crc8_from_idx (csum_crc8 md1)) (crc8_to_idx (csum_crc8 md1))
                   (crc8_result_idx (csum_crc8 md1)), md1))
          else (Inr (), md))"

definition parse_csum :: "gw_h \<Rightarrow> nlattr_tb \<Rightarrow> cf_mod \<times> nat \<Rightarrow> (errno + unit) \<times> cf_mod" where
  "parse_csum h tb st =
     (case st of (md, modidx) \<Rightarrow>
        if modidx \<noteq> 0 then
          (case parse_cs_xor h tb md of
             (Inl err, md1) \<Rightarrow> (Inl err, md1)
           | (Inr u, md1) \<Rightarrow> parse_cs_crc8 h tb md1)
        else (Inr (), md))"

text \<open>
  The block for \<^verbatim>\<open>CGW_TYPE_CAN_CAN\<close>: the filter and the two interface indices.
  \<^verbatim>\<open>sizeof(struct can_filter)\<close> is 8 and \<^verbatim>\<open>sizeof(u32)\<close> is 4.
\<close>

definition parse_ccgw :: "nlattr_tb \<Rightarrow> (errno + unit) \<times> can_can_gw" where
  "parse_ccgw tb =
     (let c0 = \<lparr>ccgw_filter = \<lparr>filter_can_id = 0, filter_can_mask = 0\<rparr>,
                src_idx = 0, dst_idx = 0\<rparr>;
          c1 = (case tb_CGW_FILTER tb of
                  None \<Rightarrow> c0
                | Some a \<Rightarrow> if nla_len a = 8 then c0\<lparr>ccgw_filter := nla_data a\<rparr> else c0)
      in case (tb_CGW_SRC_IF tb, tb_CGW_DST_IF tb) of
           (Some s, Some d) \<Rightarrow>
             (let c2 = (if nla_len s = 4 then c1\<lparr>src_idx := nla_data s\<rparr> else c1);
                  c3 = (if nla_len d = 4 then c2\<lparr>dst_idx := nla_data d\<rparr> else c2)
              in if src_idx c3 = 0 \<and> dst_idx c3 = 0 then (Inr (), c3)
                 else if src_idx c3 = 0 \<or> dst_idx c3 = 0 then (Inl ENODEV, c3)
                 else (Inr (), c3))
         | _ \<Rightarrow> (Inl ENODEV, c1))"

text \<open>
  \<^verbatim>\<open>cgw_parse_attr(nlh, mod, gwtype, gwtypeattr)\<close>. The result is \<open>None\<close> when a
  store went beyond \<^verbatim>\<open>mod->modfunc\<close>; otherwise it is the return value together with
  the contents of the two output parameters at the return. \<open>ccgw_in\<close> is what
  \<^verbatim>\<open>gwtypeattr\<close> points to at the call: a return before the \<^verbatim>\<open>memset\<close> of that
  block leaves it as it was.
\<close>

definition cgw_parse_attr ::
  "gw_h \<Rightarrow> nlmsghdr \<Rightarrow> u8 \<Rightarrow> can_can_gw \<Rightarrow> ((errno + unit) \<times> cf_mod \<times> can_can_gw) option" where
  "cgw_parse_attr h nlh gwt ccgw_in =
     (case nlmsg_parse nlh of
        Inl err \<Rightarrow> Some (Inl err, cf_mod_init, ccgw_in)
      | Inr tb \<Rightarrow>
          (case parse_mods h tb of
             None \<Rightarrow> None
           | Some st \<Rightarrow>
               (case parse_csum h tb st of
                  (Inl err, md) \<Rightarrow> Some (Inl err, md, ccgw_in)
                | (Inr u, md) \<Rightarrow>
                    if gwt = CGW_TYPE_CAN_CAN h
                    then (case parse_ccgw tb of (ret, c) \<Rightarrow> Some (ret, md, c))
                    else Some (Inr (), md, ccgw_in))))"

subsection \<open>The job list\<close>

text \<open>
  The state of the module: \<^verbatim>\<open>cgw_list\<close>, head first, each node with its address and
  its contents; and the receive list of the CAN core, one entry per
  \<^verbatim>\<open>can_rx_register\<close> that has not been undone (device, id, mask and the
  \<^verbatim>\<open>data\<close> pointer, which is the address of the job).
\<close>

record rx_entry =
  rx_dev :: nat
  rx_can_id :: u32
  rx_mask :: u32
  rx_data :: nat

record gw_state =
  cgw_list :: "(nat \<times> cgw_job) list"
  can_rx :: "rx_entry list"

text \<open>
  What a management call finds around it: the result of \<^verbatim>\<open>kmem_cache_alloc\<close> (null,
  or the address of the new object and the bytes it holds, which nothing has
  initialised), the devices by interface index, the type of each device, the return
  value of \<^verbatim>\<open>can_rx_register\<close>, and the bytes of the local variable \<^verbatim>\<open>ccgw\<close> of
  \<^verbatim>\<open>cgw_remove_job\<close> before it is written.
\<close>

record mgmt_env =
  kmem_cache_alloc :: "(nat \<times> cgw_job) option"
  dev_get_by_index :: "u32 \<Rightarrow> nat option"
  netdev_type :: "nat \<Rightarrow> u16"
  can_rx_register_ret :: "errno + unit"
  uninit_ccgw :: can_can_gw

definition rx_entry_of :: "nat \<Rightarrow> cgw_job \<Rightarrow> rx_entry" where
  "rx_entry_of p gwj =
     \<lparr>rx_dev = src_dev gwj, rx_can_id = filter_can_id (ccgw_filter (ccgw gwj)),
      rx_mask = filter_can_mask (ccgw_filter (ccgw gwj)), rx_data = p\<rparr>"

definition cgw_register_filter :: "mgmt_env \<Rightarrow> nat \<Rightarrow> cgw_job \<Rightarrow> gw_state \<Rightarrow> (errno + unit) \<times> gw_state" where
  "cgw_register_filter e p gwj s =
     (case can_rx_register_ret e of
        Inl err \<Rightarrow> (Inl err, s)
      | Inr u \<Rightarrow> (Inr (), s\<lparr>can_rx := rx_entry_of p gwj # can_rx s\<rparr>))"

definition cgw_unregister_filter :: "nat \<Rightarrow> cgw_job \<Rightarrow> gw_state \<Rightarrow> gw_state" where
  "cgw_unregister_filter p gwj s = s\<lparr>can_rx := remove1 (rx_entry_of p gwj) (can_rx s)\<rparr>"

text \<open>\<^verbatim>\<open>hlist_del(&gwj->list)\<close> for the job at address \<open>p\<close>.\<close>

fun unlink_node :: "nat \<Rightarrow> (nat \<times> cgw_job) list \<Rightarrow> (nat \<times> cgw_job) list" where
  "unlink_node p [] = []"
| "unlink_node p ((q, gwj) # rest) = (if q = p then rest else (q, gwj) # unlink_node p rest)"

definition hlist_del :: "nat \<Rightarrow> gw_state \<Rightarrow> gw_state" where
  "hlist_del p s = s\<lparr>cgw_list := unlink_node p (cgw_list s)\<rparr>"

definition cgw_create_job :: "gw_h \<Rightarrow> mgmt_env \<Rightarrow> gw_state \<Rightarrow> nlmsghdr \<Rightarrow> ((errno + unit) \<times> gw_state) option" where
  "cgw_create_job h e s nlh =
     (if nlmsg_len nlh < sizeof_rtcanmsg h then Some (Inl EINVAL, s)
      else let r = nlmsg_data nlh in
        if can_family r \<noteq> AF_CAN h then Some (Inl EPFNOSUPPORT, s)
        else if rt_gwtype r \<noteq> CGW_TYPE_CAN_CAN h then Some (Inl EINVAL, s)
        else
          (case kmem_cache_alloc e of
             None \<Rightarrow> Some (Inl ENOMEM, s)
           | Some (p, g0) \<Rightarrow>
               (let g1 = g0\<lparr>handled_frames := 0, dropped_frames := 0,
                            flags := rt_flags r, gwtype := rt_gwtype r\<rparr>
                in case cgw_parse_attr h nlh (CGW_TYPE_CAN_CAN h) (ccgw g1) of
                     None \<Rightarrow> None
                   | Some (Inl err, md, c) \<Rightarrow> Some (Inl err, s)
                   | Some (Inr u, md, c) \<Rightarrow>
                       (let g2 = g1\<lparr>gwj_mod := md, ccgw := c\<rparr>
                        in if src_idx (ccgw g2) = 0 \<or> dst_idx (ccgw g2) = 0
                           then Some (Inl ENODEV, s)
                           else
                             (case dev_get_by_index e (src_idx (ccgw g2)) of
                                None \<Rightarrow> Some (Inl ENODEV, s)
                              | Some sd \<Rightarrow>
                                  if netdev_type e sd \<noteq> ARPHRD_CAN h then Some (Inl ENODEV, s)
                                  else
                                    (case dev_get_by_index e (dst_idx (ccgw g2)) of
                                       None \<Rightarrow> Some (Inl ENODEV, s)
                                     | Some dd \<Rightarrow>
                                         if netdev_type e dd \<noteq> ARPHRD_CAN h
                                         then Some (Inl ENODEV, s)
                                         else
                                           (let g3 = g2\<lparr>src_dev := sd, dst_dev := dd\<rparr>
                                            in case cgw_register_filter e p g3 s of
                                                 (Inl err, s1) \<Rightarrow> Some (Inl err, s1)
                                               | (Inr u1, s1) \<Rightarrow>
                                                   Some (Inr (), s1\<lparr>cgw_list := (p, g3) # cgw_list s1\<rparr>))))))))"

text \<open>
  \<^verbatim>\<open>cgw_remove_all_jobs\<close>: the loop over the list unlinks each job, unregisters its
  filter and frees it.
\<close>

fun remove_all_loop :: "(nat \<times> cgw_job) list \<Rightarrow> gw_state \<Rightarrow> gw_state" where
  "remove_all_loop [] s = s"
| "remove_all_loop ((p, gwj) # rest) s =
     remove_all_loop rest (cgw_unregister_filter p gwj (hlist_del p s))"

definition cgw_remove_all_jobs :: "gw_state \<Rightarrow> gw_state" where
  "cgw_remove_all_jobs s = remove_all_loop (cgw_list s) s"

text \<open>
  The loop of \<^verbatim>\<open>cgw_remove_job\<close> over the list, from the head. The two
  \<^verbatim>\<open>memcmp\<close> compare \<^verbatim>\<open>gwj->mod\<close> and \<^verbatim>\<open>gwj->ccgw\<close> byte by byte with the parsed
  request: the job's were filled by the same parser, so equal bytes are equal values.
  The first job that passes the three tests is removed and the loop ends
  (\<^verbatim>\<open>break\<close>); when the list is exhausted \<^verbatim>\<open>err\<close> is still \<^verbatim>\<open>-EINVAL\<close>.
\<close>

fun remove_job_loop ::
  "rtcanmsg \<Rightarrow> cf_mod \<Rightarrow> can_can_gw \<Rightarrow> (nat \<times> cgw_job) list \<Rightarrow> gw_state \<Rightarrow> (errno + unit) \<times> gw_state" where
  "remove_job_loop r md c [] s = (Inl EINVAL, s)"
| "remove_job_loop r md c ((p, gwj) # rest) s =
     (if flags gwj \<noteq> rt_flags r then remove_job_loop r md c rest s
      else if gwj_mod gwj \<noteq> md then remove_job_loop r md c rest s
      else if ccgw gwj \<noteq> c then remove_job_loop r md c rest s
      else (Inr (), cgw_unregister_filter p gwj (hlist_del p s)))"

definition cgw_remove_job :: "gw_h \<Rightarrow> mgmt_env \<Rightarrow> gw_state \<Rightarrow> nlmsghdr \<Rightarrow> ((errno + unit) \<times> gw_state) option" where
  "cgw_remove_job h e s nlh =
     (if nlmsg_len nlh < sizeof_rtcanmsg h then Some (Inl EINVAL, s)
      else let r = nlmsg_data nlh in
        if can_family r \<noteq> AF_CAN h then Some (Inl EPFNOSUPPORT, s)
        else if rt_gwtype r \<noteq> CGW_TYPE_CAN_CAN h then Some (Inl EINVAL, s)
        else
          (case cgw_parse_attr h nlh (CGW_TYPE_CAN_CAN h) (uninit_ccgw e) of
             None \<Rightarrow> None
           | Some (Inl err, md, c) \<Rightarrow> Some (Inl err, s)
           | Some (Inr u, md, c) \<Rightarrow>
               if src_idx c = 0 \<and> dst_idx c = 0
               then Some (Inr (), cgw_remove_all_jobs s)
               else Some (remove_job_loop r md c (cgw_list s) s)))"

subsection \<open>Reading a trace\<close>

fun is_modfunc :: "event \<Rightarrow> bool" where
  "is_modfunc (Modfunc_called f) = True"
| "is_modfunc ev = False"

fun is_csum :: "event \<Rightarrow> bool" where
  "is_csum Csum_xor_called = True"
| "is_csum Csum_crc8_called = True"
| "is_csum ev = False"

text \<open>The buffers handed to \<^verbatim>\<open>can_send\<close>, in order: the frames forwarded.\<close>

fun sent_skbs :: "event list \<Rightarrow> sk_buff list" where
  "sent_skbs [] = []"
| "sent_skbs (Can_send nskb lp # tr) = nskb # sent_skbs tr"
| "sent_skbs (ev # tr) = sent_skbs tr"

text \<open>
  The checksum calls of a job whose frame was modified, and the buffer header the
  callback hands to \<^verbatim>\<open>can_send\<close>, both read off \<^verbatim>\<open>can_can_gw_rcv\<close>; the lemmas
  below state the callback's result with them.
\<close>

definition csum_trace :: "cf_mod \<Rightarrow> event list" where
  "csum_trace md =
     (if from_idx (csum_xor md) \<noteq> CGW_CS_DISABLED then [Csum_xor_called] else []) @
     (if crc8_from_idx (csum_crc8 md) \<noteq> CGW_CS_DISABLED then [Csum_crc8_called] else [])"

definition forwarded_skb :: "gw_h \<Rightarrow> can_frame list \<Rightarrow> sk_buff \<Rightarrow> cgw_job \<Rightarrow> sk_buff" where
  "forwarded_skb h m skb gwj =
     \<lparr>sk = CGW_SK_MAGIC, dev = dst_dev gwj,
      tstamp = (if flags gwj AND CGW_FLAGS_CAN_SRC_TSTAMP h = 0 then 0 else tstamp skb),
      skb_data = (if modfunc (gwj_mod gwj) ! 0 \<noteq> None then length m else skb_data skb)\<rparr>"

subsection \<open>A sent frame that comes back\<close>

text \<open>
  Modelled from the spec: the CAN core (\<^verbatim>\<open>can_send\<close>, \<^verbatim>\<open>can_rx_register\<close> and the
  delivery to the registered callbacks) is not part of the sources at hand. The
  specification has the substrate deliver the frames of an interface to the callbacks
  registered on it whose filter the frame matches, a frame matching a filter iff
  \<^verbatim>\<open>(frame.id & mask) == (id & mask)\<close>, and has it carry the origin marker of a
  buffer unchanged. For one job: a buffer that \<^verbatim>\<open>can_send\<close> accepted is handed back
  to the job's callback when it went out on the job's source device and the job's filter
  admits its frame.
\<close>

definition filter_admits :: "can_filter \<Rightarrow> can_frame \<Rightarrow> bool" where
  "filter_admits f fr =
     (can_id fr AND filter_can_mask f = filter_can_id f AND filter_can_mask f)"

definition delivered_back :: "cgw_job \<Rightarrow> can_frame list \<Rightarrow> sk_buff \<Rightarrow> bool" where
  "delivered_back gwj m nskb =
     (dev nskb = src_dev gwj \<and> filter_admits (ccgw_filter (ccgw gwj)) (m ! skb_data nskb))"

text \<open>
  Modelled from the spec: the chain of invocations that one inserted frame causes for
  one job. \<open>es i\<close> is what the \<open>i\<close>-th invocation finds around it. Each round runs
  the callback; a buffer it sent, accepted by \<^verbatim>\<open>can_send\<close> and delivered back, starts
  the next round. The first argument bounds the number of rounds: \<open>None\<close> is a chain
  that has not ended within the bound.
\<close>

fun gw_chain ::
  "nat \<Rightarrow> gw_h \<Rightarrow> (nat \<Rightarrow> rcv_env) \<Rightarrow> nat \<Rightarrow> can_frame list \<Rightarrow> sk_buff \<Rightarrow> cgw_job
   \<Rightarrow> (cgw_job \<times> can_frame list \<times> event list) option" where
  "gw_chain 0 h es i m skb gwj = None"
| "gw_chain (Suc fuel) h es i m skb gwj =
     (case can_can_gw_rcv h (es i) m skb gwj of
        (gwj1, m1, tr) \<Rightarrow>
          (case sent_skbs tr of
             [] \<Rightarrow> Some (gwj1, m1, tr)
           | nskb # others \<Rightarrow>
               if can_send_ret (es i) = 0 \<and> delivered_back gwj1 m1 nskb
               then (case gw_chain fuel h es (Suc i) m1 nskb gwj1 of
                       None \<Rightarrow> None
                     | Some (gwj2, m2, tr2) \<Rightarrow> Some (gwj2, m2, tr @ tr2))
               else Some (gwj1, m1, tr)))"

subsection \<open>Properties of a request and of a job, as the claims name them\<close>

text \<open>An index of the domain \<open>-8..7\<close>.\<close>

definition idx_in_domain :: "s8 \<Rightarrow> bool" where
  "idx_in_domain i = (- 8 \<le> sint i \<and> sint i \<le> 7)"

text \<open>A \<^verbatim>\<open>CGW_MOD_*\<close> attribute that selects none of ID, DLC and DATA.\<close>

definition empty_selector :: "gw_h \<Rightarrow> cgw_frame_mod nlattr \<Rightarrow> bool" where
  "empty_selector h a =
     (mb_modtype (nla_data a) AND CGW_MOD_ID h = 0 \<and>
      mb_modtype (nla_data a) AND CGW_MOD_DLC h = 0 \<and>
      mb_modtype (nla_data a) AND CGW_MOD_DATA h = 0)"

text \<open>
  The array \<^verbatim>\<open>modfunc\<close> holds functions at its first \<open>k\<close> places and null pointers
  at the others.
\<close>

definition modfunc_filled :: "cf_mod \<Rightarrow> nat \<Rightarrow> bool" where
  "modfunc_filled md k =
     (length (modfunc md) = MAX_MODFUNCTIONS \<and>
      (\<forall>i < MAX_MODFUNCTIONS. (modfunc md ! i \<noteq> None) = (i < k)))"

text \<open>
  The interface indices the parser reads from a table: an attribute of another length
  than four bytes leaves the zero of the \<^verbatim>\<open>memset\<close>.
\<close>

definition parsed_src_idx :: "nlattr_tb \<Rightarrow> u32" where
  "parsed_src_idx tb =
     (case tb_CGW_SRC_IF tb of None \<Rightarrow> 0 | Some a \<Rightarrow> if nla_len a = 4 then nla_data a else 0)"

definition parsed_dst_idx :: "nlattr_tb \<Rightarrow> u32" where
  "parsed_dst_idx tb =
     (case tb_CGW_DST_IF tb of None \<Rightarrow> 0 | Some a \<Rightarrow> if nla_len a = 4 then nla_data a else 0)"

text \<open>The three tests of the loop of \<^verbatim>\<open>cgw_remove_job\<close>, passed.\<close>

definition job_matches :: "rtcanmsg \<Rightarrow> cf_mod \<Rightarrow> can_can_gw \<Rightarrow> cgw_job \<Rightarrow> bool" where
  "job_matches r md c gwj = (flags gwj = rt_flags r \<and> gwj_mod gwj = md \<and> ccgw gwj = c)"

text \<open>The head of a request that passes the tests before the parser is called.\<close>

definition head_ok :: "gw_h \<Rightarrow> nlmsghdr \<Rightarrow> bool" where
  "head_ok h nlh =
     (\<not> nlmsg_len nlh < sizeof_rtcanmsg h \<and> can_family (nlmsg_data nlh) = AF_CAN h \<and>
      rt_gwtype (nlmsg_data nlh) = CGW_TYPE_CAN_CAN h)"

text \<open>
  The specification's \<^verbatim>\<open>remove_first\<close>, from its words: the jobs are scanned in
  insertion order and the first one that matches is removed. \<^verbatim>\<open>cgw_list\<close> has the
  job inserted last at its head, so insertion order is the list reversed.
\<close>

fun remove_first_match :: "('a \<Rightarrow> bool) \<Rightarrow> 'a list \<Rightarrow> 'a list" where
  "remove_first_match P [] = []"
| "remove_first_match P (x # xs) = (if P x then xs else x # remove_first_match P xs)"

definition spec_remove_first ::
  "rtcanmsg \<Rightarrow> cf_mod \<Rightarrow> can_can_gw \<Rightarrow> (nat \<times> cgw_job) list \<Rightarrow> (nat \<times> cgw_job) list" where
  "spec_remove_first r md c jobs =
     rev (remove_first_match (\<lambda>pj. job_matches r md c (snd pj)) (rev jobs))"

text \<open>
  The specification's XOR checksum, from its words: a negative index is relative to
  the frame's dlc; the stage writes \<open>data[result_idx]\<close> with
  \<open>init_xor_val XOR data[from_idx] XOR ... XOR data[to_idx]\<close>, and does nothing when an
  index lies outside \<open>[0, dlc)\<close>.
\<close>

definition resolve_idx :: "can_frame \<Rightarrow> s8 \<Rightarrow> int" where
  "resolve_idx fr i = (if sint i < 0 then uint (can_dlc fr) + sint i else sint i)"

definition spec_csum_xor :: "can_frame \<Rightarrow> cgw_csum_xor \<Rightarrow> can_frame" where
  "spec_csum_xor fr x =
     (let f = resolve_idx fr (from_idx x); t = resolve_idx fr (to_idx x);
          r = resolve_idx fr (result_idx x); n = uint (can_dlc fr)
      in if 0 \<le> f \<and> f < n \<and> 0 \<le> t \<and> t < n \<and> 0 \<le> r \<and> r < n
         then fr\<lparr>data := (data fr)[nat r :=
                  foldl (XOR) (init_xor_val x) (map (\<lambda>j. data fr ! j) [nat f ..< Suc (nat t)])]\<rparr>
         else fr)"

text \<open>The three indices of a checksum configuration, all in the domain.\<close>

definition xor_indices_in_domain :: "cgw_csum_xor \<Rightarrow> bool" where
  "xor_indices_in_domain x =
     (idx_in_domain (from_idx x) \<and> idx_in_domain (to_idx x) \<and> idx_in_domain (result_idx x))"

definition crc8_indices_in_domain :: "cgw_csum_crc8 \<Rightarrow> bool" where
  "crc8_indices_in_domain x =
     (idx_in_domain (crc8_from_idx x) \<and> idx_in_domain (crc8_to_idx x)
      \<and> idx_in_domain (crc8_result_idx x))"

text \<open>
  The checksum configuration a request carries: the payload of its \<^verbatim>\<open>CGW_CS_XOR\<close>
  (\<^verbatim>\<open>CGW_CS_CRC8\<close>) attribute when the attribute is present with the length of the
  struct. The parser skips an attribute of another length without reading its payload.
\<close>

definition cs_xor_attr :: "gw_h \<Rightarrow> nlattr_tb \<Rightarrow> cgw_csum_xor option" where
  "cs_xor_attr h tb =
     (case tb_CGW_CS_XOR tb of
        None \<Rightarrow> None
      | Some a \<Rightarrow> if nla_len a = CGW_CS_XOR_LEN h then Some (nla_data a) else None)"

definition cs_crc8_attr :: "gw_h \<Rightarrow> nlattr_tb \<Rightarrow> cgw_csum_crc8 option" where
  "cs_crc8_attr h tb =
     (case tb_CGW_CS_CRC8 tb of
        None \<Rightarrow> None
      | Some a \<Rightarrow> if nla_len a = CGW_CS_CRC8_LEN h then Some (nla_data a) else None)"

text \<open>The checksum block of the parser returns without an error.\<close>

definition csum_passes :: "gw_h \<Rightarrow> nlattr_tb \<Rightarrow> bool" where
  "csum_passes h tb =
     (case parse_mods h tb of None \<Rightarrow> False | Some st \<Rightarrow> fst (parse_csum h tb st) = Inr ())"

text \<open>
  What a part of the parser may do to \<^verbatim>\<open>mod\<close> and \<^verbatim>\<open>modidx\<close>: append at most
  \<open>n\<close> functions, keep the array filled from the front, leave the checksums alone.
\<close>

definition appends_at_most :: "nat \<Rightarrow> cf_mod \<times> nat \<Rightarrow> (cf_mod \<times> nat) option \<Rightarrow> bool" where
  "appends_at_most n st res =
     (\<exists>md' k'. res = Some (md', k') \<and> snd st \<le> k' \<and> k' \<le> snd st + n \<and> modfunc_filled md' k'
        \<and> csum_xor md' = csum_xor (fst st) \<and> csum_crc8 md' = csum_crc8 (fst st))"

text \<open>
  What the four \<^verbatim>\<open>CGW_MOD_*\<close> blocks of the parser build, read off the attributes: an
  attribute selects a part of the frame (ID, DLC or DATA) when it is present with the
  length of the struct and the bit of the part is set in its \<^verbatim>\<open>modtype\<close>.
\<close>

definition selects :: "gw_h \<Rightarrow> cgw_frame_mod nlattr option \<Rightarrow> u8 \<Rightarrow> bool" where
  "selects h attr msk =
     (case attr of
        None \<Rightarrow> False
      | Some a \<Rightarrow> nla_len a = CGW_MODATTR_LEN h \<and> mb_modtype (nla_data a) AND msk \<noteq> 0)"

text \<open>
  The functions selected by a request, in the order of the blocks: AND, OR, XOR, SET, and
  ID, DLC, DATA within each.
\<close>

definition selected_funcs :: "gw_h \<Rightarrow> nlattr_tb \<Rightarrow> modfunc_ptr list" where
  "selected_funcs h tb =
     (if selects h (tb_CGW_MOD_AND tb) (CGW_MOD_ID h) then [P_mod_and_id] else []) @
     (if selects h (tb_CGW_MOD_AND tb) (CGW_MOD_DLC h) then [P_mod_and_dlc] else []) @
     (if selects h (tb_CGW_MOD_AND tb) (CGW_MOD_DATA h) then [P_mod_and_data] else []) @
     (if selects h (tb_CGW_MOD_OR tb) (CGW_MOD_ID h) then [P_mod_or_id] else []) @
     (if selects h (tb_CGW_MOD_OR tb) (CGW_MOD_DLC h) then [P_mod_or_dlc] else []) @
     (if selects h (tb_CGW_MOD_OR tb) (CGW_MOD_DATA h) then [P_mod_or_data] else []) @
     (if selects h (tb_CGW_MOD_XOR tb) (CGW_MOD_ID h) then [P_mod_xor_id] else []) @
     (if selects h (tb_CGW_MOD_XOR tb) (CGW_MOD_DLC h) then [P_mod_xor_dlc] else []) @
     (if selects h (tb_CGW_MOD_XOR tb) (CGW_MOD_DATA h) then [P_mod_xor_data] else []) @
     (if selects h (tb_CGW_MOD_SET tb) (CGW_MOD_ID h) then [P_mod_set_id] else []) @
     (if selects h (tb_CGW_MOD_SET tb) (CGW_MOD_DLC h) then [P_mod_set_dlc] else []) @
     (if selects h (tb_CGW_MOD_SET tb) (CGW_MOD_DATA h) then [P_mod_set_data] else [])"

text \<open>The request without its \<^verbatim>\<open>CGW_MOD_*\<close> attributes of empty selector.\<close>

definition drop_if_empty :: "gw_h \<Rightarrow> cgw_frame_mod nlattr option \<Rightarrow> cgw_frame_mod nlattr option" where
  "drop_if_empty h attr =
     (case attr of None \<Rightarrow> None | Some a \<Rightarrow> if empty_selector h a then None else Some a)"

definition drop_empty :: "gw_h \<Rightarrow> nlattr_tb \<Rightarrow> nlattr_tb" where
  "drop_empty h tb =
     tb\<lparr>tb_CGW_MOD_AND := drop_if_empty h (tb_CGW_MOD_AND tb),
        tb_CGW_MOD_OR := drop_if_empty h (tb_CGW_MOD_OR tb),
        tb_CGW_MOD_XOR := drop_if_empty h (tb_CGW_MOD_XOR tb),
        tb_CGW_MOD_SET := drop_if_empty h (tb_CGW_MOD_SET tb)\<rparr>"

text \<open>
  A result of the parser's blocks that holds exactly the functions \<open>fs\<close>: they fill
  \<^verbatim>\<open>modfunc\<close> from the front, null pointers follow, and \<^verbatim>\<open>modidx\<close> is their number.
\<close>

definition builds :: "modfunc_ptr list \<Rightarrow> (cf_mod \<times> nat) option \<Rightarrow> bool" where
  "builds fs res =
     (\<exists>md. res = Some (md, length fs) \<and>
        modfunc md = map Some fs @ replicate (MAX_MODFUNCTIONS - length fs) None)"

subsection \<open>Example values\<close>

text \<open>
  The values the headers of Linux give the constants, and a few requests, jobs and
  buffers; among them jobs after the scenarios S1 and S3 of the specification.
\<close>

definition ex_h :: gw_h where
  "ex_h = \<lparr>CGW_MOD_ID = 1, CGW_MOD_DLC = 2, CGW_MOD_DATA = 4, CGW_MODATTR_LEN = 17,
          CGW_CS_XOR_LEN = 4, CGW_CS_CRC8_LEN = 282, CGW_FLAGS_CAN_ECHO = 1,
          CGW_FLAGS_CAN_SRC_TSTAMP = 2, CGW_TYPE_CAN_CAN = 1, AF_CAN = 29,
          ARPHRD_CAN = 280, IFF_UP = 1, sizeof_rtcanmsg = 4\<rparr>"

definition ex_frame :: can_frame where
  "ex_frame = \<lparr>can_id = 0x123, can_dlc = 5, data = [1, 2, 3, 4, 5, 6, 7, 8]\<rparr>"

definition ex_skb :: sk_buff where
  "ex_skb = \<lparr>sk = Null_sock, dev = 1, tstamp = 7, skb_data = 0\<rparr>"

definition ex_env :: rcv_env where
  "ex_env = \<lparr>netdev_flags = (\<lambda>d. 1), gfp_atomic_ok = True, can_send_ret = 0\<rparr>"

definition ex_env_down :: rcv_env where
  "ex_env_down = \<lparr>netdev_flags = (\<lambda>d. 0), gfp_atomic_ok = True, can_send_ret = 0\<rparr>"

definition ex_ccgw :: can_can_gw where
  "ex_ccgw = \<lparr>ccgw_filter = \<lparr>filter_can_id = 0, filter_can_mask = 0\<rparr>, src_idx = 1, dst_idx = 1\<rparr>"

text \<open>A job without modifications, from device 1 to device 1.\<close>

definition ex_job :: cgw_job where
  "ex_job = \<lparr>handled_frames = 0, dropped_frames = 0, gwj_mod = cf_mod_init,
            src_dev = 1, dst_dev = 1, ccgw = ex_ccgw, gwtype = 1, flags = 0\<rparr>"

definition ex_tb :: nlattr_tb where
  "ex_tb = \<lparr>tb_CGW_MOD_AND = None, tb_CGW_MOD_OR = None, tb_CGW_MOD_XOR = None,
           tb_CGW_MOD_SET = None, tb_CGW_CS_XOR = None, tb_CGW_CS_CRC8 = None,
           tb_CGW_FILTER = None,
           tb_CGW_SRC_IF = Some \<lparr>nla_len = 4, nla_data = 1\<rparr>,
           tb_CGW_DST_IF = Some \<lparr>nla_len = 4, nla_data = 2\<rparr>\<rparr>"

definition ex_req :: "nlattr_tb \<Rightarrow> nlmsghdr" where
  "ex_req tb = \<lparr>nlmsg_len = 4,
               nlmsg_data = \<lparr>can_family = 29, rt_gwtype = 1, rt_flags = 0\<rparr>,
               nlmsg_parse = Inr tb\<rparr>"

text \<open>Two devices of type CAN with the indices 1 and 2; the allocator returns \<open>p\<close>.\<close>

definition ex_menv :: "nat \<Rightarrow> mgmt_env" where
  "ex_menv p = \<lparr>kmem_cache_alloc = Some (p, ex_job),
               dev_get_by_index = (\<lambda>i. if i = 1 then Some 1 else if i = 2 then Some 2 else None),
               netdev_type = (\<lambda>d. 280),
               can_rx_register_ret = Inr (),
               uninit_ccgw = ex_ccgw\<rparr>"

definition ex_state0 :: gw_state where
  "ex_state0 = \<lparr>cgw_list = [], can_rx = []\<rparr>"

text \<open>
  A job after scenario S3 of the specification: SET of the data with the operand
  \<open>01 02 04 08 00 00 00 00\<close> and an XOR checksum over the bytes 0 to 3 into byte 4.
\<close>

definition ex_cs_set :: cgw_frame_mod where
  "ex_cs_set = \<lparr>mb_cf = \<lparr>can_id = 0, can_dlc = 5, data = [1, 2, 4, 8, 0, 0, 0, 0]\<rparr>,
                mb_modtype = 4\<rparr>"

definition ex_cs_xor :: cgw_csum_xor where
  "ex_cs_xor = \<lparr>from_idx = 0, to_idx = 3, result_idx = 4, init_xor_val = 0\<rparr>"

definition ex_cs_tb :: nlattr_tb where
  "ex_cs_tb = ex_tb\<lparr>tb_CGW_MOD_SET := Some \<lparr>nla_len = 17, nla_data = ex_cs_set\<rparr>,
                    tb_CGW_CS_XOR := Some \<lparr>nla_len = 4, nla_data = ex_cs_xor\<rparr>\<rparr>"

text \<open>The job that these requests install, and the states after one and two of them.\<close>

definition ex_job12 :: cgw_job where
  "ex_job12 = ex_job\<lparr>dst_dev := 2, ccgw := ex_ccgw\<lparr>dst_idx := 2\<rparr>\<rparr>"

definition ex_state1 :: gw_state where
  "ex_state1 = \<lparr>cgw_list = [(10, ex_job12)], can_rx = [rx_entry_of 10 ex_job12]\<rparr>"

definition ex_state2 :: gw_state where
  "ex_state2 = \<lparr>cgw_list = [(20, ex_job12), (10, ex_job12)],
                can_rx = [rx_entry_of 20 ex_job12, rx_entry_of 10 ex_job12]\<rparr>"

text \<open>
  Tables without a source interface, with both indices zero, and with a
  \<^verbatim>\<open>CGW_MOD_AND\<close> attribute that selects nothing.
\<close>

definition ex_tb_no_src :: nlattr_tb where
  "ex_tb_no_src = ex_tb\<lparr>tb_CGW_SRC_IF := None\<rparr>"

definition ex_tb_flush :: nlattr_tb where
  "ex_tb_flush = ex_tb\<lparr>tb_CGW_SRC_IF := Some \<lparr>nla_len = 4, nla_data = 0\<rparr>,
                      tb_CGW_DST_IF := Some \<lparr>nla_len = 4, nla_data = 0\<rparr>\<rparr>"

definition ex_tb_empty_and :: nlattr_tb where
  "ex_tb_empty_and =
     ex_tb\<lparr>tb_CGW_MOD_AND := Some \<lparr>nla_len = 17, nla_data = \<lparr>mb_cf = ex_frame, mb_modtype = 0\<rparr>\<rparr>\<rparr>"

text \<open>The job that the request with the table \<open>ex_cs_tb\<close> installs.\<close>

definition ex_cs_job :: cgw_job where
  "ex_cs_job =
     ex_job12\<lparr>gwj_mod := cf_mod_init\<lparr>modframe_set := mb_cf ex_cs_set, modtype_set := 4,
                                     modfunc := (replicate MAX_MODFUNCTIONS None)[0 := Some P_mod_set_data],
                                     csum_xor := ex_cs_xor\<rparr>\<rparr>"

text \<open>
  A table with a checksum attribute and no modification, and the table \<open>ex_cs_tb\<close>
  with the index \<open>to_idx\<close> outside the domain.
\<close>

definition ex_tb_cs_only :: nlattr_tb where
  "ex_tb_cs_only = ex_tb\<lparr>tb_CGW_CS_XOR := Some \<lparr>nla_len = 4, nla_data = ex_cs_xor\<rparr>\<rparr>"

definition ex_tb_bad_cs :: nlattr_tb where
  "ex_tb_bad_cs =
     ex_cs_tb\<lparr>tb_CGW_CS_XOR := Some \<lparr>nla_len = 4, nla_data = ex_cs_xor\<lparr>to_idx := 8\<rparr>\<rparr>\<rparr>"

text \<open>
  The request of the checksum example with a \<^verbatim>\<open>CGW_CS_XOR\<close> attribute that is one byte
  too long and has \<^verbatim>\<open>to_idx\<close> 8, and the job that an ADD of it installs: the function
  of \<^verbatim>\<open>CGW_MOD_SET\<close> on DATA, both checksum stages disabled.
\<close>

definition ex_tb_long_cs :: nlattr_tb where
  "ex_tb_long_cs =
     ex_cs_tb\<lparr>tb_CGW_CS_XOR := Some \<lparr>nla_len = 5, nla_data = ex_cs_xor\<lparr>to_idx := 8\<rparr>\<rparr>\<rparr>"

definition ex_set_job :: cgw_job where
  "ex_set_job =
     ex_job12\<lparr>gwj_mod := cf_mod_init\<lparr>modframe_set := mb_cf ex_cs_set, modtype_set := 4,
                                     modfunc := (replicate MAX_MODFUNCTIONS None)[0 := Some P_mod_set_data]\<rparr>\<rparr>"

section \<open>Lemmas about the receive callback\<close>

lemma modfunc_loop_shape:
  "\<exists>fs. snd (modfunc_loop md cf m i tr) = (i + length fs, tr @ map Modfunc_called fs)
        \<and> i + length fs \<le> max i MAX_MODFUNCTIONS"
proof (induction md cf m i tr rule: modfunc_loop.induct)
  case (1 md cf m modidx tr)
  show ?case
  proof (cases "modidx < MAX_MODFUNCTIONS")
    case False
    then have stop: "modfunc_loop md cf m modidx tr = (m, modidx, tr)"
      by (subst modfunc_loop.simps) simp
    show ?thesis unfolding stop by (intro exI [of _ "[]"]) simp
  next
    case True
    show ?thesis
    proof (cases "modfunc md ! modidx")
      case None
      with True have stop: "modfunc_loop md cf m modidx tr = (m, modidx, tr)"
        by (subst modfunc_loop.simps) simp
      show ?thesis unfolding stop by (intro exI [of _ "[]"]) simp
    next
      case (Some f)
      from "1.IH" [OF True Some] obtain fs where
        fs: "snd (modfunc_loop md cf (m[cf := call_modfunc f (m ! cf) md]) (Suc modidx)
               (tr @ [Modfunc_called f]))
             = (Suc modidx + length fs, (tr @ [Modfunc_called f]) @ map Modfunc_called fs)"
        and le: "Suc modidx + length fs \<le> max (Suc modidx) MAX_MODFUNCTIONS"
        by blast
      have eq: "modfunc_loop md cf m modidx tr =
                modfunc_loop md cf (m[cf := call_modfunc f (m ! cf) md]) (Suc modidx)
                  (tr @ [Modfunc_called f])"
        using True Some by (subst modfunc_loop.simps) simp
      show ?thesis
        unfolding eq using fs le True
        by (intro exI [of _ "f # fs"]) simp
    qed
  qed
qed

lemma modfunc_loop_mem:
  "length (fst (modfunc_loop md cf m i tr)) = length m \<and>
   (\<forall>p. p \<noteq> cf \<longrightarrow> fst (modfunc_loop md cf m i tr) ! p = m ! p)"
proof (induction md cf m i tr rule: modfunc_loop.induct)
  case (1 md cf m modidx tr)
  show ?case
  proof (cases "modidx < MAX_MODFUNCTIONS")
    case False
    then have stop: "modfunc_loop md cf m modidx tr = (m, modidx, tr)"
      by (subst modfunc_loop.simps) simp
    show ?thesis unfolding stop by simp
  next
    case True
    show ?thesis
    proof (cases "modfunc md ! modidx")
      case None
      with True have stop: "modfunc_loop md cf m modidx tr = (m, modidx, tr)"
        by (subst modfunc_loop.simps) simp
      show ?thesis unfolding stop by simp
    next
      case (Some f)
      have eq: "modfunc_loop md cf m modidx tr =
                modfunc_loop md cf (m[cf := call_modfunc f (m ! cf) md]) (Suc modidx)
                  (tr @ [Modfunc_called f])"
        using True Some by (subst modfunc_loop.simps) simp
      show ?thesis
        unfolding eq using "1.IH" [OF True Some] by simp
    qed
  qed
qed

lemma modfunc_loop_null:
  "modfunc md ! 0 = None \<Longrightarrow> modfunc_loop md cf m 0 tr = (m, 0, tr)"
  by (subst modfunc_loop.simps) (simp add: MAX_MODFUNCTIONS_def)

lemma modfunc_loop_first:
  "modfunc md ! 0 = Some f \<Longrightarrow>
   \<exists>fs. snd (modfunc_loop md cf m 0 tr) = (Suc (length fs), tr @ map Modfunc_called (f # fs))
     \<and> Suc (length fs) \<le> MAX_MODFUNCTIONS"
proof -
  assume a: "modfunc md ! 0 = Some f"
  have eq: "modfunc_loop md cf m 0 tr =
            modfunc_loop md cf (m[cf := call_modfunc f (m ! cf) md]) (Suc 0) (tr @ [Modfunc_called f])"
    using a by (subst modfunc_loop.simps) (simp add: MAX_MODFUNCTIONS_def)
  obtain fs where "snd (modfunc_loop md cf (m[cf := call_modfunc f (m ! cf) md]) (Suc 0) (tr @ [Modfunc_called f]))
      = (Suc 0 + length fs, (tr @ [Modfunc_called f]) @ map Modfunc_called fs)"
     and "Suc 0 + length fs \<le> max (Suc 0) MAX_MODFUNCTIONS"
    using modfunc_loop_shape by blast
  then show ?thesis unfolding eq by (intro exI [of _ fs]) (simp add: MAX_MODFUNCTIONS_def)
qed

lemma csum_updates_eq:
  "csum_updates md cf (m, k, tr) = (m, tr @ (if k \<noteq> 0 then csum_trace md else []))"
  by (simp add: csum_updates_def csum_trace_def cgw_csum_do_xor_def cgw_csum_do_crc8_def)

lemma rcv_forward_clone:
  assumes "sk skb \<noteq> CGW_SK_MAGIC" and "netdev_flags e (dst_dev gwj) AND IFF_UP h \<noteq> 0"
    and "gfp_atomic_ok e" and "modfunc (gwj_mod gwj) ! 0 = None"
  shows "can_can_gw_rcv h e m skb gwj =
     (if can_send_ret e \<noteq> 0 then gwj\<lparr>dropped_frames := dropped_frames gwj + 1\<rparr>
      else gwj\<lparr>handled_frames := handled_frames gwj + 1\<rparr>,
      m,
      [Can_send (forwarded_skb h m skb gwj) (flags gwj AND CGW_FLAGS_CAN_ECHO h)])"
  using assms
  by (simp add: can_can_gw_rcv_def skb_clone_def modfunc_loop_null csum_updates_eq
      forwarded_skb_def Let_def)

lemma rcv_forward_copy:
  assumes "sk skb \<noteq> CGW_SK_MAGIC" and "netdev_flags e (dst_dev gwj) AND IFF_UP h \<noteq> 0"
    and "gfp_atomic_ok e" and "modfunc (gwj_mod gwj) ! 0 = Some f"
  shows "\<exists>fs m1. can_can_gw_rcv h e m skb gwj =
     (if can_send_ret e \<noteq> 0 then gwj\<lparr>dropped_frames := dropped_frames gwj + 1\<rparr>
      else gwj\<lparr>handled_frames := handled_frames gwj + 1\<rparr>,
      m1,
      map Modfunc_called (f # fs) @ csum_trace (gwj_mod gwj) @
      [Can_send (forwarded_skb h m skb gwj) (flags gwj AND CGW_FLAGS_CAN_ECHO h)])
     \<and> Suc (length fs) \<le> MAX_MODFUNCTIONS
     \<and> length m1 = Suc (length m) \<and> take (length m) m1 = m"
proof -
  let ?m0 = "m @ [m ! skb_data skb]"
  obtain m1 k tr where L: "modfunc_loop (gwj_mod gwj) (length m) ?m0 0 [] = (m1, k, tr)"
    by (cases "modfunc_loop (gwj_mod gwj) (length m) ?m0 0 []") auto
  from modfunc_loop_first [OF assms(4), of "length m" ?m0 "[]"] L
  obtain fs where k: "k = Suc (length fs)" and tr: "tr = map Modfunc_called (f # fs)"
    and le: "Suc (length fs) \<le> MAX_MODFUNCTIONS"
    by auto
  from modfunc_loop_mem [of "gwj_mod gwj" "length m" ?m0 0 "[]"] L
  have len: "length m1 = Suc (length m)" and oth: "\<forall>p. p \<noteq> length m \<longrightarrow> m1 ! p = ?m0 ! p"
    by auto
  have tk: "take (length m) m1 = m"
    using len oth by (intro nth_equalityI) (auto simp: nth_append)
  have "can_can_gw_rcv h e m skb gwj =
     (if can_send_ret e \<noteq> 0 then gwj\<lparr>dropped_frames := dropped_frames gwj + 1\<rparr>
      else gwj\<lparr>handled_frames := handled_frames gwj + 1\<rparr>,
      m1,
      map Modfunc_called (f # fs) @ csum_trace (gwj_mod gwj) @
      [Can_send (forwarded_skb h m skb gwj) (flags gwj AND CGW_FLAGS_CAN_ECHO h)])"
    using assms L k tr
    by (simp add: can_can_gw_rcv_def skb_copy_def csum_updates_eq forwarded_skb_def Let_def)
  with le len tk show ?thesis by blast
qed

lemma rcv_dropped_early:
  assumes "sk skb \<noteq> CGW_SK_MAGIC"
    and "netdev_flags e (dst_dev gwj) AND IFF_UP h = 0 \<or> \<not> gfp_atomic_ok e"
  shows "can_can_gw_rcv h e m skb gwj = (gwj\<lparr>dropped_frames := dropped_frames gwj + 1\<rparr>, m, [])"
  using assms
  by (auto simp: can_can_gw_rcv_def skb_copy_def skb_clone_def)

lemma rcv_marked: "sk skb = CGW_SK_MAGIC \<Longrightarrow> can_can_gw_rcv h e m skb gwj = (gwj, m, [])"
  by (simp add: can_can_gw_rcv_def)

lemma sent_skbs_append: "sent_skbs (xs @ ys) = sent_skbs xs @ sent_skbs ys"
  by (induction xs rule: sent_skbs.induct) simp_all

lemma sent_skbs_modfuncs: "sent_skbs (map Modfunc_called fs) = []"
  by (induction fs) simp_all

lemma sent_skbs_csum_trace: "sent_skbs (csum_trace md) = []"
  by (simp add: csum_trace_def)

lemma filter_csum_modfuncs: "filter is_csum (map Modfunc_called fs) = []"
  by (induction fs) simp_all

lemma filter_csum_csum_trace: "filter is_csum (csum_trace md) = csum_trace md"
  by (simp add: csum_trace_def)

lemma sk_forwarded_skb: "sk (forwarded_skb h m skb gwj) = CGW_SK_MAGIC"
  by (simp add: forwarded_skb_def)

text \<open>The result of the callback in each of its cases.\<close>

lemma rcv_cases:
  "can_can_gw_rcv h e m skb gwj = (gwj, m, []) \<and> sk skb = CGW_SK_MAGIC
   \<or> can_can_gw_rcv h e m skb gwj = (gwj\<lparr>dropped_frames := dropped_frames gwj + 1\<rparr>, m, [])
      \<and> sk skb \<noteq> CGW_SK_MAGIC
      \<and> (netdev_flags e (dst_dev gwj) AND IFF_UP h = 0 \<or> \<not> gfp_atomic_ok e)
   \<or> (\<exists>fs m1. can_can_gw_rcv h e m skb gwj =
         (if can_send_ret e \<noteq> 0 then gwj\<lparr>dropped_frames := dropped_frames gwj + 1\<rparr>
          else gwj\<lparr>handled_frames := handled_frames gwj + 1\<rparr>,
          m1,
          map Modfunc_called fs @ (if fs = [] then [] else csum_trace (gwj_mod gwj)) @
          [Can_send (forwarded_skb h m skb gwj) (flags gwj AND CGW_FLAGS_CAN_ECHO h)])
       \<and> sk skb \<noteq> CGW_SK_MAGIC \<and> netdev_flags e (dst_dev gwj) AND IFF_UP h \<noteq> 0
       \<and> gfp_atomic_ok e
       \<and> (fs = []) = (modfunc (gwj_mod gwj) ! 0 = None)
       \<and> length fs \<le> MAX_MODFUNCTIONS)"
proof (cases "sk skb = CGW_SK_MAGIC")
  case True
  then show ?thesis by (simp add: rcv_marked)
next
  case unmarked: False
  show ?thesis
  proof (cases "netdev_flags e (dst_dev gwj) AND IFF_UP h = 0 \<or> \<not> gfp_atomic_ok e")
    case True
    with unmarked rcv_dropped_early [of skb e gwj h m] show ?thesis by blast
  next
    case False
    then have up: "netdev_flags e (dst_dev gwj) AND IFF_UP h \<noteq> 0" and ok: "gfp_atomic_ok e"
      by auto
    show ?thesis
    proof (cases "modfunc (gwj_mod gwj) ! 0")
      case None
      from rcv_forward_clone [OF unmarked up ok None, of m] unmarked up ok None
      show ?thesis
        by (intro disjI2 exI [of _ "[]"] exI [of _ m]) simp
    next
      case (Some f)
      from rcv_forward_copy [OF unmarked up ok Some, of m] obtain fs m1 where
        "can_can_gw_rcv h e m skb gwj =
           (if can_send_ret e \<noteq> 0 then gwj\<lparr>dropped_frames := dropped_frames gwj + 1\<rparr>
            else gwj\<lparr>handled_frames := handled_frames gwj + 1\<rparr>,
            m1,
            map Modfunc_called (f # fs) @ csum_trace (gwj_mod gwj) @
            [Can_send (forwarded_skb h m skb gwj) (flags gwj AND CGW_FLAGS_CAN_ECHO h)])"
        and "Suc (length fs) \<le> MAX_MODFUNCTIONS"
        by blast
      with unmarked up ok Some show ?thesis
        by (intro disjI2 exI [of _ "f # fs"] exI [of _ m1]) simp
    qed
  qed
qed

lemma rcv_casesE:
  obtains
    (marked) "sk skb = CGW_SK_MAGIC" and "can_can_gw_rcv h e m skb gwj = (gwj, m, [])"
  | (dropped) "sk skb \<noteq> CGW_SK_MAGIC"
      and "netdev_flags e (dst_dev gwj) AND IFF_UP h = 0 \<or> \<not> gfp_atomic_ok e"
      and "can_can_gw_rcv h e m skb gwj = (gwj\<lparr>dropped_frames := dropped_frames gwj + 1\<rparr>, m, [])"
  | (forwarded) fs m1 where "sk skb \<noteq> CGW_SK_MAGIC"
      and "netdev_flags e (dst_dev gwj) AND IFF_UP h \<noteq> 0" and "gfp_atomic_ok e"
      and "can_can_gw_rcv h e m skb gwj =
         (if can_send_ret e \<noteq> 0 then gwj\<lparr>dropped_frames := dropped_frames gwj + 1\<rparr>
          else gwj\<lparr>handled_frames := handled_frames gwj + 1\<rparr>,
          m1,
          map Modfunc_called fs @ (if fs = [] then [] else csum_trace (gwj_mod gwj)) @
          [Can_send (forwarded_skb h m skb gwj) (flags gwj AND CGW_FLAGS_CAN_ECHO h)])"
      and "(fs = []) = (modfunc (gwj_mod gwj) ! 0 = None)"
      and "length fs \<le> MAX_MODFUNCTIONS"
  using rcv_cases [of h e m skb gwj] by (elim disjE exE conjE) blast+

lemma sent_skbs_rcv:
  "sent_skbs (snd (snd (can_can_gw_rcv h e m skb gwj))) =
     (if sk skb \<noteq> CGW_SK_MAGIC \<and> netdev_flags e (dst_dev gwj) AND IFF_UP h \<noteq> 0 \<and> gfp_atomic_ok e
      then [forwarded_skb h m skb gwj] else [])"
  using rcv_cases [of h e m skb gwj]
  by (auto simp: sent_skbs_append sent_skbs_modfuncs sent_skbs_csum_trace)

lemma gw_chain_marked:
  "sk skb = CGW_SK_MAGIC \<Longrightarrow> gw_chain (Suc n) h es i m skb gwj = Some (gwj, m, [])"
  by (simp add: rcv_marked)

section \<open>Lemmas about the parser\<close>

lemma modfunc_filled_init: "modfunc_filled cf_mod_init 0"
  by (simp add: modfunc_filled_def cf_mod_init_def)

lemma modfunc_filled_frames [simp]:
  "modfunc_filled (md\<lparr>modframe_and := fr, modtype_and := mt\<rparr>) k = modfunc_filled md k"
  "modfunc_filled (md\<lparr>modframe_or := fr, modtype_or := mt\<rparr>) k = modfunc_filled md k"
  "modfunc_filled (md\<lparr>modframe_xor := fr, modtype_xor := mt\<rparr>) k = modfunc_filled md k"
  "modfunc_filled (md\<lparr>modframe_set := fr, modtype_set := mt\<rparr>) k = modfunc_filled md k"
  by (simp_all add: modfunc_filled_def)

lemma set_modfunc_ok:
  assumes "modfunc_filled md k" and "k < MAX_MODFUNCTIONS"
  shows "\<exists>md'. set_modfunc f (md, k) = Some (md', Suc k) \<and> modfunc_filled md' (Suc k)
           \<and> csum_xor md' = csum_xor md \<and> csum_crc8 md' = csum_crc8 md"
  using assms
  by (auto simp: set_modfunc_def modfunc_filled_def nth_list_update less_Suc_eq)

lemma modtype_bit_ok:
  assumes "modfunc_filled md k" and "k < MAX_MODFUNCTIONS"
  shows "appends_at_most 1 (md, k) (modtype_bit mt msk f (md, k))"
proof (cases "mt AND msk \<noteq> 0")
  case True
  with set_modfunc_ok [OF assms, of f] show ?thesis
    by (auto simp: appends_at_most_def modtype_bit_def)
next
  case False
  with assms show ?thesis by (simp add: appends_at_most_def modtype_bit_def)
qed

lemma three_bits_ok:
  assumes "modfunc_filled md k" and "k + 3 \<le> MAX_MODFUNCTIONS"
  shows "appends_at_most 3 (md, k)
           (Some (md, k) \<bind> modtype_bit mt b1 f1 \<bind> modtype_bit mt b2 f2 \<bind> modtype_bit mt b3 f3)"
proof -
  from assms have "k < MAX_MODFUNCTIONS" by simp
  from modtype_bit_ok [OF assms(1) this, of mt b1 f1] obtain md1 k1 where
    s1: "modtype_bit mt b1 f1 (md, k) = Some (md1, k1)" and k1: "k \<le> k1" "k1 \<le> k + 1"
    and f1: "modfunc_filled md1 k1" and c1: "csum_xor md1 = csum_xor md" "csum_crc8 md1 = csum_crc8 md"
    by (auto simp: appends_at_most_def)
  from k1 assms(2) have "k1 < MAX_MODFUNCTIONS" by simp
  from modtype_bit_ok [OF f1 this, of mt b2 f2] obtain md2 k2 where
    s2: "modtype_bit mt b2 f2 (md1, k1) = Some (md2, k2)" and k2: "k1 \<le> k2" "k2 \<le> k1 + 1"
    and f2: "modfunc_filled md2 k2" and c2: "csum_xor md2 = csum_xor md1" "csum_crc8 md2 = csum_crc8 md1"
    by (auto simp: appends_at_most_def)
  from k1 k2 assms(2) have "k2 < MAX_MODFUNCTIONS" by simp
  from modtype_bit_ok [OF f2 this, of mt b3 f3] obtain md3 k3 where
    s3: "modtype_bit mt b3 f3 (md2, k2) = Some (md3, k3)" and k3: "k2 \<le> k3" "k3 \<le> k2 + 1"
    and f3: "modfunc_filled md3 k3" and c3: "csum_xor md3 = csum_xor md2" "csum_crc8 md3 = csum_crc8 md2"
    by (auto simp: appends_at_most_def)
  show ?thesis
    using s1 s2 s3 k1 k2 k3 f3 c1 c2 c3 by (simp add: appends_at_most_def)
qed

lemma appends_at_most_frames:
  "appends_at_most n (md\<lparr>modframe_and := fr, modtype_and := mt\<rparr>, k) res = appends_at_most n (md, k) res"
  "appends_at_most n (md\<lparr>modframe_or := fr, modtype_or := mt\<rparr>, k) res = appends_at_most n (md, k) res"
  "appends_at_most n (md\<lparr>modframe_xor := fr, modtype_xor := mt\<rparr>, k) res = appends_at_most n (md, k) res"
  "appends_at_most n (md\<lparr>modframe_set := fr, modtype_set := mt\<rparr>, k) res = appends_at_most n (md, k) res"
  by (simp_all add: appends_at_most_def)

lemma appends_nothing:
  "modfunc_filled md k \<Longrightarrow> appends_at_most n (md, k) (Some (md, k))"
  by (simp add: appends_at_most_def)

lemma parse_mod_and_ok:
  assumes "modfunc_filled md k" and "k + 3 \<le> MAX_MODFUNCTIONS"
  shows "appends_at_most 3 (md, k) (parse_mod_and h tb (md, k))"
proof (cases "tb_CGW_MOD_AND tb")
  case None
  with assms show ?thesis by (simp add: parse_mod_and_def appends_nothing)
next
  case (Some a)
  show ?thesis
  proof (cases "nla_len a = CGW_MODATTR_LEN h")
    case False
    with Some assms show ?thesis by (simp add: parse_mod_and_def appends_nothing)
  next
    case True
    let ?md1 = "md\<lparr>modframe_and := canframecpy (modframe_and md) (mb_cf (nla_data a)),
                   modtype_and := mb_modtype (nla_data a)\<rparr>"
    have "modfunc_filled ?md1 k" using assms(1) by simp
    from three_bits_ok [OF this assms(2)] Some True show ?thesis
      by (simp add: parse_mod_and_def Let_def appends_at_most_frames)
  qed
qed

lemma parse_mod_or_ok:
  assumes "modfunc_filled md k" and "k + 3 \<le> MAX_MODFUNCTIONS"
  shows "appends_at_most 3 (md, k) (parse_mod_or h tb (md, k))"
proof (cases "tb_CGW_MOD_OR tb")
  case None
  with assms show ?thesis by (simp add: parse_mod_or_def appends_nothing)
next
  case (Some a)
  show ?thesis
  proof (cases "nla_len a = CGW_MODATTR_LEN h")
    case False
    with Some assms show ?thesis by (simp add: parse_mod_or_def appends_nothing)
  next
    case True
    let ?md1 = "md\<lparr>modframe_or := canframecpy (modframe_or md) (mb_cf (nla_data a)),
                   modtype_or := mb_modtype (nla_data a)\<rparr>"
    have "modfunc_filled ?md1 k" using assms(1) by simp
    from three_bits_ok [OF this assms(2)] Some True show ?thesis
      by (simp add: parse_mod_or_def Let_def appends_at_most_frames)
  qed
qed

lemma parse_mod_xor_ok:
  assumes "modfunc_filled md k" and "k + 3 \<le> MAX_MODFUNCTIONS"
  shows "appends_at_most 3 (md, k) (parse_mod_xor h tb (md, k))"
proof (cases "tb_CGW_MOD_XOR tb")
  case None
  with assms show ?thesis by (simp add: parse_mod_xor_def appends_nothing)
next
  case (Some a)
  show ?thesis
  proof (cases "nla_len a = CGW_MODATTR_LEN h")
    case False
    with Some assms show ?thesis by (simp add: parse_mod_xor_def appends_nothing)
  next
    case True
    let ?md1 = "md\<lparr>modframe_xor := canframecpy (modframe_xor md) (mb_cf (nla_data a)),
                   modtype_xor := mb_modtype (nla_data a)\<rparr>"
    have "modfunc_filled ?md1 k" using assms(1) by simp
    from three_bits_ok [OF this assms(2)] Some True show ?thesis
      by (simp add: parse_mod_xor_def Let_def appends_at_most_frames)
  qed
qed

lemma parse_mod_set_ok:
  assumes "modfunc_filled md k" and "k + 3 \<le> MAX_MODFUNCTIONS"
  shows "appends_at_most 3 (md, k) (parse_mod_set h tb (md, k))"
proof (cases "tb_CGW_MOD_SET tb")
  case None
  with assms show ?thesis by (simp add: parse_mod_set_def appends_nothing)
next
  case (Some a)
  show ?thesis
  proof (cases "nla_len a = CGW_MODATTR_LEN h")
    case False
    with Some assms show ?thesis by (simp add: parse_mod_set_def appends_nothing)
  next
    case True
    let ?md1 = "md\<lparr>modframe_set := canframecpy (modframe_set md) (mb_cf (nla_data a)),
                   modtype_set := mb_modtype (nla_data a)\<rparr>"
    have "modfunc_filled ?md1 k" using assms(1) by simp
    from three_bits_ok [OF this assms(2)] Some True show ?thesis
      by (simp add: parse_mod_set_def Let_def appends_at_most_frames)
  qed
qed

lemma appends_at_most_trans:
  assumes "appends_at_most n st (Some (md1, k1))" and "appends_at_most n' (md1, k1) res"
  shows "appends_at_most (n + n') st res"
  using assms by (auto simp: appends_at_most_def)

lemma parse_mods_ok:
  "appends_at_most 12 (cf_mod_init, 0) (parse_mods h tb)"
proof -
  have m: "(3::nat) \<le> MAX_MODFUNCTIONS" "(6::nat) \<le> MAX_MODFUNCTIONS"
    "(9::nat) \<le> MAX_MODFUNCTIONS" "(12::nat) \<le> MAX_MODFUNCTIONS"
    by (simp_all add: MAX_MODFUNCTIONS_def)
  have a0: "appends_at_most 3 (cf_mod_init, 0) (parse_mod_and h tb (cf_mod_init, 0))"
    by (rule parse_mod_and_ok [OF modfunc_filled_init]) (simp add: m)
  then obtain md1 k1 where s1: "parse_mod_and h tb (cf_mod_init, 0) = Some (md1, k1)"
    and k1: "k1 \<le> 3" and f1: "modfunc_filled md1 k1"
    by (auto simp: appends_at_most_def)
  have a1: "appends_at_most 3 (md1, k1) (parse_mod_or h tb (md1, k1))"
    by (rule parse_mod_or_ok [OF f1]) (use k1 m in simp)
  then obtain md2 k2 where s2: "parse_mod_or h tb (md1, k1) = Some (md2, k2)"
    and k2: "k2 \<le> k1 + 3" and f2: "modfunc_filled md2 k2"
    by (auto simp: appends_at_most_def)
  have a2: "appends_at_most 3 (md2, k2) (parse_mod_xor h tb (md2, k2))"
    by (rule parse_mod_xor_ok [OF f2]) (use k1 k2 m in simp)
  then obtain md3 k3 where s3: "parse_mod_xor h tb (md2, k2) = Some (md3, k3)"
    and k3: "k3 \<le> k2 + 3" and f3: "modfunc_filled md3 k3"
    by (auto simp: appends_at_most_def)
  have a3: "appends_at_most 3 (md3, k3) (parse_mod_set h tb (md3, k3))"
    by (rule parse_mod_set_ok [OF f3]) (use k1 k2 k3 m in simp)
  have "appends_at_most (3 + 3 + 3 + 3) (cf_mod_init, 0) (parse_mod_set h tb (md3, k3))"
    using a0 a1 a2 a3 unfolding s1 s2 s3
    by (intro appends_at_most_trans) assumption+
  then show ?thesis
    by (simp add: parse_mods_def s1 s2 s3)
qed

lemma modfunc_loop_bound:
  "\<exists>m' k tr. modfunc_loop md cf m 0 [] = (m', k, tr) \<and> k \<le> MAX_MODFUNCTIONS
      \<and> length tr = k \<and> filter is_modfunc tr = tr"
proof -
  obtain m' k tr where L: "modfunc_loop md cf m 0 [] = (m', k, tr)"
    by (cases "modfunc_loop md cf m 0 []") auto
  from modfunc_loop_shape [of md cf m 0 "[]"] L
  obtain fs where "k = length fs" and "tr = map Modfunc_called fs" and "length fs \<le> MAX_MODFUNCTIONS"
    by auto
  moreover have "filter is_modfunc (map Modfunc_called fs) = map Modfunc_called fs"
    by (induction fs) simp_all
  ultimately show ?thesis using L by simp
qed

lemma parse_mods_Some: "\<exists>md k. parse_mods h tb = Some (md, k)"
  using parse_mods_ok [of h tb] by (auto simp: appends_at_most_def)

lemma chk_csum_parms_iff:
  "(cgw_chk_csum_parms fr to re = Inr ()) =
     (idx_in_domain fr \<and> idx_in_domain to \<and> idx_in_domain re)"
  by (auto simp: cgw_chk_csum_parms_def idx_in_domain_def)

lemma chk_csum_parms_err:
  "cgw_chk_csum_parms fr to re = Inl err \<Longrightarrow> err = EINVAL"
  by (auto simp: cgw_chk_csum_parms_def split: if_splits)

lemma parse_cs_xor_cases:
  "parse_cs_xor h tb md =
     (case tb_CGW_CS_XOR tb of
        None \<Rightarrow> (Inr (), md)
      | Some a \<Rightarrow>
          if nla_len a = CGW_CS_XOR_LEN h
          then (if xor_indices_in_domain (nla_data a) then Inr () else Inl EINVAL,
                md\<lparr>csum_xor := nla_data a\<rparr>)
          else (Inr (), md))"
  by (auto simp: parse_cs_xor_def Let_def xor_indices_in_domain_def chk_csum_parms_iff [symmetric]
        cgw_chk_csum_parms_def
      split: option.splits)

lemma parse_cs_crc8_cases:
  "parse_cs_crc8 h tb md =
     (case tb_CGW_CS_CRC8 tb of
        None \<Rightarrow> (Inr (), md)
      | Some a \<Rightarrow>
          if nla_len a = CGW_CS_CRC8_LEN h
          then (if crc8_indices_in_domain (nla_data a) then Inr () else Inl EINVAL,
                md\<lparr>csum_crc8 := nla_data a\<rparr>)
          else (Inr (), md))"
  by (auto simp: parse_cs_crc8_def Let_def crc8_indices_in_domain_def chk_csum_parms_iff [symmetric]
        cgw_chk_csum_parms_def
      split: option.splits)

lemma parse_csum_err:
  "fst (parse_csum h tb st) = Inl err \<Longrightarrow> err = EINVAL"
  by (cases st)
     (auto simp: parse_csum_def parse_cs_xor_cases parse_cs_crc8_cases
       split: option.splits if_splits prod.splits sum.splits)

lemma parse_ccgw_ret:
  "fst (parse_ccgw tb) =
     (if tb_CGW_SRC_IF tb = None \<or> tb_CGW_DST_IF tb = None then Inl ENODEV
      else if parsed_src_idx tb = 0 \<and> parsed_dst_idx tb = 0 then Inr ()
      else if parsed_src_idx tb = 0 \<or> parsed_dst_idx tb = 0 then Inl ENODEV
      else Inr ())"
  by (auto simp: parse_ccgw_def parsed_src_idx_def parsed_dst_idx_def Let_def
      split: option.splits)

lemma parse_ccgw_idx:
  "tb_CGW_SRC_IF tb \<noteq> None \<Longrightarrow> tb_CGW_DST_IF tb \<noteq> None \<Longrightarrow>
   src_idx (snd (parse_ccgw tb)) = parsed_src_idx tb \<and>
   dst_idx (snd (parse_ccgw tb)) = parsed_dst_idx tb"
  by (auto simp: parse_ccgw_def parsed_src_idx_def parsed_dst_idx_def Let_def
      split: option.splits)

lemma cgw_parse_attr_cases:
  assumes "nlmsg_parse nlh = Inr tb" and "parse_mods h tb = Some st"
  shows "cgw_parse_attr h nlh (CGW_TYPE_CAN_CAN h) cin =
     (case fst (parse_csum h tb st) of
        Inl err \<Rightarrow> Some (Inl EINVAL, snd (parse_csum h tb st), cin)
      | Inr u \<Rightarrow> Some (fst (parse_ccgw tb), snd (parse_csum h tb st), snd (parse_ccgw tb)))"
  using assms parse_csum_err [of h tb st]
  by (auto simp: cgw_parse_attr_def split: prod.splits sum.splits)

lemma parse_csum_zero: "parse_csum h tb (md, 0) = (Inr (), md)"
  by (simp add: parse_csum_def)

lemma parse_csum_nonzero:
  assumes "k \<noteq> 0"
  shows "parse_csum h tb (md, k) =
     (case cs_xor_attr h tb of
        None \<Rightarrow>
          (case cs_crc8_attr h tb of
             None \<Rightarrow> (Inr (), md)
           | Some y \<Rightarrow> (if crc8_indices_in_domain y then Inr () else Inl EINVAL,
                        md\<lparr>csum_crc8 := y\<rparr>))
      | Some x \<Rightarrow>
          if xor_indices_in_domain x then
            (case cs_crc8_attr h tb of
               None \<Rightarrow> (Inr (), md\<lparr>csum_xor := x\<rparr>)
             | Some y \<Rightarrow> (if crc8_indices_in_domain y then Inr () else Inl EINVAL,
                          md\<lparr>csum_xor := x, csum_crc8 := y\<rparr>))
          else (Inl EINVAL, md\<lparr>csum_xor := x\<rparr>))"
  using assms
  by (simp add: parse_csum_def parse_cs_xor_cases parse_cs_crc8_cases cs_xor_attr_def
      cs_crc8_attr_def split: option.splits)

lemma parse_mod_and_empty:
  "tb_CGW_MOD_AND tb = Some a \<Longrightarrow> empty_selector h a \<Longrightarrow>
   \<exists>md'. parse_mod_and h tb (md, k) = Some (md', k) \<and> modfunc md' = modfunc md"
  by (simp add: parse_mod_and_def modtype_bit_def empty_selector_def Let_def)

lemma parse_mod_or_empty:
  "tb_CGW_MOD_OR tb = Some a \<Longrightarrow> empty_selector h a \<Longrightarrow>
   \<exists>md'. parse_mod_or h tb (md, k) = Some (md', k) \<and> modfunc md' = modfunc md"
  by (simp add: parse_mod_or_def modtype_bit_def empty_selector_def Let_def)

lemma parse_mod_xor_empty:
  "tb_CGW_MOD_XOR tb = Some a \<Longrightarrow> empty_selector h a \<Longrightarrow>
   \<exists>md'. parse_mod_xor h tb (md, k) = Some (md', k) \<and> modfunc md' = modfunc md"
  by (simp add: parse_mod_xor_def modtype_bit_def empty_selector_def Let_def)

lemma parse_mod_set_empty:
  "tb_CGW_MOD_SET tb = Some a \<Longrightarrow> empty_selector h a \<Longrightarrow>
   \<exists>md'. parse_mod_set h tb (md, k) = Some (md', k) \<and> modfunc md' = modfunc md"
  by (simp add: parse_mod_set_def modtype_bit_def empty_selector_def Let_def)

lemma cgw_parse_attr_mod:
  assumes "nlmsg_parse nlh = Inr tb" and "parse_mods h tb = Some st"
    and "cgw_parse_attr h nlh gwt cin = Some (ret, md, c)"
  shows "md = snd (parse_csum h tb st) \<and> (ret = Inr () \<longrightarrow> fst (parse_csum h tb st) = Inr ())"
  using assms
  by (auto simp: cgw_parse_attr_def split: prod.splits sum.splits if_splits)

lemma parse_mods_csum:
  assumes "parse_mods h tb = Some (md, k)"
  shows "from_idx (csum_xor md) = CGW_CS_DISABLED \<and> crc8_from_idx (csum_crc8 md) = CGW_CS_DISABLED"
  using parse_mods_ok [of h tb] assms
  by (simp add: appends_at_most_def cf_mod_init_def)

text \<open>
  The functions appended by the four blocks are those the attributes select
  (\<open>selected_funcs\<close>), and an attribute of empty selector changes neither them nor the
  rest of the parser's result.
\<close>

lemma set_modfunc_builds:
  assumes "modfunc md = map Some fs @ replicate (MAX_MODFUNCTIONS - length fs) None"
    and "length fs < MAX_MODFUNCTIONS"
  shows "builds (fs @ [f]) (set_modfunc f (md, length fs))"
proof -
  from assms(2) obtain n where n: "MAX_MODFUNCTIONS - length fs = Suc n"
    by (cases "MAX_MODFUNCTIONS - length fs") auto
  then have n': "MAX_MODFUNCTIONS - Suc (length fs) = n" by simp
  have "(map Some fs @ replicate (Suc n) None)[length fs := Some f]
          = map Some (fs @ [f]) @ replicate n None"
    by (simp add: list_update_append)
  with assms n n' show ?thesis
    by (simp add: builds_def set_modfunc_def)
qed

lemma modtype_bit_builds:
  assumes "builds fs (Some st)" and "length fs < MAX_MODFUNCTIONS"
  shows "builds (fs @ (if mt AND msk \<noteq> 0 then [f] else [])) (modtype_bit mt msk f st)"
proof -
  from assms(1) obtain md where st: "st = (md, length fs)"
    and m: "modfunc md = map Some fs @ replicate (MAX_MODFUNCTIONS - length fs) None"
    by (auto simp: builds_def)
  show ?thesis
  proof (cases "mt AND msk \<noteq> 0")
    case True
    with set_modfunc_builds [OF m assms(2), of f] st show ?thesis
      by (simp add: modtype_bit_def)
  next
    case False
    with assms(1) show ?thesis by (simp add: modtype_bit_def)
  qed
qed

lemma three_bits_builds:
  assumes "builds fs (Some st)" and "length fs + 3 \<le> MAX_MODFUNCTIONS"
  shows "builds (fs @ (if mt AND b1 \<noteq> 0 then [f1] else []) @ (if mt AND b2 \<noteq> 0 then [f2] else [])
                   @ (if mt AND b3 \<noteq> 0 then [f3] else []))
           (Some st \<bind> modtype_bit mt b1 f1 \<bind> modtype_bit mt b2 f2 \<bind> modtype_bit mt b3 f3)"
proof -
  let ?x1 = "if mt AND b1 \<noteq> 0 then [f1] else []"
  let ?x2 = "if mt AND b2 \<noteq> 0 then [f2] else []"
  let ?x3 = "if mt AND b3 \<noteq> 0 then [f3] else []"
  from assms(2) have l0: "length fs < MAX_MODFUNCTIONS" by simp
  from modtype_bit_builds [OF assms(1) l0, of mt b1 f1]
  obtain st1 where s1: "modtype_bit mt b1 f1 st = Some st1" and b1: "builds (fs @ ?x1) (Some st1)"
    by (auto simp: builds_def)
  from assms(2) have l1: "length (fs @ ?x1) < MAX_MODFUNCTIONS" by simp
  from modtype_bit_builds [OF b1 l1, of mt b2 f2]
  obtain st2 where s2: "modtype_bit mt b2 f2 st1 = Some st2"
    and b2: "builds ((fs @ ?x1) @ ?x2) (Some st2)"
    by (auto simp: builds_def)
  from assms(2) have l2: "length ((fs @ ?x1) @ ?x2) < MAX_MODFUNCTIONS" by simp
  from modtype_bit_builds [OF b2 l2, of mt b3 f3]
  have "builds (((fs @ ?x1) @ ?x2) @ ?x3) (modtype_bit mt b3 f3 st2)" .
  then show ?thesis by (simp add: s1 s2)
qed

lemma builds_frames:
  "builds fs (Some (md\<lparr>modframe_and := fr, modtype_and := mt\<rparr>, k)) = builds fs (Some (md, k))"
  "builds fs (Some (md\<lparr>modframe_or := fr, modtype_or := mt\<rparr>, k)) = builds fs (Some (md, k))"
  "builds fs (Some (md\<lparr>modframe_xor := fr, modtype_xor := mt\<rparr>, k)) = builds fs (Some (md, k))"
  "builds fs (Some (md\<lparr>modframe_set := fr, modtype_set := mt\<rparr>, k)) = builds fs (Some (md, k))"
  by (simp_all add: builds_def)

lemma parse_mod_and_builds:
  assumes "builds fs (Some st)" and "length fs + 3 \<le> MAX_MODFUNCTIONS"
  shows "builds (fs @ (if selects h (tb_CGW_MOD_AND tb) (CGW_MOD_ID h) then [P_mod_and_id] else [])
                   @ (if selects h (tb_CGW_MOD_AND tb) (CGW_MOD_DLC h) then [P_mod_and_dlc] else [])
                   @ (if selects h (tb_CGW_MOD_AND tb) (CGW_MOD_DATA h) then [P_mod_and_data] else []))
           (parse_mod_and h tb st)"
proof (cases "tb_CGW_MOD_AND tb")
  case None
  with assms show ?thesis by (simp add: parse_mod_and_def selects_def)
next
  case (Some a)
  obtain md k where st: "st = (md, k)" by (cases st)
  show ?thesis
  proof (cases "nla_len a = CGW_MODATTR_LEN h")
    case False
    with Some assms show ?thesis by (simp add: parse_mod_and_def selects_def)
  next
    case True
    let ?md1 = "md\<lparr>modframe_and := canframecpy (modframe_and md) (mb_cf (nla_data a)),
                   modtype_and := mb_modtype (nla_data a)\<rparr>"
    have "builds fs (Some (?md1, k))" using assms(1) st by (simp add: builds_frames)
    from three_bits_builds [OF this assms(2)] Some True st show ?thesis
      by (simp add: parse_mod_and_def Let_def selects_def)
  qed
qed

lemma parse_mod_or_builds:
  assumes "builds fs (Some st)" and "length fs + 3 \<le> MAX_MODFUNCTIONS"
  shows "builds (fs @ (if selects h (tb_CGW_MOD_OR tb) (CGW_MOD_ID h) then [P_mod_or_id] else [])
                   @ (if selects h (tb_CGW_MOD_OR tb) (CGW_MOD_DLC h) then [P_mod_or_dlc] else [])
                   @ (if selects h (tb_CGW_MOD_OR tb) (CGW_MOD_DATA h) then [P_mod_or_data] else []))
           (parse_mod_or h tb st)"
proof (cases "tb_CGW_MOD_OR tb")
  case None
  with assms show ?thesis by (simp add: parse_mod_or_def selects_def)
next
  case (Some a)
  obtain md k where st: "st = (md, k)" by (cases st)
  show ?thesis
  proof (cases "nla_len a = CGW_MODATTR_LEN h")
    case False
    with Some assms show ?thesis by (simp add: parse_mod_or_def selects_def)
  next
    case True
    let ?md1 = "md\<lparr>modframe_or := canframecpy (modframe_or md) (mb_cf (nla_data a)),
                   modtype_or := mb_modtype (nla_data a)\<rparr>"
    have "builds fs (Some (?md1, k))" using assms(1) st by (simp add: builds_frames)
    from three_bits_builds [OF this assms(2)] Some True st show ?thesis
      by (simp add: parse_mod_or_def Let_def selects_def)
  qed
qed

lemma parse_mod_xor_builds:
  assumes "builds fs (Some st)" and "length fs + 3 \<le> MAX_MODFUNCTIONS"
  shows "builds (fs @ (if selects h (tb_CGW_MOD_XOR tb) (CGW_MOD_ID h) then [P_mod_xor_id] else [])
                   @ (if selects h (tb_CGW_MOD_XOR tb) (CGW_MOD_DLC h) then [P_mod_xor_dlc] else [])
                   @ (if selects h (tb_CGW_MOD_XOR tb) (CGW_MOD_DATA h) then [P_mod_xor_data] else []))
           (parse_mod_xor h tb st)"
proof (cases "tb_CGW_MOD_XOR tb")
  case None
  with assms show ?thesis by (simp add: parse_mod_xor_def selects_def)
next
  case (Some a)
  obtain md k where st: "st = (md, k)" by (cases st)
  show ?thesis
  proof (cases "nla_len a = CGW_MODATTR_LEN h")
    case False
    with Some assms show ?thesis by (simp add: parse_mod_xor_def selects_def)
  next
    case True
    let ?md1 = "md\<lparr>modframe_xor := canframecpy (modframe_xor md) (mb_cf (nla_data a)),
                   modtype_xor := mb_modtype (nla_data a)\<rparr>"
    have "builds fs (Some (?md1, k))" using assms(1) st by (simp add: builds_frames)
    from three_bits_builds [OF this assms(2)] Some True st show ?thesis
      by (simp add: parse_mod_xor_def Let_def selects_def)
  qed
qed

lemma parse_mod_set_builds:
  assumes "builds fs (Some st)" and "length fs + 3 \<le> MAX_MODFUNCTIONS"
  shows "builds (fs @ (if selects h (tb_CGW_MOD_SET tb) (CGW_MOD_ID h) then [P_mod_set_id] else [])
                   @ (if selects h (tb_CGW_MOD_SET tb) (CGW_MOD_DLC h) then [P_mod_set_dlc] else [])
                   @ (if selects h (tb_CGW_MOD_SET tb) (CGW_MOD_DATA h) then [P_mod_set_data] else []))
           (parse_mod_set h tb st)"
proof (cases "tb_CGW_MOD_SET tb")
  case None
  with assms show ?thesis by (simp add: parse_mod_set_def selects_def)
next
  case (Some a)
  obtain md k where st: "st = (md, k)" by (cases st)
  show ?thesis
  proof (cases "nla_len a = CGW_MODATTR_LEN h")
    case False
    with Some assms show ?thesis by (simp add: parse_mod_set_def selects_def)
  next
    case True
    let ?md1 = "md\<lparr>modframe_set := canframecpy (modframe_set md) (mb_cf (nla_data a)),
                   modtype_set := mb_modtype (nla_data a)\<rparr>"
    have "builds fs (Some (?md1, k))" using assms(1) st by (simp add: builds_frames)
    from three_bits_builds [OF this assms(2)] Some True st show ?thesis
      by (simp add: parse_mod_set_def Let_def selects_def)
  qed
qed


lemma parse_mods_builds: "builds (selected_funcs h tb) (parse_mods h tb)"
proof -
  let ?a = "(if selects h (tb_CGW_MOD_AND tb) (CGW_MOD_ID h) then [P_mod_and_id] else [])
            @ (if selects h (tb_CGW_MOD_AND tb) (CGW_MOD_DLC h) then [P_mod_and_dlc] else [])
            @ (if selects h (tb_CGW_MOD_AND tb) (CGW_MOD_DATA h) then [P_mod_and_data] else [])"
  let ?o = "(if selects h (tb_CGW_MOD_OR tb) (CGW_MOD_ID h) then [P_mod_or_id] else [])
            @ (if selects h (tb_CGW_MOD_OR tb) (CGW_MOD_DLC h) then [P_mod_or_dlc] else [])
            @ (if selects h (tb_CGW_MOD_OR tb) (CGW_MOD_DATA h) then [P_mod_or_data] else [])"
  let ?x = "(if selects h (tb_CGW_MOD_XOR tb) (CGW_MOD_ID h) then [P_mod_xor_id] else [])
            @ (if selects h (tb_CGW_MOD_XOR tb) (CGW_MOD_DLC h) then [P_mod_xor_dlc] else [])
            @ (if selects h (tb_CGW_MOD_XOR tb) (CGW_MOD_DATA h) then [P_mod_xor_data] else [])"
  let ?s = "(if selects h (tb_CGW_MOD_SET tb) (CGW_MOD_ID h) then [P_mod_set_id] else [])
            @ (if selects h (tb_CGW_MOD_SET tb) (CGW_MOD_DLC h) then [P_mod_set_dlc] else [])
            @ (if selects h (tb_CGW_MOD_SET tb) (CGW_MOD_DATA h) then [P_mod_set_data] else [])"
  have la: "length ?a \<le> 3" and lo: "length ?o \<le> 3" and lx: "length ?x \<le> 3" by simp_all
  have m: "MAX_MODFUNCTIONS = 17" by (simp add: MAX_MODFUNCTIONS_def)
  have b0: "builds [] (Some (cf_mod_init, 0))"
    by (simp add: builds_def cf_mod_init_def)
  have "builds ([] @ ?a) (parse_mod_and h tb (cf_mod_init, 0))"
    by (rule parse_mod_and_builds [OF b0]) (simp add: m)
  then obtain st1 where s1: "parse_mod_and h tb (cf_mod_init, 0) = Some st1"
    and b1: "builds ?a (Some st1)"
    by (auto simp: builds_def)
  have "builds (?a @ ?o) (parse_mod_or h tb st1)"
    using parse_mod_or_builds [OF b1, of h tb] la m by simp
  then obtain st2 where s2: "parse_mod_or h tb st1 = Some st2"
    and b2: "builds (?a @ ?o) (Some st2)"
    by (auto simp: builds_def)
  have "builds ((?a @ ?o) @ ?x) (parse_mod_xor h tb st2)"
    using parse_mod_xor_builds [OF b2, of h tb] la lo m by simp
  then obtain st3 where s3: "parse_mod_xor h tb st2 = Some st3"
    and b3: "builds ((?a @ ?o) @ ?x) (Some st3)"
    by (auto simp: builds_def)
  have "builds (((?a @ ?o) @ ?x) @ ?s) (parse_mod_set h tb st3)"
    using parse_mod_set_builds [OF b3, of h tb] la lo lx m by simp
  then show ?thesis
    by (simp add: parse_mods_def s1 s2 s3 selected_funcs_def)
qed

lemma selects_drop_if_empty:
  "selects h (drop_if_empty h attr) (CGW_MOD_ID h) = selects h attr (CGW_MOD_ID h)"
  "selects h (drop_if_empty h attr) (CGW_MOD_DLC h) = selects h attr (CGW_MOD_DLC h)"
  "selects h (drop_if_empty h attr) (CGW_MOD_DATA h) = selects h attr (CGW_MOD_DATA h)"
  by (auto simp: selects_def drop_if_empty_def empty_selector_def split: option.splits)

lemma selected_funcs_drop_empty: "selected_funcs h (drop_empty h tb) = selected_funcs h tb"
  by (simp add: selected_funcs_def drop_empty_def selects_drop_if_empty)

lemma drop_empty_others:
  "cs_xor_attr h (drop_empty h tb) = cs_xor_attr h tb"
  "cs_crc8_attr h (drop_empty h tb) = cs_crc8_attr h tb"
  "parse_ccgw (drop_empty h tb) = parse_ccgw tb"
  by (simp_all add: cs_xor_attr_def cs_crc8_attr_def parse_ccgw_def drop_empty_def)

lemma selected_funcs_no_attr:
  "tb_CGW_MOD_AND tb = None \<Longrightarrow> tb_CGW_MOD_OR tb = None \<Longrightarrow> tb_CGW_MOD_XOR tb = None \<Longrightarrow>
   tb_CGW_MOD_SET tb = None \<Longrightarrow> selected_funcs h tb = []"
  by (simp add: selected_funcs_def selects_def)

lemma parse_mod_and_empty_stored:
  "tb_CGW_MOD_AND tb = Some a \<Longrightarrow> empty_selector h a \<Longrightarrow>
   parse_mod_and h tb (md, k) =
     Some (if nla_len a = CGW_MODATTR_LEN h
           then md\<lparr>modframe_and := canframecpy (modframe_and md) (mb_cf (nla_data a)),
                   modtype_and := mb_modtype (nla_data a)\<rparr>
           else md, k)"
  by (simp add: parse_mod_and_def modtype_bit_def empty_selector_def Let_def)

lemma parse_mod_or_empty_stored:
  "tb_CGW_MOD_OR tb = Some a \<Longrightarrow> empty_selector h a \<Longrightarrow>
   parse_mod_or h tb (md, k) =
     Some (if nla_len a = CGW_MODATTR_LEN h
           then md\<lparr>modframe_or := canframecpy (modframe_or md) (mb_cf (nla_data a)),
                   modtype_or := mb_modtype (nla_data a)\<rparr>
           else md, k)"
  by (simp add: parse_mod_or_def modtype_bit_def empty_selector_def Let_def)

lemma parse_mod_xor_empty_stored:
  "tb_CGW_MOD_XOR tb = Some a \<Longrightarrow> empty_selector h a \<Longrightarrow>
   parse_mod_xor h tb (md, k) =
     Some (if nla_len a = CGW_MODATTR_LEN h
           then md\<lparr>modframe_xor := canframecpy (modframe_xor md) (mb_cf (nla_data a)),
                   modtype_xor := mb_modtype (nla_data a)\<rparr>
           else md, k)"
  by (simp add: parse_mod_xor_def modtype_bit_def empty_selector_def Let_def)

lemma parse_mod_set_empty_stored:
  "tb_CGW_MOD_SET tb = Some a \<Longrightarrow> empty_selector h a \<Longrightarrow>
   parse_mod_set h tb (md, k) =
     Some (if nla_len a = CGW_MODATTR_LEN h
           then md\<lparr>modframe_set := canframecpy (modframe_set md) (mb_cf (nla_data a)),
                   modtype_set := mb_modtype (nla_data a)\<rparr>
           else md, k)"
  by (simp add: parse_mod_set_def modtype_bit_def empty_selector_def Let_def)

lemma parse_mods_selected:
  "\<exists>md. parse_mods h tb = Some (md, length (selected_funcs h tb))
      \<and> modfunc md = map Some (selected_funcs h tb)
                       @ replicate (MAX_MODFUNCTIONS - length (selected_funcs h tb)) None
      \<and> csum_xor md = csum_xor cf_mod_init \<and> csum_crc8 md = csum_crc8 cf_mod_init"
  using parse_mods_builds [of h tb] parse_mods_ok [of h tb]
  by (auto simp: builds_def appends_at_most_def)

text \<open>
  The checksum block gives the same return value, and equal arrays and stages, on two
  records with equal arrays and stages and two tables with the same checksum attributes.
\<close>

lemma parse_csum_same:
  assumes "modfunc md = modfunc md'" and "csum_xor md = csum_xor md'"
    and "csum_crc8 md = csum_crc8 md'"
    and "cs_xor_attr h tb' = cs_xor_attr h tb" and "cs_crc8_attr h tb' = cs_crc8_attr h tb"
  shows "fst (parse_csum h tb' (md', k)) = fst (parse_csum h tb (md, k))
       \<and> modfunc (snd (parse_csum h tb' (md', k))) = modfunc (snd (parse_csum h tb (md, k)))
       \<and> csum_xor (snd (parse_csum h tb' (md', k))) = csum_xor (snd (parse_csum h tb (md, k)))
       \<and> csum_crc8 (snd (parse_csum h tb' (md', k))) = csum_crc8 (snd (parse_csum h tb (md, k)))"
proof (cases "k = 0")
  case True
  with assms show ?thesis by (simp add: parse_csum_zero)
next
  case False
  show ?thesis
    unfolding parse_csum_nonzero [OF False] assms(4,5)
    using assms(1-3) by (simp split: option.splits)
qed

lemma parser_same_without_empty:
  assumes "nlmsg_parse nlh = Inr tb"
  shows "\<exists>ret md md' c.
           cgw_parse_attr h nlh (CGW_TYPE_CAN_CAN h) cin = Some (ret, md, c)
         \<and> cgw_parse_attr h (nlh\<lparr>nlmsg_parse := Inr (drop_empty h tb)\<rparr>) (CGW_TYPE_CAN_CAN h) cin
             = Some (ret, md', c)
         \<and> modfunc md = modfunc md' \<and> csum_xor md = csum_xor md' \<and> csum_crc8 md = csum_crc8 md'
         \<and> ret = (if csum_passes h tb then fst (parse_ccgw tb) else Inl EINVAL)"
proof -
  let ?tb' = "drop_empty h tb"
  let ?k = "length (selected_funcs h tb)"
  from parse_mods_selected [of h tb] obtain md0 where
    pm: "parse_mods h tb = Some (md0, ?k)"
    and f0: "modfunc md0 = map Some (selected_funcs h tb) @ replicate (MAX_MODFUNCTIONS - ?k) None"
    and c0: "csum_xor md0 = csum_xor cf_mod_init" "csum_crc8 md0 = csum_crc8 cf_mod_init"
    by blast
  from parse_mods_selected [of h ?tb'] obtain md1 where
    pm': "parse_mods h ?tb' = Some (md1, ?k)"
    and f1: "modfunc md1 = map Some (selected_funcs h tb) @ replicate (MAX_MODFUNCTIONS - ?k) None"
    and c1: "csum_xor md1 = csum_xor cf_mod_init" "csum_crc8 md1 = csum_crc8 cf_mod_init"
    by (auto simp: selected_funcs_drop_empty)
  have np': "nlmsg_parse (nlh\<lparr>nlmsg_parse := Inr ?tb'\<rparr>) = Inr ?tb'" by simp
  note pc = cgw_parse_attr_cases [OF assms pm, of cin]
  note pc' = cgw_parse_attr_cases [OF np' pm', of cin]
  have same: "fst (parse_csum h ?tb' (md1, ?k)) = fst (parse_csum h tb (md0, ?k))
       \<and> modfunc (snd (parse_csum h ?tb' (md1, ?k))) = modfunc (snd (parse_csum h tb (md0, ?k)))
       \<and> csum_xor (snd (parse_csum h ?tb' (md1, ?k))) = csum_xor (snd (parse_csum h tb (md0, ?k)))
       \<and> csum_crc8 (snd (parse_csum h ?tb' (md1, ?k))) = csum_crc8 (snd (parse_csum h tb (md0, ?k)))"
    by (rule parse_csum_same) (simp_all add: f0 f1 c0 c1 drop_empty_others)
  show ?thesis
  proof (cases "fst (parse_csum h tb (md0, ?k))")
    case (Inl err)
    with same show ?thesis
      by (simp add: pc pc' csum_passes_def pm)
  next
    case (Inr u)
    with same show ?thesis
      by (simp add: pc pc' csum_passes_def pm drop_empty_others)
  qed
qed

lemma no_operator_csum_passes: "selected_funcs h tb = [] \<Longrightarrow> csum_passes h tb"
  using parse_mods_selected [of h tb]
  by (auto simp: csum_passes_def parse_csum_zero)

lemma csum_passes_iff:
  "csum_passes h tb =
     (selected_funcs h tb = []
      \<or> ((\<forall>x. cs_xor_attr h tb = Some x \<longrightarrow> xor_indices_in_domain x)
         \<and> (\<forall>y. cs_crc8_attr h tb = Some y \<longrightarrow> crc8_indices_in_domain y)))"
proof -
  from parse_mods_selected [of h tb] obtain md where
    pm: "parse_mods h tb = Some (md, length (selected_funcs h tb))" by blast
  show ?thesis
  proof (cases "selected_funcs h tb = []")
    case True
    with pm show ?thesis by (simp add: csum_passes_def parse_csum_zero)
  next
    case False
    then have k: "length (selected_funcs h tb) \<noteq> 0" by simp
    show ?thesis
      using False
      by (simp add: csum_passes_def pm parse_csum_nonzero [OF k] split: option.splits)
  qed
qed

text \<open>
  The four blocks do not read the checksum attributes, and a checksum attribute of
  another length than that of its struct is skipped like an absent one.
\<close>

lemma parse_mods_no_cs:
  "parse_mods h (tb\<lparr>tb_CGW_CS_XOR := x\<rparr>) = parse_mods h tb"
  "parse_mods h (tb\<lparr>tb_CGW_CS_CRC8 := y\<rparr>) = parse_mods h tb"
proof -
  have "parse_mod_and h (tb\<lparr>tb_CGW_CS_XOR := x\<rparr>) = parse_mod_and h tb"
       "parse_mod_or h (tb\<lparr>tb_CGW_CS_XOR := x\<rparr>) = parse_mod_or h tb"
       "parse_mod_xor h (tb\<lparr>tb_CGW_CS_XOR := x\<rparr>) = parse_mod_xor h tb"
       "parse_mod_set h (tb\<lparr>tb_CGW_CS_XOR := x\<rparr>) = parse_mod_set h tb"
    by (rule ext, simp add: parse_mod_and_def parse_mod_or_def parse_mod_xor_def
        parse_mod_set_def)+
  then show "parse_mods h (tb\<lparr>tb_CGW_CS_XOR := x\<rparr>) = parse_mods h tb"
    by (simp only: parse_mods_def)
  have "parse_mod_and h (tb\<lparr>tb_CGW_CS_CRC8 := y\<rparr>) = parse_mod_and h tb"
       "parse_mod_or h (tb\<lparr>tb_CGW_CS_CRC8 := y\<rparr>) = parse_mod_or h tb"
       "parse_mod_xor h (tb\<lparr>tb_CGW_CS_CRC8 := y\<rparr>) = parse_mod_xor h tb"
       "parse_mod_set h (tb\<lparr>tb_CGW_CS_CRC8 := y\<rparr>) = parse_mod_set h tb"
    by (rule ext, simp add: parse_mod_and_def parse_mod_or_def parse_mod_xor_def
        parse_mod_set_def)+
  then show "parse_mods h (tb\<lparr>tb_CGW_CS_CRC8 := y\<rparr>) = parse_mods h tb"
    by (simp only: parse_mods_def)
qed

lemma skip_cs_xor:
  assumes "tb_CGW_CS_XOR tb = Some a" and "nla_len a \<noteq> CGW_CS_XOR_LEN h"
  shows "parse_mods h (tb\<lparr>tb_CGW_CS_XOR := None\<rparr>) = parse_mods h tb"
    and "parse_csum h (tb\<lparr>tb_CGW_CS_XOR := None\<rparr>) st = parse_csum h tb st"
    and "parse_ccgw (tb\<lparr>tb_CGW_CS_XOR := None\<rparr>) = parse_ccgw tb"
proof -
  have x: "parse_cs_xor h (tb\<lparr>tb_CGW_CS_XOR := None\<rparr>) md = parse_cs_xor h tb md" for md
    using assms by (simp add: parse_cs_xor_def)
  have y: "parse_cs_crc8 h (tb\<lparr>tb_CGW_CS_XOR := None\<rparr>) md = parse_cs_crc8 h tb md" for md
    by (simp add: parse_cs_crc8_def)
  show "parse_mods h (tb\<lparr>tb_CGW_CS_XOR := None\<rparr>) = parse_mods h tb"
    by (rule parse_mods_no_cs)
  show "parse_csum h (tb\<lparr>tb_CGW_CS_XOR := None\<rparr>) st = parse_csum h tb st"
    by (simp only: parse_csum_def x y)
  show "parse_ccgw (tb\<lparr>tb_CGW_CS_XOR := None\<rparr>) = parse_ccgw tb"
    by (simp add: parse_ccgw_def)
qed

lemma skip_cs_crc8:
  assumes "tb_CGW_CS_CRC8 tb = Some a" and "nla_len a \<noteq> CGW_CS_CRC8_LEN h"
  shows "parse_mods h (tb\<lparr>tb_CGW_CS_CRC8 := None\<rparr>) = parse_mods h tb"
    and "parse_csum h (tb\<lparr>tb_CGW_CS_CRC8 := None\<rparr>) st = parse_csum h tb st"
    and "parse_ccgw (tb\<lparr>tb_CGW_CS_CRC8 := None\<rparr>) = parse_ccgw tb"
proof -
  have x: "parse_cs_xor h (tb\<lparr>tb_CGW_CS_CRC8 := None\<rparr>) md = parse_cs_xor h tb md" for md
    by (simp add: parse_cs_xor_def)
  have y: "parse_cs_crc8 h (tb\<lparr>tb_CGW_CS_CRC8 := None\<rparr>) md = parse_cs_crc8 h tb md" for md
    using assms by (simp add: parse_cs_crc8_def)
  show "parse_mods h (tb\<lparr>tb_CGW_CS_CRC8 := None\<rparr>) = parse_mods h tb"
    by (rule parse_mods_no_cs)
  show "parse_csum h (tb\<lparr>tb_CGW_CS_CRC8 := None\<rparr>) st = parse_csum h tb st"
    by (simp only: parse_csum_def x y)
  show "parse_ccgw (tb\<lparr>tb_CGW_CS_CRC8 := None\<rparr>) = parse_ccgw tb"
    by (simp add: parse_ccgw_def)
qed

section \<open>Lemmas about the job list\<close>

lemma create_job_parse_failed:
  assumes "\<And>cin. \<exists>md c. cgw_parse_attr h nlh (CGW_TYPE_CAN_CAN h) cin = Some (Inl err, md, c)"
  shows "(\<exists>err'. cgw_create_job h e s nlh = Some (Inl err', s))
      \<and> (head_ok h nlh \<and> kmem_cache_alloc e \<noteq> None \<longrightarrow> cgw_create_job h e s nlh = Some (Inl err, s))"
proof (cases "kmem_cache_alloc e")
  case None
  then show ?thesis by (simp add: cgw_create_job_def head_ok_def Let_def)
next
  case (Some pg)
  obtain p g0 where pg: "pg = (p, g0)" by (cases pg)
  let ?g1 = "g0\<lparr>handled_frames := 0, dropped_frames := 0, flags := rt_flags (nlmsg_data nlh),
                 gwtype := rt_gwtype (nlmsg_data nlh)\<rparr>"
  from assms [of "ccgw ?g1"] obtain md c where
    "cgw_parse_attr h nlh (CGW_TYPE_CAN_CAN h) (ccgw ?g1) = Some (Inl err, md, c)" by blast
  with Some pg show ?thesis
    by (simp add: cgw_create_job_def head_ok_def Let_def)
qed

lemma create_job_zero_idx:
  assumes "\<And>cin. \<exists>md c. cgw_parse_attr h nlh (CGW_TYPE_CAN_CAN h) cin = Some (Inr (), md, c)
                \<and> (src_idx c = 0 \<or> dst_idx c = 0)"
  shows "(\<exists>err'. cgw_create_job h e s nlh = Some (Inl err', s))
      \<and> (head_ok h nlh \<and> kmem_cache_alloc e \<noteq> None \<longrightarrow> cgw_create_job h e s nlh = Some (Inl ENODEV, s))"
proof (cases "kmem_cache_alloc e")
  case None
  then show ?thesis by (simp add: cgw_create_job_def head_ok_def Let_def)
next
  case (Some pg)
  obtain p g0 where pg: "pg = (p, g0)" by (cases pg)
  let ?g1 = "g0\<lparr>handled_frames := 0, dropped_frames := 0, flags := rt_flags (nlmsg_data nlh),
                 gwtype := rt_gwtype (nlmsg_data nlh)\<rparr>"
  from assms [of "ccgw ?g1"] obtain md c where
    "cgw_parse_attr h nlh (CGW_TYPE_CAN_CAN h) (ccgw ?g1) = Some (Inr (), md, c)"
    and "src_idx c = 0 \<or> dst_idx c = 0" by blast
  with Some pg show ?thesis
    by (simp add: cgw_create_job_def head_ok_def Let_def)
qed

lemma create_job_after_parse:
  assumes "head_ok h nlh" and "kmem_cache_alloc e = Some (p, g0)"
    and "cgw_parse_attr h nlh (CGW_TYPE_CAN_CAN h)
           (ccgw (g0\<lparr>handled_frames := 0, dropped_frames := 0,
                     flags := rt_flags (nlmsg_data nlh), gwtype := rt_gwtype (nlmsg_data nlh)\<rparr>))
         = Some (Inr (), md, c)"
  shows "cgw_create_job h e s nlh =
     (if src_idx c = 0 \<or> dst_idx c = 0 then Some (Inl ENODEV, s)
      else
        (case dev_get_by_index e (src_idx c) of
           None \<Rightarrow> Some (Inl ENODEV, s)
         | Some sd \<Rightarrow>
             if netdev_type e sd \<noteq> ARPHRD_CAN h then Some (Inl ENODEV, s)
             else
               (case dev_get_by_index e (dst_idx c) of
                  None \<Rightarrow> Some (Inl ENODEV, s)
                | Some dd \<Rightarrow>
                    if netdev_type e dd \<noteq> ARPHRD_CAN h then Some (Inl ENODEV, s)
                    else
                      (case can_rx_register_ret e of
                         Inl err \<Rightarrow> Some (Inl err, s)
                       | Inr u \<Rightarrow>
                           Some (Inr (),
                             s\<lparr>can_rx :=
                                  rx_entry_of p
                                    (g0\<lparr>handled_frames := 0, dropped_frames := 0,
                                        flags := rt_flags (nlmsg_data nlh),
                                        gwtype := rt_gwtype (nlmsg_data nlh),
                                        gwj_mod := md, ccgw := c, src_dev := sd, dst_dev := dd\<rparr>)
                                  # can_rx s,
                               cgw_list :=
                                  (p, g0\<lparr>handled_frames := 0, dropped_frames := 0,
                                        flags := rt_flags (nlmsg_data nlh),
                                        gwtype := rt_gwtype (nlmsg_data nlh),
                                        gwj_mod := md, ccgw := c, src_dev := sd, dst_dev := dd\<rparr>)
                                  # cgw_list s\<rparr>)))))"
  using assms
  by (simp add: cgw_create_job_def head_ok_def Let_def cgw_register_filter_def
      split: option.splits sum.splits)

lemma create_job_prepends:
  assumes "cgw_create_job h e s nlh = Some (Inr (), s')"
  shows "\<exists>p g. cgw_list s' = (p, g) # cgw_list s"
proof -
  let ?r = "nlmsg_data nlh"
  from assms obtain p g0 where al: "kmem_cache_alloc e = Some (p, g0)"
    and hd: "head_ok h nlh"
    unfolding cgw_create_job_def Let_def head_ok_def
    by (cases "kmem_cache_alloc e") (auto split: if_splits)
  let ?g1 = "g0\<lparr>handled_frames := 0, dropped_frames := 0, flags := rt_flags ?r,
                 gwtype := rt_gwtype ?r\<rparr>"
  from assms al hd obtain md c where
    pa: "cgw_parse_attr h nlh (CGW_TYPE_CAN_CAN h) (ccgw ?g1) = Some (Inr (), md, c)"
    unfolding cgw_create_job_def Let_def head_ok_def
    by (cases "cgw_parse_attr h nlh (CGW_TYPE_CAN_CAN h) (ccgw ?g1)")
       (auto split: sum.splits)
  from assms show ?thesis
    unfolding create_job_after_parse [OF hd al pa]
    by (auto split: if_splits option.splits sum.splits)
qed

lemma remove_all_loop_empty:
  "cgw_list s = xs \<Longrightarrow> cgw_list (remove_all_loop xs s) = []"
proof (induction xs arbitrary: s)
  case Nil
  then show ?case by simp
next
  case (Cons x xs)
  obtain p g where x: "x = (p, g)" by (cases x)
  have "cgw_list (cgw_unregister_filter p g (hlist_del p s)) = xs"
    using Cons.prems x by (simp add: cgw_unregister_filter_def hlist_del_def)
  from Cons.IH [OF this] x show ?case by simp
qed

lemma remove_all_jobs_empty: "cgw_list (cgw_remove_all_jobs s) = []"
  by (simp add: cgw_remove_all_jobs_def remove_all_loop_empty)

lemma remove_job_loop_none:
  "\<forall>pg \<in> set js. \<not> job_matches r md c (snd pg) \<Longrightarrow>
   remove_job_loop r md c js s = (Inl EINVAL, s)"
  by (induction js) (auto simp: job_matches_def)

lemma remove_job_loop_first:
  "\<forall>pg \<in> set pre. \<not> job_matches r md c (snd pg) \<Longrightarrow> job_matches r md c g \<Longrightarrow>
   remove_job_loop r md c (pre @ (p, g) # post) s =
     (Inr (), cgw_unregister_filter p g (hlist_del p s))"
  by (induction pre) (auto simp: job_matches_def)

lemma unlink_node_distinct:
  "p \<notin> fst ` set pre \<Longrightarrow> unlink_node p (pre @ (p, g) # post) = pre @ post"
  by (induction pre) auto

lemma remove_job_after_parse:
  assumes "head_ok h nlh"
    and "cgw_parse_attr h nlh (CGW_TYPE_CAN_CAN h) (uninit_ccgw e) = Some (Inr (), md, c)"
  shows "cgw_remove_job h e s nlh =
     (if src_idx c = 0 \<and> dst_idx c = 0 then Some (Inr (), cgw_remove_all_jobs s)
      else Some (remove_job_loop (nlmsg_data nlh) md c (cgw_list s) s))"
  using assms by (simp add: cgw_remove_job_def head_ok_def Let_def)

text \<open>
  Two requests with the same header on which the parser returns the same value and the
  same interface data make \<^verbatim>\<open>cgw_create_job\<close> return the same value.
\<close>

lemma create_job_same_return:
  assumes "\<And>cin. \<exists>ret md md' c.
             cgw_parse_attr h nlh (CGW_TYPE_CAN_CAN h) cin = Some (ret, md, c)
           \<and> cgw_parse_attr h nlh' (CGW_TYPE_CAN_CAN h) cin = Some (ret, md', c)"
    and "nlmsg_len nlh' = nlmsg_len nlh" and "nlmsg_data nlh' = nlmsg_data nlh"
  shows "map_option fst (cgw_create_job h e s nlh') = map_option fst (cgw_create_job h e s nlh)"
proof (cases "head_ok h nlh")
  case False
  then show ?thesis
    using assms(2,3) by (auto simp: cgw_create_job_def head_ok_def Let_def)
next
  case hd: True
  then have hd': "head_ok h nlh'" using assms(2,3) by (simp add: head_ok_def)
  show ?thesis
  proof (cases "kmem_cache_alloc e")
    case None
    with hd hd' show ?thesis by (simp add: cgw_create_job_def head_ok_def Let_def)
  next
    case (Some pg)
    obtain p g0 where pg: "pg = (p, g0)" by (cases pg)
    let ?g1 = "g0\<lparr>handled_frames := 0, dropped_frames := 0, flags := rt_flags (nlmsg_data nlh),
                   gwtype := rt_gwtype (nlmsg_data nlh)\<rparr>"
    from assms(1) [of "ccgw ?g1"] obtain ret md md' c where
      p1: "cgw_parse_attr h nlh (CGW_TYPE_CAN_CAN h) (ccgw ?g1) = Some (ret, md, c)"
      and p2: "cgw_parse_attr h nlh' (CGW_TYPE_CAN_CAN h) (ccgw ?g1) = Some (ret, md', c)"
      by blast
    show ?thesis
    proof (cases ret)
      case (Inl err)
      with p1 p2 Some pg hd hd' assms(3) show ?thesis
        by (simp add: cgw_create_job_def head_ok_def Let_def)
    next
      case (Inr u)
      have al: "kmem_cache_alloc e = Some (p, g0)" using Some pg by simp
      have q1: "cgw_parse_attr h nlh (CGW_TYPE_CAN_CAN h) (ccgw ?g1) = Some (Inr (), md, c)"
        using p1 Inr by simp
      have q2: "cgw_parse_attr h nlh' (CGW_TYPE_CAN_CAN h)
                  (ccgw (g0\<lparr>handled_frames := 0, dropped_frames := 0,
                             flags := rt_flags (nlmsg_data nlh'),
                             gwtype := rt_gwtype (nlmsg_data nlh')\<rparr>)) = Some (Inr (), md', c)"
        using p2 Inr assms(3) by simp
      show ?thesis
        unfolding create_job_after_parse [OF hd al q1] create_job_after_parse [OF hd' al q2]
        by (simp split: option.splits sum.splits)
    qed
  qed
qed

section \<open>The example values, evaluated\<close>

lemma ex_h_simps:
  "CGW_MOD_ID ex_h = 1" "CGW_MOD_DLC ex_h = 2" "CGW_MOD_DATA ex_h = 4"
  "CGW_MODATTR_LEN ex_h = 17" "CGW_CS_XOR_LEN ex_h = 4" "CGW_CS_CRC8_LEN ex_h = 282"
  "CGW_FLAGS_CAN_ECHO ex_h = 1" "CGW_FLAGS_CAN_SRC_TSTAMP ex_h = 2"
  "CGW_TYPE_CAN_CAN ex_h = 1" "AF_CAN ex_h = 29" "ARPHRD_CAN ex_h = 280" "IFF_UP ex_h = 1"
  "sizeof_rtcanmsg ex_h = 4"
  by (simp_all add: ex_h_def)

lemma ex_req_simps:
  "nlmsg_len (ex_req tb) = 4" "nlmsg_parse (ex_req tb) = Inr tb"
  "can_family (nlmsg_data (ex_req tb)) = 29" "rt_gwtype (nlmsg_data (ex_req tb)) = 1"
  "rt_flags (nlmsg_data (ex_req tb)) = 0"
  by (simp_all add: ex_req_def)

lemma ex_menv_simps:
  "kmem_cache_alloc (ex_menv p) = Some (p, ex_job)"
  "dev_get_by_index (ex_menv p) 1 = Some 1" "dev_get_by_index (ex_menv p) 2 = Some 2"
  "netdev_type (ex_menv p) d = 280" "can_rx_register_ret (ex_menv p) = Inr ()"
  "uninit_ccgw (ex_menv p) = ex_ccgw"
  by (simp_all add: ex_menv_def)

lemma ex_head_ok: "head_ok ex_h (ex_req tb)"
  by (simp add: head_ok_def ex_h_simps ex_req_simps)

lemma ex_parse_mods: "parse_mods ex_h ex_tb = Some (cf_mod_init, 0)"
  by (simp add: parse_mods_def parse_mod_and_def parse_mod_or_def parse_mod_xor_def
      parse_mod_set_def ex_tb_def)

lemma ex_parse:
  "cgw_parse_attr ex_h (ex_req ex_tb) (CGW_TYPE_CAN_CAN ex_h) cin
     = Some (Inr (), cf_mod_init, ex_ccgw\<lparr>dst_idx := 2\<rparr>)"
  using cgw_parse_attr_cases [OF ex_req_simps(2) ex_parse_mods, of cin]
  by (simp add: parse_csum_def parse_ccgw_def ex_tb_def ex_ccgw_def Let_def)

lemma ex_add1:
  "cgw_create_job ex_h (ex_menv 10) ex_state0 (ex_req ex_tb) = Some (Inr (), ex_state1)"
  unfolding create_job_after_parse [OF ex_head_ok ex_menv_simps(1) ex_parse]
  by (simp add: ex_h_simps ex_req_simps ex_menv_simps
      ex_state0_def ex_state1_def ex_job12_def ex_job_def ex_ccgw_def rx_entry_of_def)

lemma ex_add2:
  "cgw_create_job ex_h (ex_menv 20) ex_state1 (ex_req ex_tb) = Some (Inr (), ex_state2)"
  unfolding create_job_after_parse [OF ex_head_ok ex_menv_simps(1) ex_parse]
  by (simp add: ex_h_simps ex_req_simps ex_menv_simps
      ex_state1_def ex_state2_def ex_job12_def ex_job_def ex_ccgw_def rx_entry_of_def)

lemma ex_del:
  "cgw_remove_job ex_h (ex_menv 0) ex_state2 (ex_req ex_tb) = Some (Inr (), ex_state1)"
  unfolding remove_job_after_parse [OF ex_head_ok ex_parse]
  by (simp add: ex_req_simps ex_state1_def ex_state2_def ex_job12_def ex_job_def ex_ccgw_def
      cgw_unregister_filter_def hlist_del_def rx_entry_of_def)

lemma ex_spec_del:
  "spec_remove_first (nlmsg_data (ex_req ex_tb)) cf_mod_init (ex_ccgw\<lparr>dst_idx := 2\<rparr>)
     (cgw_list ex_state2) = [(20, ex_job12)]"
  by (simp add: spec_remove_first_def job_matches_def ex_state2_def ex_job12_def ex_job_def
      ex_req_simps)

lemma ex_csum_passes: "csum_passes ex_h ex_tb_no_src" "csum_passes ex_h ex_tb_flush"
  by (simp_all add: csum_passes_def parse_mods_def parse_mod_and_def parse_mod_or_def
      parse_mod_xor_def parse_mod_set_def parse_csum_def ex_tb_def ex_tb_no_src_def
      ex_tb_flush_def)

lemma ex_cs_parse_mods:
  "parse_mods ex_h ex_cs_tb =
     Some (cf_mod_init\<lparr>modframe_set := mb_cf ex_cs_set, modtype_set := 4,
                       modfunc := (replicate MAX_MODFUNCTIONS None)[0 := Some P_mod_set_data]\<rparr>, 1)"
  by (simp add: parse_mods_def parse_mod_and_def parse_mod_or_def parse_mod_xor_def
      parse_mod_set_def ex_tb_def ex_cs_tb_def ex_h_simps modtype_bit_def set_modfunc_def
      canframecpy_def cf_mod_init_def zero_frame_def ex_cs_set_def Let_def MAX_MODFUNCTIONS_def)

lemma ex_cs_parse:
  "cgw_parse_attr ex_h (ex_req ex_cs_tb) (CGW_TYPE_CAN_CAN ex_h) cin
     = Some (Inr (), gwj_mod ex_cs_job, ex_ccgw\<lparr>dst_idx := 2\<rparr>)"
  using cgw_parse_attr_cases [OF ex_req_simps(2) ex_cs_parse_mods, of cin]
  by (simp add: parse_csum_def parse_cs_xor_def parse_cs_crc8_def cgw_chk_csum_parms_def
      parse_ccgw_def ex_tb_def ex_cs_tb_def ex_ccgw_def ex_cs_xor_def ex_h_simps Let_def
      ex_cs_job_def ex_job12_def)

lemma ex_cs_add:
  "cgw_create_job ex_h (ex_menv 10) ex_state0 (ex_req ex_cs_tb) =
     Some (Inr (), \<lparr>cgw_list = [(10, ex_cs_job)], can_rx = [rx_entry_of 10 ex_cs_job]\<rparr>)"
  unfolding create_job_after_parse [OF ex_head_ok ex_menv_simps(1) ex_cs_parse]
  by (simp add: ex_h_simps ex_req_simps ex_menv_simps
      ex_state0_def ex_cs_job_def ex_job12_def ex_job_def ex_ccgw_def rx_entry_of_def)

lemma ex_cs_rcv:
  "can_can_gw_rcv ex_h ex_env [ex_frame] ex_skb ex_cs_job =
     (ex_cs_job\<lparr>handled_frames := 1\<rparr>,
      [ex_frame, ex_frame\<lparr>data := [1, 2, 4, 8, 0, 0, 0, 0]\<rparr>],
      [Modfunc_called P_mod_set_data, Csum_xor_called,
       Can_send \<lparr>sk = CGW_SK_MAGIC, dev = 2, tstamp = 0, skb_data = 1\<rparr> 0])"
  by (simp add: can_can_gw_rcv_def ex_h_simps ex_env_def ex_skb_def ex_cs_job_def ex_job12_def
      ex_job_def CGW_SK_MAGIC_def cf_mod_init_def MAX_MODFUNCTIONS_def skb_copy_def
      modfunc_loop.simps csum_updates_def cgw_csum_do_xor_def cgw_csum_do_crc8_def
      ex_cs_xor_def CGW_CS_DISABLED_def mod_set_data_def ex_cs_set_def Let_def)

lemma ex_cs_spec:
  "spec_csum_xor (ex_frame\<lparr>data := [1, 2, 4, 8, 0, 0, 0, 0]\<rparr>) ex_cs_xor
     = ex_frame\<lparr>data := [1, 2, 4, 8, 0x0F, 0, 0, 0]\<rparr>"
  by (simp add: spec_csum_xor_def resolve_idx_def ex_cs_xor_def ex_frame_def Let_def upt_rec)

lemma ex_cs_only_parse_mods: "parse_mods ex_h ex_tb_cs_only = Some (cf_mod_init, 0)"
  by (simp add: parse_mods_def parse_mod_and_def parse_mod_or_def parse_mod_xor_def
      parse_mod_set_def ex_tb_def ex_tb_cs_only_def)

lemma ex_bad_cs_parse_mods:
  "parse_mods ex_h ex_tb_bad_cs =
     Some (cf_mod_init\<lparr>modframe_set := mb_cf ex_cs_set, modtype_set := 4,
                       modfunc := (replicate MAX_MODFUNCTIONS None)[0 := Some P_mod_set_data]\<rparr>, 1)"
  by (simp add: parse_mods_def parse_mod_and_def parse_mod_or_def parse_mod_xor_def
      parse_mod_set_def ex_tb_def ex_cs_tb_def ex_tb_bad_cs_def ex_h_simps modtype_bit_def
      set_modfunc_def canframecpy_def cf_mod_init_def zero_frame_def ex_cs_set_def Let_def
      MAX_MODFUNCTIONS_def)

lemma ex_long_cs_parse_mods:
  "parse_mods ex_h ex_tb_long_cs = Some (gwj_mod ex_set_job, 1)"
  by (simp add: parse_mods_def parse_mod_and_def parse_mod_or_def parse_mod_xor_def
      parse_mod_set_def ex_tb_def ex_cs_tb_def ex_tb_long_cs_def ex_h_simps modtype_bit_def
      set_modfunc_def canframecpy_def cf_mod_init_def zero_frame_def ex_cs_set_def Let_def
      MAX_MODFUNCTIONS_def ex_set_job_def ex_job12_def)

lemma ex_long_cs_parse:
  "cgw_parse_attr ex_h (ex_req ex_tb_long_cs) (CGW_TYPE_CAN_CAN ex_h) cin
     = Some (Inr (), gwj_mod ex_set_job, ex_ccgw\<lparr>dst_idx := 2\<rparr>)"
  using cgw_parse_attr_cases [OF ex_req_simps(2) ex_long_cs_parse_mods, of cin]
  by (simp add: parse_csum_def parse_cs_xor_def parse_cs_crc8_def
      parse_ccgw_def ex_tb_def ex_cs_tb_def ex_tb_long_cs_def ex_ccgw_def ex_h_simps Let_def)

lemma ex_long_cs_add:
  "cgw_create_job ex_h (ex_menv 10) ex_state0 (ex_req ex_tb_long_cs) =
     Some (Inr (), \<lparr>cgw_list = [(10, ex_set_job)], can_rx = [rx_entry_of 10 ex_set_job]\<rparr>)"
  unfolding create_job_after_parse [OF ex_head_ok ex_menv_simps(1) ex_long_cs_parse]
  by (simp add: ex_h_simps ex_req_simps ex_menv_simps
      ex_state0_def ex_set_job_def ex_job12_def ex_job_def ex_ccgw_def rx_entry_of_def)

section \<open>The claims\<close>

text \<open>
  Claim C1. When at least one modification function ran and the XOR checksum is enabled
  (its \<^verbatim>\<open>from_idx\<close> is not 42), the stage is to write
  \<open>data[result_idx] = init_xor_val XOR data[from_idx] XOR ... XOR data[to_idx]\<close>.
  The code calls \<^verbatim>\<open>cgw_csum_do_xor\<close> there, but the body of that function is empty
  (its comment marks the update as still to be done), so the frame leaves the stage as
  it entered it. The theorem runs the code on one input: the request with the table
  \<open>ex_cs_tb\<close> installs the job \<open>ex_cs_job\<close>, whose XOR checksum is enabled with the
  indices 0, 3 and 4; on a frame with dlc 5 the callback applies the SET, calls the
  checksum function and sends a frame whose byte 4 is still \<open>00\<close>, where the
  checksum of the claim (\<open>spec_csum_xor\<close>) has \<open>01 XOR 02 XOR 04 XOR 08 = 0F\<close>.
\<close>

theorem xor_checksum_stage_is_empty:
  "cgw_create_job ex_h (ex_menv 10) ex_state0 (ex_req ex_cs_tb) =
     Some (Inr (), \<lparr>cgw_list = [(10, ex_cs_job)], can_rx = [rx_entry_of 10 ex_cs_job]\<rparr>)
   \<and> csum_xor (gwj_mod ex_cs_job) = ex_cs_xor
   \<and> from_idx (csum_xor (gwj_mod ex_cs_job)) \<noteq> CGW_CS_DISABLED
   \<and> can_can_gw_rcv ex_h ex_env [ex_frame] ex_skb ex_cs_job =
       (ex_cs_job\<lparr>handled_frames := 1\<rparr>,
        [ex_frame, ex_frame\<lparr>data := [1, 2, 4, 8, 0, 0, 0, 0]\<rparr>],
        [Modfunc_called P_mod_set_data, Csum_xor_called,
         Can_send \<lparr>sk = CGW_SK_MAGIC, dev = 2, tstamp = 0, skb_data = 1\<rparr> 0])
   \<and> spec_csum_xor (ex_frame\<lparr>data := [1, 2, 4, 8, 0, 0, 0, 0]\<rparr>) ex_cs_xor
       = ex_frame\<lparr>data := [1, 2, 4, 8, 0x0F, 0, 0, 0]\<rparr>
   \<and> cgw_csum_do_xor m cf x = m"
  by (simp add: ex_cs_add ex_cs_rcv ex_cs_spec cgw_csum_do_xor_def)
     (simp add: ex_cs_job_def ex_cs_xor_def CGW_CS_DISABLED_def)

text \<open>
  Claim C2. A buffer that enters the hot path with the origin marker of the gateway
  (\<^verbatim>\<open>skb->sk == CGW_SK_MAGIC\<close>) makes it return at once: the job with both
  counters, the frame memory and the trace (no call of \<^verbatim>\<open>can_send\<close>) are as
  before. Every buffer the hot path hands to \<^verbatim>\<open>can_send\<close> carries the marker.
  So the chain of invocations that an unmarked frame starts for a job, also one whose
  source is its destination, ends within two rounds for every environment (\<open>gw_chain\<close>
  returns for any bound of two or more), and the frame is forwarded in it exactly once
  when the destination is up and the buffer is acquired, and not at all otherwise.
\<close>

theorem loop_suppression:
  "(sk skb = CGW_SK_MAGIC \<longrightarrow> can_can_gw_rcv h e m skb gwj = (gwj, m, []))
   \<and> (\<forall>nskb \<in> set (sent_skbs (snd (snd (can_can_gw_rcv h e m skb gwj)))). sk nskb = CGW_SK_MAGIC)
   \<and> (sk skb \<noteq> CGW_SK_MAGIC \<longrightarrow>
        (\<exists>gwj' m' tr. gw_chain (Suc (Suc n)) h es i m skb gwj = Some (gwj', m', tr)
           \<and> length (sent_skbs tr) =
               (if netdev_flags (es i) (dst_dev gwj) AND IFF_UP h \<noteq> 0 \<and> gfp_atomic_ok (es i)
                then 1 else 0)))"
proof (intro conjI impI)
  assume "sk skb = CGW_SK_MAGIC"
  then show "can_can_gw_rcv h e m skb gwj = (gwj, m, [])" by (rule rcv_marked)
next
  show "\<forall>nskb \<in> set (sent_skbs (snd (snd (can_can_gw_rcv h e m skb gwj)))). sk nskb = CGW_SK_MAGIC"
    by (simp add: sent_skbs_rcv sk_forwarded_skb)
next
  assume unmarked: "sk skb \<noteq> CGW_SK_MAGIC"
  obtain gwj1 m1 tr where R: "can_can_gw_rcv h (es i) m skb gwj = (gwj1, m1, tr)"
    by (cases "can_can_gw_rcv h (es i) m skb gwj") auto
  have S: "sent_skbs tr =
     (if netdev_flags (es i) (dst_dev gwj) AND IFF_UP h \<noteq> 0 \<and> gfp_atomic_ok (es i)
      then [forwarded_skb h m skb gwj] else [])"
    using sent_skbs_rcv [of h "es i" m skb gwj] R unmarked by simp
  show "\<exists>gwj' m' tr. gw_chain (Suc (Suc n)) h es i m skb gwj = Some (gwj', m', tr)
           \<and> length (sent_skbs tr) =
               (if netdev_flags (es i) (dst_dev gwj) AND IFF_UP h \<noteq> 0 \<and> gfp_atomic_ok (es i)
                then 1 else 0)"
  proof (cases "netdev_flags (es i) (dst_dev gwj) AND IFF_UP h \<noteq> 0 \<and> gfp_atomic_ok (es i)")
    case False
    with S have "sent_skbs tr = []" by simp
    with R False show ?thesis by simp
  next
    case True
    with S have S1: "sent_skbs tr = [forwarded_skb h m skb gwj]" by simp
    have again: "gw_chain (Suc n) h es (Suc i) m1 (forwarded_skb h m skb gwj) gwj1 = Some (gwj1, m1, [])"
      by (rule gw_chain_marked) (rule sk_forwarded_skb)
    show ?thesis
      using R S1 True again by (simp del: gw_chain.simps(2) add: gw_chain.simps(2) [of "Suc n"])
  qed
qed

theorem loop_suppression_witness:
  "can_can_gw_rcv ex_h ex_env [ex_frame] (ex_skb\<lparr>sk := CGW_SK_MAGIC\<rparr>) ex_job
     = (ex_job, [ex_frame], [])
   \<and> src_dev ex_job = dst_dev ex_job
   \<and> delivered_back ex_job [ex_frame] (forwarded_skb ex_h [ex_frame] ex_skb ex_job)
   \<and> (\<exists>gwj' m' tr. gw_chain (Suc (Suc 0)) ex_h (\<lambda>i. ex_env) 0 [ex_frame] ex_skb ex_job
          = Some (gwj', m', tr) \<and> length (sent_skbs tr) = 1)"
  using loop_suppression [of "ex_skb\<lparr>sk := CGW_SK_MAGIC\<rparr>" ex_h ex_env "[ex_frame]" ex_job 0
      "\<lambda>i. ex_env" 0]
    loop_suppression [of ex_skb ex_h ex_env "[ex_frame]" ex_job 0 "\<lambda>i. ex_env" 0]
  by (simp add: ex_skb_def CGW_SK_MAGIC_def ex_env_def ex_h_def ex_job_def delivered_back_def
      filter_admits_def forwarded_skb_def ex_ccgw_def cf_mod_init_def MAX_MODFUNCTIONS_def)

text \<open>
  Claim C3, as stated, does not hold: the scan is not in insertion order. After two
  ADD requests with the same specification, which put their jobs at the addresses 10
  and then 20, a DEL request with that specification removes the job at 20, the one
  inserted last, and leaves the state as it was after the first ADD; a scan in insertion
  order (\<open>spec_remove_first\<close>) removes the job at 10.
\<close>

theorem remove_job_newest_first_counterexample:
  "cgw_create_job ex_h (ex_menv 10) ex_state0 (ex_req ex_tb) = Some (Inr (), ex_state1)
   \<and> cgw_create_job ex_h (ex_menv 20) ex_state1 (ex_req ex_tb) = Some (Inr (), ex_state2)
   \<and> cgw_remove_job ex_h (ex_menv 0) ex_state2 (ex_req ex_tb) = Some (Inr (), ex_state1)
   \<and> cgw_list ex_state1 = [(10, ex_job12)]
   \<and> spec_remove_first (nlmsg_data (ex_req ex_tb)) cf_mod_init (ex_ccgw\<lparr>dst_idx := 2\<rparr>)
        (cgw_list ex_state2) = [(20, ex_job12)]"
  by (simp add: ex_add1 ex_add2 ex_del ex_spec_del) (simp add: ex_state1_def)

text \<open>
  Claim C3, amended. \<^verbatim>\<open>cgw_create_job\<close> puts a new job at the head of
  \<^verbatim>\<open>cgw_list\<close>, and for a DEL request whose interface indices are not both zero
  \<^verbatim>\<open>cgw_remove_job\<close> scans the list from the head, that is from the job inserted
  last to the one inserted first. It removes exactly the first job in that order whose
  flags, modification record and filter with interface indices equal those of the
  request (the node leaves the list and its filter is unregistered; every other job
  stays, in its order), and returns \<^verbatim>\<open>-EINVAL\<close> with the state unchanged when no
  job matches.
\<close>

theorem remove_job_first_from_head:
  assumes "head_ok h nlh"
    and "cgw_parse_attr h nlh (CGW_TYPE_CAN_CAN h) (uninit_ccgw e) = Some (Inr (), md, c)"
    and "\<not> (src_idx c = 0 \<and> dst_idx c = 0)"
    and "distinct (map fst (cgw_list s))"
  shows "((\<forall>pg \<in> set (cgw_list s). \<not> job_matches (nlmsg_data nlh) md c (snd pg)) \<longrightarrow>
            cgw_remove_job h e s nlh = Some (Inl EINVAL, s))
       \<and> (\<forall>pre p g post.
            cgw_list s = pre @ (p, g) # post
            \<and> (\<forall>pg \<in> set pre. \<not> job_matches (nlmsg_data nlh) md c (snd pg))
            \<and> job_matches (nlmsg_data nlh) md c g \<longrightarrow>
              cgw_remove_job h e s nlh =
                Some (Inr (), s\<lparr>cgw_list := pre @ post,
                                 can_rx := remove1 (rx_entry_of p g) (can_rx s)\<rparr>))
       \<and> (\<forall>e0 s0 nlh0 s1. cgw_create_job h e0 s0 nlh0 = Some (Inr (), s1) \<longrightarrow>
            (\<exists>p g. cgw_list s1 = (p, g) # cgw_list s0))"
proof (intro conjI allI impI)
  assume "\<forall>pg \<in> set (cgw_list s). \<not> job_matches (nlmsg_data nlh) md c (snd pg)"
  then show "cgw_remove_job h e s nlh = Some (Inl EINVAL, s)"
    using assms(3) by (auto simp add: remove_job_after_parse [OF assms(1,2)] remove_job_loop_none)
next
  fix pre p g post
  assume a: "cgw_list s = pre @ (p, g) # post
            \<and> (\<forall>pg \<in> set pre. \<not> job_matches (nlmsg_data nlh) md c (snd pg))
            \<and> job_matches (nlmsg_data nlh) md c g"
  then have "p \<notin> fst ` set pre" using assms(4) by auto
  then have u: "unlink_node p (cgw_list s) = pre @ post"
    using a by (simp add: unlink_node_distinct)
  have "remove_job_loop (nlmsg_data nlh) md c (cgw_list s) s =
          (Inr (), cgw_unregister_filter p g (hlist_del p s))"
    using a remove_job_loop_first [of pre "nlmsg_data nlh" md c g p post s] by simp
  then show "cgw_remove_job h e s nlh =
                Some (Inr (), s\<lparr>cgw_list := pre @ post,
                                 can_rx := remove1 (rx_entry_of p g) (can_rx s)\<rparr>)"
    using assms(3) u
    by (auto simp add: remove_job_after_parse [OF assms(1,2)] cgw_unregister_filter_def hlist_del_def)
next
  fix e0 s0 nlh0 s1
  assume "cgw_create_job h e0 s0 nlh0 = Some (Inr (), s1)"
  then show "\<exists>p g. cgw_list s1 = (p, g) # cgw_list s0" by (rule create_job_prepends)
qed

theorem remove_job_first_from_head_witness:
  "cgw_remove_job ex_h (ex_menv 0) ex_state0 (ex_req ex_tb) = Some (Inl EINVAL, ex_state0)
   \<and> cgw_remove_job ex_h (ex_menv 0) ex_state2 (ex_req ex_tb) =
        Some (Inr (), ex_state2\<lparr>cgw_list := [] @ [(10, ex_job12)],
                can_rx := remove1 (rx_entry_of 20 ex_job12) (can_rx ex_state2)\<rparr>)
   \<and> (\<exists>p g. cgw_list ex_state1 = (p, g) # cgw_list ex_state0)"
proof -
  have nz: "\<not> (src_idx (ex_ccgw\<lparr>dst_idx := 2\<rparr>) = 0 \<and> dst_idx (ex_ccgw\<lparr>dst_idx := 2\<rparr>) = 0)"
    by (simp add: ex_ccgw_def)
  have d0: "distinct (map fst (cgw_list ex_state0))" by (simp add: ex_state0_def)
  have d2: "distinct (map fst (cgw_list ex_state2))" by (simp add: ex_state2_def)
  have m: "job_matches (nlmsg_data (ex_req ex_tb)) cf_mod_init (ex_ccgw\<lparr>dst_idx := 2\<rparr>) ex_job12"
    by (simp add: job_matches_def ex_req_simps ex_job12_def ex_job_def)
  note t0 = remove_job_first_from_head [OF ex_head_ok ex_parse nz d0]
  note t2 = remove_job_first_from_head [OF ex_head_ok ex_parse nz d2]
  have a: "cgw_remove_job ex_h (ex_menv 0) ex_state0 (ex_req ex_tb) = Some (Inl EINVAL, ex_state0)"
    using t0 [THEN conjunct1] by (simp add: ex_state0_def)
  have b: "cgw_remove_job ex_h (ex_menv 0) ex_state2 (ex_req ex_tb) =
        Some (Inr (), ex_state2\<lparr>cgw_list := [] @ [(10, ex_job12)],
                can_rx := remove1 (rx_entry_of 20 ex_job12) (can_rx ex_state2)\<rparr>)"
    using t2 [THEN conjunct2, THEN conjunct1, rule_format, of "[]" 20 ex_job12 "[(10, ex_job12)]"] m
    by (simp add: ex_state2_def)
  have c: "\<exists>p g. cgw_list ex_state1 = (p, g) # cgw_list ex_state0"
    using t0 [THEN conjunct2, THEN conjunct2, rule_format, OF ex_add1] .
  from a b c show ?thesis by blast
qed

text \<open>
  Claim C4. Every invocation of the hot path on a frame that is not suppressed (its
  buffer does not carry the origin marker) increments exactly one of the job's two
  counters by one: \<^verbatim>\<open>dropped_frames\<close> when the destination device is down, when the
  buffer cannot be acquired or when \<^verbatim>\<open>can_send\<close> fails, \<^verbatim>\<open>handled_frames\<close> when
  \<^verbatim>\<open>can_send\<close> succeeds; never both, and nothing else of the job changes. The
  callback returns no value, so no error reaches the management channel: all that
  \<^verbatim>\<open>can_can_gw_rcv\<close> yields is the job, the frame memory and the trace.
\<close>

theorem hot_path_counts_exactly_one:
  assumes "sk skb \<noteq> CGW_SK_MAGIC"
  shows "let gwj' = fst (can_can_gw_rcv h e m skb gwj);
             dropping = (netdev_flags e (dst_dev gwj) AND IFF_UP h = 0 \<or> \<not> gfp_atomic_ok e
                         \<or> can_send_ret e \<noteq> 0)
         in gwj' = (if dropping then gwj\<lparr>dropped_frames := dropped_frames gwj + 1\<rparr>
                    else gwj\<lparr>handled_frames := handled_frames gwj + 1\<rparr>)
            \<and> (dropping \<longrightarrow> dropped_frames gwj' = dropped_frames gwj + 1
                             \<and> handled_frames gwj' = handled_frames gwj)
            \<and> (\<not> dropping \<longrightarrow> handled_frames gwj' = handled_frames gwj + 1
                             \<and> dropped_frames gwj' = dropped_frames gwj)
            \<and> (dropped_frames gwj' \<noteq> dropped_frames gwj) \<noteq> (handled_frames gwj' \<noteq> handled_frames gwj)"
proof -
  have "fst (can_can_gw_rcv h e m skb gwj) =
     (if netdev_flags e (dst_dev gwj) AND IFF_UP h = 0 \<or> \<not> gfp_atomic_ok e \<or> can_send_ret e \<noteq> 0
      then gwj\<lparr>dropped_frames := dropped_frames gwj + 1\<rparr>
      else gwj\<lparr>handled_frames := handled_frames gwj + 1\<rparr>)"
    using assms rcv_cases [of h e m skb gwj] by auto
  then show ?thesis by (simp add: Let_def)
qed

theorem hot_path_counts_exactly_one_witness:
  "handled_frames (fst (can_can_gw_rcv ex_h ex_env [ex_frame] ex_skb ex_job)) = 1
   \<and> dropped_frames (fst (can_can_gw_rcv ex_h ex_env [ex_frame] ex_skb ex_job)) = 0
   \<and> dropped_frames (fst (can_can_gw_rcv ex_h ex_env_down [ex_frame] ex_skb ex_job)) = 1
   \<and> handled_frames (fst (can_can_gw_rcv ex_h ex_env_down [ex_frame] ex_skb ex_job)) = 0"
proof -
  have u: "sk ex_skb \<noteq> CGW_SK_MAGIC" by (simp add: ex_skb_def CGW_SK_MAGIC_def)
  show ?thesis
    using hot_path_counts_exactly_one [OF u, of ex_h ex_env "[ex_frame]" ex_job]
      hot_path_counts_exactly_one [OF u, of ex_h ex_env_down "[ex_frame]" ex_job]
    by (simp add: Let_def ex_env_def ex_env_down_def ex_h_def ex_job_def)
qed

text \<open>
  Claim C5. In every invocation of the hot path the checksum functions are called only
  when at least one modification function was called, after all of them, and in the
  order XOR, then CRC8: the checksum calls of the trace are those of the enabled stages
  in that order when the trace has a modification call, and none otherwise. Likewise
  in the parser: when no function was appended (\<open>k = 0\<close>) both stages are left
  disabled whatever checksum attributes the request carries; when one was appended and
  the parser returns without error, each stage holds the configuration of its
  attribute, and stays disabled when the request carries none.
\<close>

theorem checksum_stages_after_modification:
  "(let tr = snd (snd (can_can_gw_rcv h e m skb gwj))
    in filter is_csum tr =
         (if filter is_modfunc tr \<noteq> [] then
            (if from_idx (csum_xor (gwj_mod gwj)) \<noteq> CGW_CS_DISABLED then [Csum_xor_called] else []) @
            (if crc8_from_idx (csum_crc8 (gwj_mod gwj)) \<noteq> CGW_CS_DISABLED then [Csum_crc8_called] else [])
          else [])
       \<and> (\<exists>fs rest. tr = map Modfunc_called fs @ filter is_csum tr @ rest
            \<and> filter is_modfunc rest = [] \<and> filter is_csum rest = []))
   \<and> (nlmsg_parse nlh = Inr tb \<and> parse_mods h tb = Some (md0, k)
        \<and> cgw_parse_attr h nlh gwt cin = Some (ret, md, c) \<longrightarrow>
        (k = 0 \<longrightarrow> from_idx (csum_xor md) = CGW_CS_DISABLED
                  \<and> crc8_from_idx (csum_crc8 md) = CGW_CS_DISABLED)
        \<and> (k \<noteq> 0 \<and> ret = Inr () \<longrightarrow>
             (case cs_xor_attr h tb of
                None \<Rightarrow> from_idx (csum_xor md) = CGW_CS_DISABLED
              | Some x \<Rightarrow> csum_xor md = x)
           \<and> (case cs_crc8_attr h tb of
                None \<Rightarrow> crc8_from_idx (csum_crc8 md) = CGW_CS_DISABLED
              | Some y \<Rightarrow> csum_crc8 md = y)))"
proof (rule conjI)
  let ?tr = "snd (snd (can_can_gw_rcv h e m skb gwj))"
  have fm: "filter is_modfunc (map Modfunc_called fs) = map Modfunc_called fs" for fs
    by (induction fs) simp_all
  have fc: "filter is_modfunc (csum_trace md) = []" for md
    by (simp add: csum_trace_def)
  have main: "filter is_csum ?tr = (if filter is_modfunc ?tr \<noteq> [] then csum_trace (gwj_mod gwj) else [])
       \<and> (\<exists>fs rest. ?tr = map Modfunc_called fs @ filter is_csum ?tr @ rest
            \<and> filter is_modfunc rest = [] \<and> filter is_csum rest = [])"
  proof (cases rule: rcv_casesE [of skb h e m gwj])
    case marked
    then show ?thesis by simp
  next
    case dropped
    then show ?thesis by simp
  next
    case (forwarded fs m1)
    let ?send = "Can_send (forwarded_skb h m skb gwj) (flags gwj AND CGW_FLAGS_CAN_ECHO h)"
    let ?cs = "if fs = [] then [] else csum_trace (gwj_mod gwj)"
    from forwarded have sent: "?tr = map Modfunc_called fs @ ?cs @ [?send]"
      by simp
    have c: "filter is_csum ?tr = ?cs"
      unfolding sent by (simp add: filter_csum_modfuncs filter_csum_csum_trace)
    have f: "filter is_modfunc ?tr = map Modfunc_called fs"
      unfolding sent by (simp add: fm fc)
    have "?tr = map Modfunc_called fs @ filter is_csum ?tr @ [?send]"
      unfolding c by (rule sent)
    moreover have "filter is_modfunc [?send] = [] \<and> filter is_csum [?send] = []"
      by simp
    ultimately have "\<exists>fs rest. ?tr = map Modfunc_called fs @ filter is_csum ?tr @ rest
            \<and> filter is_modfunc rest = [] \<and> filter is_csum rest = []"
      by blast
    moreover have "filter is_csum ?tr = (if filter is_modfunc ?tr \<noteq> [] then csum_trace (gwj_mod gwj) else [])"
      unfolding c f by simp
    ultimately show ?thesis by blast
  qed
  from main show "let tr = ?tr
    in filter is_csum tr =
         (if filter is_modfunc tr \<noteq> [] then
            (if from_idx (csum_xor (gwj_mod gwj)) \<noteq> CGW_CS_DISABLED then [Csum_xor_called] else []) @
            (if crc8_from_idx (csum_crc8 (gwj_mod gwj)) \<noteq> CGW_CS_DISABLED then [Csum_crc8_called] else [])
          else [])
       \<and> (\<exists>fs rest. tr = map Modfunc_called fs @ filter is_csum tr @ rest
            \<and> filter is_modfunc rest = [] \<and> filter is_csum rest = [])"
    unfolding Let_def csum_trace_def .
next
  show "nlmsg_parse nlh = Inr tb \<and> parse_mods h tb = Some (md0, k)
        \<and> cgw_parse_attr h nlh gwt cin = Some (ret, md, c) \<longrightarrow>
        (k = 0 \<longrightarrow> from_idx (csum_xor md) = CGW_CS_DISABLED
                  \<and> crc8_from_idx (csum_crc8 md) = CGW_CS_DISABLED)
        \<and> (k \<noteq> 0 \<and> ret = Inr () \<longrightarrow>
             (case cs_xor_attr h tb of
                None \<Rightarrow> from_idx (csum_xor md) = CGW_CS_DISABLED
              | Some x \<Rightarrow> csum_xor md = x)
           \<and> (case cs_crc8_attr h tb of
                None \<Rightarrow> crc8_from_idx (csum_crc8 md) = CGW_CS_DISABLED
              | Some y \<Rightarrow> csum_crc8 md = y))"
  proof (intro impI, elim conjE)
    assume np: "nlmsg_parse nlh = Inr tb" and pm: "parse_mods h tb = Some (md0, k)"
      and pa: "cgw_parse_attr h nlh gwt cin = Some (ret, md, c)"
    note dis = parse_mods_csum [OF pm]
    from cgw_parse_attr_mod [OF np pm pa]
    have md: "md = snd (parse_csum h tb (md0, k))"
      and ok: "ret = Inr () \<longrightarrow> fst (parse_csum h tb (md0, k)) = Inr ()"
      by auto
    have zero: "k = 0 \<longrightarrow> from_idx (csum_xor md) = CGW_CS_DISABLED
                  \<and> crc8_from_idx (csum_crc8 md) = CGW_CS_DISABLED"
      using md dis by (auto simp: parse_csum_zero)
    have nonzero: "k \<noteq> 0 \<and> ret = Inr () \<longrightarrow>
             (case cs_xor_attr h tb of
                None \<Rightarrow> from_idx (csum_xor md) = CGW_CS_DISABLED
              | Some x \<Rightarrow> csum_xor md = x)
           \<and> (case cs_crc8_attr h tb of
                None \<Rightarrow> crc8_from_idx (csum_crc8 md) = CGW_CS_DISABLED
              | Some y \<Rightarrow> csum_crc8 md = y)"
    proof (intro impI, elim conjE)
      assume k: "k \<noteq> 0" and r: "ret = Inr ()"
      from ok r have f: "fst (parse_csum h tb (md0, k)) = Inr ()" by simp
      show "(case cs_xor_attr h tb of
                None \<Rightarrow> from_idx (csum_xor md) = CGW_CS_DISABLED
              | Some x \<Rightarrow> csum_xor md = x)
           \<and> (case cs_crc8_attr h tb of
                None \<Rightarrow> crc8_from_idx (csum_crc8 md) = CGW_CS_DISABLED
              | Some y \<Rightarrow> csum_crc8 md = y)"
        using f dis unfolding md parse_csum_nonzero [OF k]
        by (auto split: option.splits if_splits)
    qed
    from zero nonzero
    show "(k = 0 \<longrightarrow> from_idx (csum_xor md) = CGW_CS_DISABLED
                  \<and> crc8_from_idx (csum_crc8 md) = CGW_CS_DISABLED)
        \<and> (k \<noteq> 0 \<and> ret = Inr () \<longrightarrow>
             (case cs_xor_attr h tb of
                None \<Rightarrow> from_idx (csum_xor md) = CGW_CS_DISABLED
              | Some x \<Rightarrow> csum_xor md = x)
           \<and> (case cs_crc8_attr h tb of
                None \<Rightarrow> crc8_from_idx (csum_crc8 md) = CGW_CS_DISABLED
              | Some y \<Rightarrow> csum_crc8 md = y))"
      by blast
  qed
qed

theorem checksum_stages_after_modification_witness:
  "filter is_csum (snd (snd (can_can_gw_rcv ex_h ex_env [ex_frame] ex_skb ex_cs_job)))
     = [Csum_xor_called]
   \<and> filter is_csum (snd (snd (can_can_gw_rcv ex_h ex_env [ex_frame] ex_skb ex_job))) = []
   \<and> tb_CGW_CS_XOR ex_tb_cs_only = Some \<lparr>nla_len = 4, nla_data = ex_cs_xor\<rparr>
   \<and> from_idx (csum_xor (gwj_mod ex_job)) = CGW_CS_DISABLED
   \<and> csum_xor (gwj_mod ex_cs_job) = ex_cs_xor"
proof -
  have p0: "cgw_parse_attr ex_h (ex_req ex_tb_cs_only) (CGW_TYPE_CAN_CAN ex_h) ex_ccgw
              = Some (Inr (), gwj_mod ex_job, ex_ccgw\<lparr>dst_idx := 2\<rparr>)"
    using cgw_parse_attr_cases [OF ex_req_simps(2) ex_cs_only_parse_mods, of ex_ccgw]
    by (simp add: parse_csum_def parse_ccgw_def ex_tb_def ex_tb_cs_only_def ex_ccgw_def Let_def
        ex_job_def)
  have x: "cs_xor_attr ex_h ex_cs_tb = Some ex_cs_xor" "cs_crc8_attr ex_h ex_cs_tb = None"
    by (simp_all add: cs_xor_attr_def cs_crc8_attr_def ex_cs_tb_def ex_tb_def ex_h_simps)
  note a = checksum_stages_after_modification
    [of ex_h ex_env "[ex_frame]" ex_skb ex_cs_job "ex_req ex_cs_tb" ex_cs_tb _ 1
      "CGW_TYPE_CAN_CAN ex_h" ex_ccgw "Inr ()" "gwj_mod ex_cs_job" "ex_ccgw\<lparr>dst_idx := 2\<rparr>",
      unfolded ex_cs_rcv Let_def, simplified]
  note b = checksum_stages_after_modification
    [of ex_h ex_env "[ex_frame]" ex_skb ex_job "ex_req ex_tb_cs_only" ex_tb_cs_only cf_mod_init 0
      "CGW_TYPE_CAN_CAN ex_h" ex_ccgw "Inr ()" "gwj_mod ex_job" "ex_ccgw\<lparr>dst_idx := 2\<rparr>"]
  have c1: "filter is_csum (snd (snd (can_can_gw_rcv ex_h ex_env [ex_frame] ex_skb ex_cs_job)))
     = [Csum_xor_called]"
    by (simp add: ex_cs_rcv)
  have c2: "filter is_csum (snd (snd (can_can_gw_rcv ex_h ex_env [ex_frame] ex_skb ex_job))) = []"
    using b [THEN conjunct1]
    by (simp add: Let_def ex_job_def cf_mod_init_def CGW_CS_DISABLED_def)
  have c3: "tb_CGW_CS_XOR ex_tb_cs_only = Some \<lparr>nla_len = 4, nla_data = ex_cs_xor\<rparr>"
    by (simp add: ex_tb_cs_only_def)
  have c4: "from_idx (csum_xor (gwj_mod ex_job)) = CGW_CS_DISABLED"
    using b [THEN conjunct2] p0 ex_cs_only_parse_mods by (simp add: ex_req_simps)
  have c5: "csum_xor (gwj_mod ex_cs_job) = ex_cs_xor"
    using a ex_cs_parse [of ex_ccgw] ex_cs_parse_mods x by (simp add: ex_req_simps)
  from c1 c2 c3 c4 c5 show ?thesis by blast
qed



text \<open>
  Claim C7, as stated, does not hold: the error is not invalid-arg. An ADD request
  without the \<^verbatim>\<open>CGW_SRC_IF\<close> attribute returns \<^verbatim>\<open>-ENODEV\<close>.
\<close>

theorem add_without_src_if_counterexample:
  "cgw_create_job ex_h (ex_menv 10) ex_state0 (ex_req ex_tb_no_src) = Some (Inl ENODEV, ex_state0)
   \<and> tb_CGW_SRC_IF ex_tb_no_src = None \<and> ENODEV \<noteq> EINVAL"
proof -
  have pm: "parse_mods ex_h ex_tb_no_src = Some (cf_mod_init, 0)"
    by (simp add: parse_mods_def parse_mod_and_def parse_mod_or_def parse_mod_xor_def
        parse_mod_set_def ex_tb_def ex_tb_no_src_def)
  have "\<exists>md c. cgw_parse_attr ex_h (ex_req ex_tb_no_src) (CGW_TYPE_CAN_CAN ex_h) cin
          = Some (Inl ENODEV, md, c)" for cin
    using cgw_parse_attr_cases [OF ex_req_simps(2) pm, of cin]
    by (simp add: parse_csum_def parse_ccgw_def ex_tb_def ex_tb_no_src_def Let_def)
  from create_job_parse_failed [OF this, of "ex_menv 10" ex_state0]
  show ?thesis
    by (simp add: ex_head_ok ex_menv_simps ex_tb_no_src_def)
qed

text \<open>
  Claim C7, amended. An ADD request in which \<^verbatim>\<open>CGW_SRC_IF\<close> or \<^verbatim>\<open>CGW_DST_IF\<close> is
  absent, or whose parsed source or destination index is zero (both zero included),
  fails and changes nothing: no job is added and no filter is registered. The error is
  \<^verbatim>\<open>-ENODEV\<close> (no-dev) whenever the head of the request is in order, the job is
  allocated and the checksum indices pass; otherwise it is the error of the earlier
  check. A DEL request whose two indices are both present and zero removes all jobs.
\<close>

theorem add_with_zero_index_fails_nodev:
  assumes "nlmsg_parse nlh = Inr tb"
  shows "(tb_CGW_SRC_IF tb = None \<or> tb_CGW_DST_IF tb = None
          \<or> parsed_src_idx tb = 0 \<or> parsed_dst_idx tb = 0 \<longrightarrow>
            (\<exists>err. cgw_create_job h e s nlh = Some (Inl err, s))
            \<and> (head_ok h nlh \<and> kmem_cache_alloc e \<noteq> None \<and> csum_passes h tb \<longrightarrow>
                 cgw_create_job h e s nlh = Some (Inl ENODEV, s)))
       \<and> (head_ok h nlh \<and> csum_passes h tb
          \<and> tb_CGW_SRC_IF tb \<noteq> None \<and> tb_CGW_DST_IF tb \<noteq> None
          \<and> parsed_src_idx tb = 0 \<and> parsed_dst_idx tb = 0 \<longrightarrow>
            (\<exists>s'. cgw_remove_job h e s nlh = Some (Inr (), s') \<and> cgw_list s' = []))"
proof (intro conjI impI)
  obtain md0 k where pm: "parse_mods h tb = Some (md0, k)"
    using parse_mods_Some by blast
  note pc = cgw_parse_attr_cases [OF assms pm]
  assume bad: "tb_CGW_SRC_IF tb = None \<or> tb_CGW_DST_IF tb = None
          \<or> parsed_src_idx tb = 0 \<or> parsed_dst_idx tb = 0"
  have cases3: "(\<forall>cin. \<exists>md c. cgw_parse_attr h nlh (CGW_TYPE_CAN_CAN h) cin = Some (Inl EINVAL, md, c))
      \<and> \<not> csum_passes h tb
    \<or> (\<forall>cin. \<exists>md c. cgw_parse_attr h nlh (CGW_TYPE_CAN_CAN h) cin = Some (Inl ENODEV, md, c))
    \<or> (\<forall>cin. \<exists>md c. cgw_parse_attr h nlh (CGW_TYPE_CAN_CAN h) cin = Some (Inr (), md, c)
           \<and> (src_idx c = 0 \<or> dst_idx c = 0))"
  proof (cases "fst (parse_csum h tb (md0, k))")
    case (Inl err)
    then show ?thesis by (simp add: pc csum_passes_def pm)
  next
    case (Inr u)
    show ?thesis
    proof (cases "tb_CGW_SRC_IF tb = None \<or> tb_CGW_DST_IF tb = None")
      case True
      with Inr show ?thesis by (simp add: pc parse_ccgw_ret)
    next
      case False
      then have pres: "tb_CGW_SRC_IF tb \<noteq> None" "tb_CGW_DST_IF tb \<noteq> None" by auto
      from bad False have z: "parsed_src_idx tb = 0 \<or> parsed_dst_idx tb = 0" by auto
      show ?thesis
      proof (cases "parsed_src_idx tb = 0 \<and> parsed_dst_idx tb = 0")
        case True
        with Inr pres parse_ccgw_idx [OF pres] show ?thesis
          by (simp add: pc parse_ccgw_ret)
      next
        case False
        with Inr pres z show ?thesis
          by (auto simp add: pc parse_ccgw_ret)
      qed
    qed
  qed
  show "\<exists>err. cgw_create_job h e s nlh = Some (Inl err, s)"
    using cases3 create_job_parse_failed [of h nlh EINVAL e s]
      create_job_parse_failed [of h nlh ENODEV e s] create_job_zero_idx [of h nlh e s]
    by blast
  assume ok: "head_ok h nlh \<and> kmem_cache_alloc e \<noteq> None \<and> csum_passes h tb"
  show "cgw_create_job h e s nlh = Some (Inl ENODEV, s)"
    using cases3 ok create_job_parse_failed [of h nlh ENODEV e s] create_job_zero_idx [of h nlh e s]
    by blast
next
  obtain md0 k where pm: "parse_mods h tb = Some (md0, k)"
    using parse_mods_Some by blast
  note pc = cgw_parse_attr_cases [OF assms pm]
  assume a: "head_ok h nlh \<and> csum_passes h tb
          \<and> tb_CGW_SRC_IF tb \<noteq> None \<and> tb_CGW_DST_IF tb \<noteq> None
          \<and> parsed_src_idx tb = 0 \<and> parsed_dst_idx tb = 0"
  then have pres: "tb_CGW_SRC_IF tb \<noteq> None" "tb_CGW_DST_IF tb \<noteq> None" by auto
  from a have cs: "fst (parse_csum h tb (md0, k)) = Inr ()"
    by (simp add: csum_passes_def pm)
  have "cgw_parse_attr h nlh (CGW_TYPE_CAN_CAN h) (uninit_ccgw e)
        = Some (Inr (), snd (parse_csum h tb (md0, k)), snd (parse_ccgw tb))"
    using a cs by (simp add: pc parse_ccgw_ret)
  from remove_job_after_parse [OF _ this, of s] a parse_ccgw_idx [OF pres]
  show "\<exists>s'. cgw_remove_job h e s nlh = Some (Inr (), s') \<and> cgw_list s' = []"
    by (simp add: remove_all_jobs_empty)
qed

theorem add_with_zero_index_fails_nodev_witness:
  "cgw_create_job ex_h (ex_menv 10) ex_state2 (ex_req ex_tb_no_src) = Some (Inl ENODEV, ex_state2)
   \<and> (\<exists>s'. cgw_remove_job ex_h (ex_menv 0) ex_state2 (ex_req ex_tb_flush) = Some (Inr (), s')
         \<and> cgw_list s' = [])"
  using add_with_zero_index_fails_nodev [OF ex_req_simps(2), of ex_tb_no_src ex_h "ex_menv 10" ex_state2]
    add_with_zero_index_fails_nodev [OF ex_req_simps(2), of ex_tb_flush ex_h "ex_menv 0" ex_state2]
    ex_csum_passes
  by (simp add: ex_head_ok ex_menv_simps ex_tb_no_src_def ex_tb_flush_def ex_tb_def
      parsed_src_idx_def parsed_dst_idx_def)

text \<open>
  Claim C8, as stated, does not hold for every request that carries a \<^verbatim>\<open>CGW_CS_XOR\<close>
  attribute: the parser reads the attribute only if its length is that of the struct.
  An ADD request with \<^verbatim>\<open>CGW_MOD_SET\<close> on DATA (one function appended) and a
  \<^verbatim>\<open>CGW_CS_XOR\<close> attribute of length 5 whose \<^verbatim>\<open>to_idx\<close> is 8, outside \<open>-8..7\<close>,
  is parsed without error and its job is installed, the XOR stage disabled.
\<close>

theorem wrong_length_checksum_counterexample:
  "tb_CGW_CS_XOR ex_tb_long_cs = Some \<lparr>nla_len = 5, nla_data = ex_cs_xor\<lparr>to_idx := 8\<rparr>\<rparr>
   \<and> \<not> idx_in_domain (to_idx (ex_cs_xor\<lparr>to_idx := 8\<rparr>))
   \<and> parse_mods ex_h ex_tb_long_cs = Some (gwj_mod ex_set_job, 1)
   \<and> cgw_parse_attr ex_h (ex_req ex_tb_long_cs) (CGW_TYPE_CAN_CAN ex_h) ex_ccgw
       = Some (Inr (), gwj_mod ex_set_job, ex_ccgw\<lparr>dst_idx := 2\<rparr>)
   \<and> cgw_create_job ex_h (ex_menv 10) ex_state0 (ex_req ex_tb_long_cs) =
       Some (Inr (), \<lparr>cgw_list = [(10, ex_set_job)], can_rx = [rx_entry_of 10 ex_set_job]\<rparr>)
   \<and> from_idx (csum_xor (gwj_mod ex_set_job)) = CGW_CS_DISABLED"
  by (simp add: ex_long_cs_parse_mods ex_long_cs_parse ex_long_cs_add)
     (simp add: ex_tb_long_cs_def idx_in_domain_def ex_set_job_def cf_mod_init_def)

text \<open>
  Claim C8, amended. For a request that carries a \<^verbatim>\<open>CGW_CS_XOR\<close> or \<^verbatim>\<open>CGW_CS_CRC8\<close>
  attribute with the length of its struct, with at least one modification function
  appended (\<open>k \<noteq> 0\<close>): the parser returns without error only if the three indices of
  the attribute lie in \<open>-8..7\<close>; with an index outside, the parser returns
  \<^verbatim>\<open>-EINVAL\<close>, and \<^verbatim>\<open>cgw_create_job\<close> fails with the state unchanged, so no job is
  installed, with \<^verbatim>\<open>-EINVAL\<close> when the head of the request is in order and the job is
  allocated. A \<^verbatim>\<open>CGW_CS_XOR\<close> or \<^verbatim>\<open>CGW_CS_CRC8\<close> attribute of any other length is
  skipped unread: the parser's result is that of the same request without the
  attribute, and whenever the request carries no attribute of the right length the
  stage of the parsed record is \<^verbatim>\<open>CGW_CS_DISABLED\<close>.
\<close>

theorem checksum_indices_validated:
  assumes "nlmsg_parse nlh = Inr tb" and "parse_mods h tb = Some (md0, k)" and "k \<noteq> 0"
  shows "(\<forall>x. cs_xor_attr h tb = Some x \<longrightarrow>
            (\<forall>cin md c. cgw_parse_attr h nlh (CGW_TYPE_CAN_CAN h) cin = Some (Inr (), md, c)
               \<longrightarrow> xor_indices_in_domain x)
            \<and> (\<not> xor_indices_in_domain x \<longrightarrow>
                 (\<forall>cin. \<exists>md. cgw_parse_attr h nlh (CGW_TYPE_CAN_CAN h) cin = Some (Inl EINVAL, md, cin))
                 \<and> (\<exists>err. cgw_create_job h e s nlh = Some (Inl err, s))
                 \<and> (head_ok h nlh \<and> kmem_cache_alloc e \<noteq> None \<longrightarrow>
                      cgw_create_job h e s nlh = Some (Inl EINVAL, s))))
       \<and> (\<forall>y. cs_crc8_attr h tb = Some y \<longrightarrow>
            (\<forall>cin md c. cgw_parse_attr h nlh (CGW_TYPE_CAN_CAN h) cin = Some (Inr (), md, c)
               \<longrightarrow> crc8_indices_in_domain y)
            \<and> (\<not> crc8_indices_in_domain y \<longrightarrow>
                 (\<forall>cin. \<exists>md. cgw_parse_attr h nlh (CGW_TYPE_CAN_CAN h) cin = Some (Inl EINVAL, md, cin))
                 \<and> (\<exists>err. cgw_create_job h e s nlh = Some (Inl err, s))
                 \<and> (head_ok h nlh \<and> kmem_cache_alloc e \<noteq> None \<longrightarrow>
                      cgw_create_job h e s nlh = Some (Inl EINVAL, s))))
       \<and> (\<forall>a cin. tb_CGW_CS_XOR tb = Some a \<and> nla_len a \<noteq> CGW_CS_XOR_LEN h \<longrightarrow>
            cgw_parse_attr h nlh (CGW_TYPE_CAN_CAN h) cin =
            cgw_parse_attr h (nlh\<lparr>nlmsg_parse := Inr (tb\<lparr>tb_CGW_CS_XOR := None\<rparr>)\<rparr>)
              (CGW_TYPE_CAN_CAN h) cin)
       \<and> (\<forall>a cin. tb_CGW_CS_CRC8 tb = Some a \<and> nla_len a \<noteq> CGW_CS_CRC8_LEN h \<longrightarrow>
            cgw_parse_attr h nlh (CGW_TYPE_CAN_CAN h) cin =
            cgw_parse_attr h (nlh\<lparr>nlmsg_parse := Inr (tb\<lparr>tb_CGW_CS_CRC8 := None\<rparr>)\<rparr>)
              (CGW_TYPE_CAN_CAN h) cin)
       \<and> (\<forall>cin ret md c. cs_xor_attr h tb = None
              \<and> cgw_parse_attr h nlh (CGW_TYPE_CAN_CAN h) cin = Some (ret, md, c) \<longrightarrow>
            from_idx (csum_xor md) = CGW_CS_DISABLED)
       \<and> (\<forall>cin ret md c. cs_crc8_attr h tb = None
              \<and> cgw_parse_attr h nlh (CGW_TYPE_CAN_CAN h) cin = Some (ret, md, c) \<longrightarrow>
            crc8_from_idx (csum_crc8 md) = CGW_CS_DISABLED)"
proof -
  note pc = cgw_parse_attr_cases [OF assms(1,2)]
  note pn = parse_csum_nonzero [OF assms(3), of h tb md0]
  have rejected: "(\<forall>cin. \<exists>md. cgw_parse_attr h nlh (CGW_TYPE_CAN_CAN h) cin = Some (Inl EINVAL, md, cin))
                 \<and> (\<exists>err. cgw_create_job h e s nlh = Some (Inl err, s))
                 \<and> (head_ok h nlh \<and> kmem_cache_alloc e \<noteq> None \<longrightarrow>
                      cgw_create_job h e s nlh = Some (Inl EINVAL, s))"
    if "fst (parse_csum h tb (md0, k)) = Inl EINVAL"
  proof -
    have p: "cgw_parse_attr h nlh (CGW_TYPE_CAN_CAN h) cin
               = Some (Inl EINVAL, snd (parse_csum h tb (md0, k)), cin)" for cin
      using that by (simp add: pc)
    then have "\<exists>md c. cgw_parse_attr h nlh (CGW_TYPE_CAN_CAN h) cin = Some (Inl EINVAL, md, c)" for cin
      by blast
    from create_job_parse_failed [OF this, of e s] p show ?thesis by blast
  qed
  have accepted: "fst (parse_csum h tb (md0, k)) = Inr ()"
    if "cgw_parse_attr h nlh (CGW_TYPE_CAN_CAN h) cin = Some (Inr (), md, c)" for cin md c
    using that by (cases "fst (parse_csum h tb (md0, k))") (simp_all add: pc)
  have x1: "xor_indices_in_domain x"
    if "cs_xor_attr h tb = Some x"
      and "cgw_parse_attr h nlh (CGW_TYPE_CAN_CAN h) cin = Some (Inr (), md, c)" for x cin md c
    using that accepted [of cin md c] by (simp add: pn split: if_splits)
  have x2: "fst (parse_csum h tb (md0, k)) = Inl EINVAL"
    if "cs_xor_attr h tb = Some x" and "\<not> xor_indices_in_domain x" for x
    using that by (simp add: pn)
  have y1: "crc8_indices_in_domain y"
    if "cs_crc8_attr h tb = Some y"
      and "cgw_parse_attr h nlh (CGW_TYPE_CAN_CAN h) cin = Some (Inr (), md, c)" for y cin md c
    using that accepted [of cin md c] by (simp add: pn split: if_splits option.splits)
  have y2: "fst (parse_csum h tb (md0, k)) = Inl EINVAL"
    if "cs_crc8_attr h tb = Some y" and "\<not> crc8_indices_in_domain y" for y
    using that by (simp add: pn split: option.splits)
  have xpart: "(\<forall>cin md c. cgw_parse_attr h nlh (CGW_TYPE_CAN_CAN h) cin = Some (Inr (), md, c)
               \<longrightarrow> xor_indices_in_domain x)
            \<and> (\<not> xor_indices_in_domain x \<longrightarrow>
                 (\<forall>cin. \<exists>md. cgw_parse_attr h nlh (CGW_TYPE_CAN_CAN h) cin = Some (Inl EINVAL, md, cin))
                 \<and> (\<exists>err. cgw_create_job h e s nlh = Some (Inl err, s))
                 \<and> (head_ok h nlh \<and> kmem_cache_alloc e \<noteq> None \<longrightarrow>
                      cgw_create_job h e s nlh = Some (Inl EINVAL, s)))"
    if "cs_xor_attr h tb = Some x" for x
  proof (intro conjI; (rule impI)?)
    show "\<forall>cin md c. cgw_parse_attr h nlh (CGW_TYPE_CAN_CAN h) cin = Some (Inr (), md, c)
               \<longrightarrow> xor_indices_in_domain x"
      using x1 [OF that] by blast
  next
    assume "\<not> xor_indices_in_domain x"
    from rejected [OF x2 [OF that this]]
    show "(\<forall>cin. \<exists>md. cgw_parse_attr h nlh (CGW_TYPE_CAN_CAN h) cin = Some (Inl EINVAL, md, cin))
                 \<and> (\<exists>err. cgw_create_job h e s nlh = Some (Inl err, s))
                 \<and> (head_ok h nlh \<and> kmem_cache_alloc e \<noteq> None \<longrightarrow>
                      cgw_create_job h e s nlh = Some (Inl EINVAL, s))" .
  qed
  have ypart: "(\<forall>cin md c. cgw_parse_attr h nlh (CGW_TYPE_CAN_CAN h) cin = Some (Inr (), md, c)
               \<longrightarrow> crc8_indices_in_domain y)
            \<and> (\<not> crc8_indices_in_domain y \<longrightarrow>
                 (\<forall>cin. \<exists>md. cgw_parse_attr h nlh (CGW_TYPE_CAN_CAN h) cin = Some (Inl EINVAL, md, cin))
                 \<and> (\<exists>err. cgw_create_job h e s nlh = Some (Inl err, s))
                 \<and> (head_ok h nlh \<and> kmem_cache_alloc e \<noteq> None \<longrightarrow>
                      cgw_create_job h e s nlh = Some (Inl EINVAL, s)))"
    if "cs_crc8_attr h tb = Some y" for y
  proof (intro conjI; (rule impI)?)
    show "\<forall>cin md c. cgw_parse_attr h nlh (CGW_TYPE_CAN_CAN h) cin = Some (Inr (), md, c)
               \<longrightarrow> crc8_indices_in_domain y"
      using y1 [OF that] by blast
  next
    assume "\<not> crc8_indices_in_domain y"
    from rejected [OF y2 [OF that this]]
    show "(\<forall>cin. \<exists>md. cgw_parse_attr h nlh (CGW_TYPE_CAN_CAN h) cin = Some (Inl EINVAL, md, cin))
                 \<and> (\<exists>err. cgw_create_job h e s nlh = Some (Inl err, s))
                 \<and> (head_ok h nlh \<and> kmem_cache_alloc e \<noteq> None \<longrightarrow>
                      cgw_create_job h e s nlh = Some (Inl EINVAL, s))" .
  qed
  have xskip: "cgw_parse_attr h nlh (CGW_TYPE_CAN_CAN h) cin =
            cgw_parse_attr h (nlh\<lparr>nlmsg_parse := Inr (tb\<lparr>tb_CGW_CS_XOR := None\<rparr>)\<rparr>)
              (CGW_TYPE_CAN_CAN h) cin"
    if "tb_CGW_CS_XOR tb = Some a" and "nla_len a \<noteq> CGW_CS_XOR_LEN h" for a cin
    using that assms(1,2) by (simp add: cgw_parse_attr_def skip_cs_xor split: prod.splits sum.splits)
  have yskip: "cgw_parse_attr h nlh (CGW_TYPE_CAN_CAN h) cin =
            cgw_parse_attr h (nlh\<lparr>nlmsg_parse := Inr (tb\<lparr>tb_CGW_CS_CRC8 := None\<rparr>)\<rparr>)
              (CGW_TYPE_CAN_CAN h) cin"
    if "tb_CGW_CS_CRC8 tb = Some a" and "nla_len a \<noteq> CGW_CS_CRC8_LEN h" for a cin
    using that assms(1,2) by (simp add: cgw_parse_attr_def skip_cs_crc8 split: prod.splits sum.splits)
  note dis = parse_mods_csum [OF assms(2)]
  have xdis: "from_idx (csum_xor md) = CGW_CS_DISABLED"
    if "cs_xor_attr h tb = None"
      and "cgw_parse_attr h nlh (CGW_TYPE_CAN_CAN h) cin = Some (ret, md, c)" for cin ret md c
    using cgw_parse_attr_mod [OF assms(1,2) that(2)] that(1) dis
    by (simp add: pn split: option.splits if_splits)
  have ydis: "crc8_from_idx (csum_crc8 md) = CGW_CS_DISABLED"
    if "cs_crc8_attr h tb = None"
      and "cgw_parse_attr h nlh (CGW_TYPE_CAN_CAN h) cin = Some (ret, md, c)" for cin ret md c
    using cgw_parse_attr_mod [OF assms(1,2) that(2)] that(1) dis
    by (simp add: pn split: option.splits if_splits)
  show ?thesis
  proof (intro conjI)
    show "\<forall>a cin. tb_CGW_CS_XOR tb = Some a \<and> nla_len a \<noteq> CGW_CS_XOR_LEN h \<longrightarrow>
            cgw_parse_attr h nlh (CGW_TYPE_CAN_CAN h) cin =
            cgw_parse_attr h (nlh\<lparr>nlmsg_parse := Inr (tb\<lparr>tb_CGW_CS_XOR := None\<rparr>)\<rparr>)
              (CGW_TYPE_CAN_CAN h) cin"
      using xskip by blast
    show "\<forall>a cin. tb_CGW_CS_CRC8 tb = Some a \<and> nla_len a \<noteq> CGW_CS_CRC8_LEN h \<longrightarrow>
            cgw_parse_attr h nlh (CGW_TYPE_CAN_CAN h) cin =
            cgw_parse_attr h (nlh\<lparr>nlmsg_parse := Inr (tb\<lparr>tb_CGW_CS_CRC8 := None\<rparr>)\<rparr>)
              (CGW_TYPE_CAN_CAN h) cin"
      using yskip by blast
    show "\<forall>cin ret md c. cs_xor_attr h tb = None
              \<and> cgw_parse_attr h nlh (CGW_TYPE_CAN_CAN h) cin = Some (ret, md, c) \<longrightarrow>
            from_idx (csum_xor md) = CGW_CS_DISABLED"
      using xdis by blast
    show "\<forall>cin ret md c. cs_crc8_attr h tb = None
              \<and> cgw_parse_attr h nlh (CGW_TYPE_CAN_CAN h) cin = Some (ret, md, c) \<longrightarrow>
            crc8_from_idx (csum_crc8 md) = CGW_CS_DISABLED"
      using ydis by blast
  qed (use xpart ypart in blast)+
qed

theorem checksum_indices_validated_witness:
  "cs_xor_attr ex_h ex_tb_bad_cs = Some (ex_cs_xor\<lparr>to_idx := 8\<rparr>)
   \<and> \<not> xor_indices_in_domain (ex_cs_xor\<lparr>to_idx := 8\<rparr>)
   \<and> cgw_create_job ex_h (ex_menv 10) ex_state0 (ex_req ex_tb_bad_cs) = Some (Inl EINVAL, ex_state0)
   \<and> cs_xor_attr ex_h ex_cs_tb = Some ex_cs_xor
   \<and> xor_indices_in_domain ex_cs_xor
   \<and> cs_xor_attr ex_h ex_tb_long_cs = None
   \<and> cgw_parse_attr ex_h (ex_req ex_tb_long_cs) (CGW_TYPE_CAN_CAN ex_h) ex_ccgw =
       cgw_parse_attr ex_h (ex_req (ex_tb_long_cs\<lparr>tb_CGW_CS_XOR := None\<rparr>))
         (CGW_TYPE_CAN_CAN ex_h) ex_ccgw
   \<and> from_idx (csum_xor (gwj_mod ex_set_job)) = CGW_CS_DISABLED"
proof -
  have k: "(1::nat) \<noteq> 0" by simp
  have x1: "cs_xor_attr ex_h ex_tb_bad_cs = Some (ex_cs_xor\<lparr>to_idx := 8\<rparr>)"
    by (simp add: cs_xor_attr_def ex_tb_bad_cs_def ex_h_simps)
  have x2: "\<not> xor_indices_in_domain (ex_cs_xor\<lparr>to_idx := 8\<rparr>)"
    by (simp add: xor_indices_in_domain_def idx_in_domain_def ex_cs_xor_def)
  have x3: "cs_xor_attr ex_h ex_cs_tb = Some ex_cs_xor"
    by (simp add: cs_xor_attr_def ex_cs_tb_def ex_h_simps)
  have x4: "cs_xor_attr ex_h ex_tb_long_cs = None"
    by (simp add: cs_xor_attr_def ex_tb_long_cs_def ex_h_simps)
  have x5: "tb_CGW_CS_XOR ex_tb_long_cs = Some \<lparr>nla_len = 5, nla_data = ex_cs_xor\<lparr>to_idx := 8\<rparr>\<rparr>
            \<and> nla_len \<lparr>nla_len = 5, nla_data = ex_cs_xor\<lparr>to_idx := 8\<rparr>\<rparr> \<noteq> CGW_CS_XOR_LEN ex_h"
    by (simp add: ex_tb_long_cs_def ex_h_simps)
  have rq: "(ex_req ex_tb_long_cs)\<lparr>nlmsg_parse := Inr (ex_tb_long_cs\<lparr>tb_CGW_CS_XOR := None\<rparr>)\<rparr>
              = ex_req (ex_tb_long_cs\<lparr>tb_CGW_CS_XOR := None\<rparr>)"
    by (simp add: ex_req_def)
  note bad = checksum_indices_validated [OF ex_req_simps(2) ex_bad_cs_parse_mods k,
      of "ex_menv 10" ex_state0, THEN conjunct1, rule_format, OF x1]
  note good = checksum_indices_validated [OF ex_req_simps(2) ex_cs_parse_mods k,
      of "ex_menv 10" ex_state0, THEN conjunct1, rule_format, OF x3]
  note long = checksum_indices_validated [OF ex_req_simps(2) ex_long_cs_parse_mods k,
      of "ex_menv 10" ex_state0, THEN conjunct2, THEN conjunct2]
  have c3: "cgw_create_job ex_h (ex_menv 10) ex_state0 (ex_req ex_tb_bad_cs) = Some (Inl EINVAL, ex_state0)"
    using bad [THEN conjunct2] x2 by (simp add: ex_head_ok ex_menv_simps)
  have c5: "xor_indices_in_domain ex_cs_xor"
    using good [THEN conjunct1, rule_format, OF ex_cs_parse [of ex_ccgw]] .
  have c7: "cgw_parse_attr ex_h (ex_req ex_tb_long_cs) (CGW_TYPE_CAN_CAN ex_h) ex_ccgw =
       cgw_parse_attr ex_h (ex_req (ex_tb_long_cs\<lparr>tb_CGW_CS_XOR := None\<rparr>))
         (CGW_TYPE_CAN_CAN ex_h) ex_ccgw"
    using long [THEN conjunct1, rule_format, OF x5, of ex_ccgw] unfolding rq .
  have c8: "from_idx (csum_xor (gwj_mod ex_set_job)) = CGW_CS_DISABLED"
    using long [THEN conjunct2, THEN conjunct2, THEN conjunct1, rule_format,
        OF conjI [OF x4 ex_long_cs_parse [of ex_ccgw]]] .
  from x1 x2 c3 x3 c5 x4 c7 c8 show ?thesis by blast
qed

text \<open>
  Claim C9, as stated, does not hold: a request with a \<^verbatim>\<open>CGW_MOD_AND\<close> attribute
  whose selector is empty (modtype 0) is not rejected; \<^verbatim>\<open>cgw_create_job\<close> installs
  its job.
\<close>

theorem empty_selector_installed_counterexample:
  "tb_CGW_MOD_AND ex_tb_empty_and = Some \<lparr>nla_len = 17, nla_data = \<lparr>mb_cf = ex_frame, mb_modtype = 0\<rparr>\<rparr>
   \<and> empty_selector ex_h \<lparr>nla_len = 17, nla_data = \<lparr>mb_cf = ex_frame, mb_modtype = 0\<rparr>\<rparr>
   \<and> cgw_create_job ex_h (ex_menv 10) ex_state0 (ex_req ex_tb_empty_and) =
       Some (Inr (),
         \<lparr>cgw_list = [(10, ex_job12\<lparr>gwj_mod := cf_mod_init\<lparr>modframe_and := ex_frame\<rparr>\<rparr>)],
          can_rx = [rx_entry_of 10 ex_job12]\<rparr>)"
proof -
  have pm: "parse_mods ex_h ex_tb_empty_and = Some (cf_mod_init\<lparr>modframe_and := ex_frame\<rparr>, 0)"
    by (simp add: parse_mods_def parse_mod_and_def parse_mod_or_def parse_mod_xor_def
        parse_mod_set_def ex_tb_def ex_tb_empty_and_def ex_h_simps modtype_bit_def
        canframecpy_def cf_mod_init_def zero_frame_def ex_frame_def Let_def)
  have pa: "cgw_parse_attr ex_h (ex_req ex_tb_empty_and) (CGW_TYPE_CAN_CAN ex_h) cin
     = Some (Inr (), cf_mod_init\<lparr>modframe_and := ex_frame\<rparr>, ex_ccgw\<lparr>dst_idx := 2\<rparr>)" for cin
    using cgw_parse_attr_cases [OF ex_req_simps(2) pm, of cin]
    by (simp add: parse_csum_def parse_ccgw_def ex_tb_def ex_tb_empty_and_def ex_ccgw_def Let_def)
  have "cgw_create_job ex_h (ex_menv 10) ex_state0 (ex_req ex_tb_empty_and) =
       Some (Inr (),
         \<lparr>cgw_list = [(10, ex_job12\<lparr>gwj_mod := cf_mod_init\<lparr>modframe_and := ex_frame\<rparr>\<rparr>)],
          can_rx = [rx_entry_of 10 ex_job12]\<rparr>)"
    unfolding create_job_after_parse [OF ex_head_ok ex_menv_simps(1) pa]
    by (simp add: ex_h_simps ex_req_simps ex_menv_simps
        ex_state0_def ex_job12_def ex_job_def ex_ccgw_def rx_entry_of_def)
  then show ?thesis
    by (simp add: ex_tb_empty_and_def ex_tb_def empty_selector_def)
qed

text \<open>
  Claim C9, amended. Building the modification record validates no operator. A
  \<^verbatim>\<open>CGW_MOD_*\<close> attribute whose selector is empty is not rejected and appends no
  function: its block of the parser stores the operand frame and the selector byte when
  the attribute has the length of the struct, skips it otherwise, and leaves
  \<^verbatim>\<open>modfunc\<close> and \<^verbatim>\<open>modidx\<close> as they were. The four blocks never fail: the functions
  they build are exactly those that the \<^verbatim>\<open>CGW_MOD_AND\<close>, \<^verbatim>\<open>CGW_MOD_OR\<close>,
  \<^verbatim>\<open>CGW_MOD_XOR\<close> and \<^verbatim>\<open>CGW_MOD_SET\<close> attributes select, in this order (ID, DLC,
  DATA within each), so that every function built is an AND, OR, XOR or SET function.
  For the request and for the same request without its attributes of empty selector, the
  parser returns the same value, the same interface data, the same array of functions
  and the same checksum stages, and \<^verbatim>\<open>cgw_create_job\<close> returns the same value. The
  value the parser returns is \<^verbatim>\<open>-EINVAL\<close> when the checksum block fails, and that of
  the interface checks otherwise; the checksum block passes exactly when no function was
  built or the indices of every checksum attribute of the right length lie in \<open>-8..7\<close>.
\<close>

theorem mod_attributes_never_rejected:
  assumes "nlmsg_parse nlh = Inr tb"
  shows "(\<forall>a md k. tb_CGW_MOD_AND tb = Some a \<and> empty_selector h a \<longrightarrow>
            parse_mod_and h tb (md, k) =
              Some (if nla_len a = CGW_MODATTR_LEN h
                    then md\<lparr>modframe_and := canframecpy (modframe_and md) (mb_cf (nla_data a)),
                            modtype_and := mb_modtype (nla_data a)\<rparr>
                    else md, k))
       \<and> (\<forall>a md k. tb_CGW_MOD_OR tb = Some a \<and> empty_selector h a \<longrightarrow>
            parse_mod_or h tb (md, k) =
              Some (if nla_len a = CGW_MODATTR_LEN h
                    then md\<lparr>modframe_or := canframecpy (modframe_or md) (mb_cf (nla_data a)),
                            modtype_or := mb_modtype (nla_data a)\<rparr>
                    else md, k))
       \<and> (\<forall>a md k. tb_CGW_MOD_XOR tb = Some a \<and> empty_selector h a \<longrightarrow>
            parse_mod_xor h tb (md, k) =
              Some (if nla_len a = CGW_MODATTR_LEN h
                    then md\<lparr>modframe_xor := canframecpy (modframe_xor md) (mb_cf (nla_data a)),
                            modtype_xor := mb_modtype (nla_data a)\<rparr>
                    else md, k))
       \<and> (\<forall>a md k. tb_CGW_MOD_SET tb = Some a \<and> empty_selector h a \<longrightarrow>
            parse_mod_set h tb (md, k) =
              Some (if nla_len a = CGW_MODATTR_LEN h
                    then md\<lparr>modframe_set := canframecpy (modframe_set md) (mb_cf (nla_data a)),
                            modtype_set := mb_modtype (nla_data a)\<rparr>
                    else md, k))
       \<and> (\<exists>md. parse_mods h tb = Some (md, length (selected_funcs h tb))
             \<and> modfunc md = map Some (selected_funcs h tb)
                   @ replicate (MAX_MODFUNCTIONS - length (selected_funcs h tb)) None)
       \<and> (\<forall>cin. \<exists>ret md md' c.
             cgw_parse_attr h nlh (CGW_TYPE_CAN_CAN h) cin = Some (ret, md, c)
           \<and> cgw_parse_attr h (nlh\<lparr>nlmsg_parse := Inr (drop_empty h tb)\<rparr>) (CGW_TYPE_CAN_CAN h) cin
               = Some (ret, md', c)
           \<and> modfunc md = modfunc md' \<and> csum_xor md = csum_xor md' \<and> csum_crc8 md = csum_crc8 md'
           \<and> ret = (if csum_passes h tb then fst (parse_ccgw tb) else Inl EINVAL))
       \<and> (\<forall>e s. map_option fst (cgw_create_job h e s (nlh\<lparr>nlmsg_parse := Inr (drop_empty h tb)\<rparr>))
                 = map_option fst (cgw_create_job h e s nlh))
       \<and> csum_passes h tb =
             (selected_funcs h tb = []
              \<or> ((\<forall>x. cs_xor_attr h tb = Some x \<longrightarrow> xor_indices_in_domain x)
                 \<and> (\<forall>y. cs_crc8_attr h tb = Some y \<longrightarrow> crc8_indices_in_domain y)))"
proof (intro conjI)
  show "\<exists>md. parse_mods h tb = Some (md, length (selected_funcs h tb))
             \<and> modfunc md = map Some (selected_funcs h tb)
                   @ replicate (MAX_MODFUNCTIONS - length (selected_funcs h tb)) None"
    using parse_mods_selected [of h tb] by blast
  show "\<forall>cin. \<exists>ret md md' c.
             cgw_parse_attr h nlh (CGW_TYPE_CAN_CAN h) cin = Some (ret, md, c)
           \<and> cgw_parse_attr h (nlh\<lparr>nlmsg_parse := Inr (drop_empty h tb)\<rparr>) (CGW_TYPE_CAN_CAN h) cin
               = Some (ret, md', c)
           \<and> modfunc md = modfunc md' \<and> csum_xor md = csum_xor md' \<and> csum_crc8 md = csum_crc8 md'
           \<and> ret = (if csum_passes h tb then fst (parse_ccgw tb) else Inl EINVAL)"
    using parser_same_without_empty [OF assms] by blast
  show "\<forall>e s. map_option fst (cgw_create_job h e s (nlh\<lparr>nlmsg_parse := Inr (drop_empty h tb)\<rparr>))
                 = map_option fst (cgw_create_job h e s nlh)"
  proof (intro allI)
    fix e s
    have "\<exists>ret md md' c.
             cgw_parse_attr h nlh (CGW_TYPE_CAN_CAN h) cin = Some (ret, md, c)
           \<and> cgw_parse_attr h (nlh\<lparr>nlmsg_parse := Inr (drop_empty h tb)\<rparr>) (CGW_TYPE_CAN_CAN h) cin
               = Some (ret, md', c)" for cin
      using parser_same_without_empty [OF assms, of h cin] by blast
    then show "map_option fst (cgw_create_job h e s (nlh\<lparr>nlmsg_parse := Inr (drop_empty h tb)\<rparr>))
                 = map_option fst (cgw_create_job h e s nlh)"
      by (rule create_job_same_return) simp_all
  qed
  show "csum_passes h tb =
             (selected_funcs h tb = []
              \<or> ((\<forall>x. cs_xor_attr h tb = Some x \<longrightarrow> xor_indices_in_domain x)
                 \<and> (\<forall>y. cs_crc8_attr h tb = Some y \<longrightarrow> crc8_indices_in_domain y)))"
    by (rule csum_passes_iff)
qed (simp_all add: parse_mod_and_empty_stored parse_mod_or_empty_stored
       parse_mod_xor_empty_stored parse_mod_set_empty_stored)

theorem mod_attributes_never_rejected_witness:
  "parse_mod_and ex_h ex_tb_empty_and (cf_mod_init, 0) =
     Some (cf_mod_init\<lparr>modframe_and := canframecpy (modframe_and cf_mod_init) ex_frame,
                       modtype_and := 0\<rparr>, 0)
   \<and> selected_funcs ex_h ex_tb_empty_and = []
   \<and> (\<exists>md. parse_mods ex_h ex_tb_empty_and = Some (md, 0)
         \<and> modfunc md = replicate MAX_MODFUNCTIONS None)
   \<and> drop_empty ex_h ex_tb_empty_and = ex_tb
   \<and> (\<exists>md md' c.
         cgw_parse_attr ex_h (ex_req ex_tb_empty_and) (CGW_TYPE_CAN_CAN ex_h) ex_ccgw
           = Some (Inr (), md, c)
       \<and> cgw_parse_attr ex_h (ex_req ex_tb) (CGW_TYPE_CAN_CAN ex_h) ex_ccgw = Some (Inr (), md', c))
   \<and> csum_passes ex_h ex_tb_empty_and"
proof -
  have es: "tb_CGW_MOD_AND ex_tb_empty_and
              = Some \<lparr>nla_len = 17, nla_data = \<lparr>mb_cf = ex_frame, mb_modtype = 0\<rparr>\<rparr>
            \<and> empty_selector ex_h \<lparr>nla_len = 17, nla_data = \<lparr>mb_cf = ex_frame, mb_modtype = 0\<rparr>\<rparr>"
    by (simp add: ex_tb_empty_and_def ex_tb_def empty_selector_def)
  have sel: "selected_funcs ex_h ex_tb_empty_and = []"
    by (simp add: selected_funcs_def selects_def ex_tb_empty_and_def ex_tb_def)
  have de: "drop_empty ex_h ex_tb_empty_and = ex_tb"
    by (simp add: drop_empty_def drop_if_empty_def empty_selector_def ex_tb_empty_and_def ex_tb_def)
  have rq: "(ex_req ex_tb_empty_and)\<lparr>nlmsg_parse := Inr ex_tb\<rparr> = ex_req ex_tb"
    by (simp add: ex_req_def)
  have pr: "fst (parse_ccgw ex_tb_empty_and) = Inr ()"
    by (simp add: parse_ccgw_def ex_tb_def ex_tb_empty_and_def Let_def)
  note t = mod_attributes_never_rejected [OF ex_req_simps(2), of ex_tb_empty_and ex_h]
  have a: "parse_mod_and ex_h ex_tb_empty_and (cf_mod_init, 0) =
     Some (cf_mod_init\<lparr>modframe_and := canframecpy (modframe_and cf_mod_init) ex_frame,
                       modtype_and := 0\<rparr>, 0)"
    using t [THEN conjunct1, rule_format, OF es, of cf_mod_init 0] by (simp add: ex_h_simps)
  have cp: "csum_passes ex_h ex_tb_empty_and"
    using t sel by blast
  have b: "\<exists>md. parse_mods ex_h ex_tb_empty_and = Some (md, 0)
         \<and> modfunc md = replicate MAX_MODFUNCTIONS None"
    using t [THEN conjunct2, THEN conjunct2, THEN conjunct2, THEN conjunct2, THEN conjunct1]
    by (simp add: sel)
  have c: "\<exists>md md' c.
         cgw_parse_attr ex_h (ex_req ex_tb_empty_and) (CGW_TYPE_CAN_CAN ex_h) ex_ccgw
           = Some (Inr (), md, c)
       \<and> cgw_parse_attr ex_h (ex_req ex_tb) (CGW_TYPE_CAN_CAN ex_h) ex_ccgw = Some (Inr (), md', c)"
    using t [THEN conjunct2, THEN conjunct2, THEN conjunct2, THEN conjunct2, THEN conjunct2,
        THEN conjunct1, rule_format, of ex_ccgw] cp pr
    by (auto simp: de rq)
  from a sel b de c cp show ?thesis by blast
qed

text \<open>
  Claim C10. For every parsed request the number of functions appended is at most 12,
  hence at most \<^verbatim>\<open>MAX_MODFUNCTIONS\<close> = 17: no store goes beyond the array (the
  parser never has the result \<open>None\<close>), the functions fill the array from the front,
  and the null pointers follow. The loop of the hot path, on any job, ends after at most
  17 calls of a modification function.
\<close>

theorem operator_count_bounded:
  "MAX_MODFUNCTIONS = 17
   \<and> (\<exists>md k. parse_mods h tb = Some (md, k) \<and> k \<le> 12 \<and> k \<le> MAX_MODFUNCTIONS
         \<and> length (modfunc md) = MAX_MODFUNCTIONS
         \<and> (\<forall>i < MAX_MODFUNCTIONS. (modfunc md ! i \<noteq> None) = (i < k)))
   \<and> (\<forall>nlh gwt c. nlmsg_parse nlh = Inr tb \<longrightarrow> cgw_parse_attr h nlh gwt c \<noteq> None)
   \<and> (\<exists>m' k' tr'. modfunc_loop md0 cf m 0 [] = (m', k', tr') \<and> k' \<le> MAX_MODFUNCTIONS
         \<and> length tr' = k' \<and> filter is_modfunc tr' = tr')"
proof (intro conjI)
  show "MAX_MODFUNCTIONS = 17" by (simp add: MAX_MODFUNCTIONS_def)
next
  from parse_mods_ok [of h tb]
  show "\<exists>md k. parse_mods h tb = Some (md, k) \<and> k \<le> 12 \<and> k \<le> MAX_MODFUNCTIONS
         \<and> length (modfunc md) = MAX_MODFUNCTIONS
         \<and> (\<forall>i < MAX_MODFUNCTIONS. (modfunc md ! i \<noteq> None) = (i < k))"
    by (auto simp: appends_at_most_def modfunc_filled_def MAX_MODFUNCTIONS_def)
next
  from parse_mods_ok [of h tb]
  show "\<forall>nlh gwt c. nlmsg_parse nlh = Inr tb \<longrightarrow> cgw_parse_attr h nlh gwt c \<noteq> None"
    by (auto simp: appends_at_most_def cgw_parse_attr_def split: prod.splits sum.splits)
next
  show "\<exists>m' k' tr'. modfunc_loop md0 cf m 0 [] = (m', k', tr') \<and> k' \<le> MAX_MODFUNCTIONS
         \<and> length tr' = k' \<and> filter is_modfunc tr' = tr'"
    by (rule modfunc_loop_bound)
qed

theorem operator_count_bounded_witness:
  "MAX_MODFUNCTIONS = 17
   \<and> (\<exists>md k. parse_mods ex_h ex_cs_tb = Some (md, k) \<and> k \<le> 12 \<and> k \<le> MAX_MODFUNCTIONS
         \<and> length (modfunc md) = MAX_MODFUNCTIONS)
   \<and> cgw_parse_attr ex_h (ex_req ex_cs_tb) (CGW_TYPE_CAN_CAN ex_h) ex_ccgw \<noteq> None
   \<and> (\<exists>m' k' tr'. modfunc_loop (gwj_mod ex_cs_job) 0 [ex_frame] 0 [] = (m', k', tr')
         \<and> k' \<le> MAX_MODFUNCTIONS \<and> length tr' = k')"
  using operator_count_bounded [of ex_h ex_cs_tb "gwj_mod ex_cs_job" 0 "[ex_frame]"]
    ex_req_simps(2) [of ex_cs_tb]
  by blast

end
